(* ===== verification/Prelude.thy ===== *)
theory Prelude
  imports Main "HOL-Library.Word"
begin

text \<open>
  Shared vocabulary of the development: the fixed-width integers of the C code, the result
  type of C operations whose behaviour may be undefined, the search loops over arrays that
  every table of the firmware uses, and the collections of facts the component proofs feed
  to the simplifier.

  \<^item> \<open>cres\<close> is the result of a piece of C: \<open>Inl u\<close> says that the C standard gives no meaning
    to the execution (\<open>u\<close> names the first offence), \<open>Inr x\<close> that it ends with \<open>x\<close>.
  \<^item> \<open>first_idx P xs\<close> is the loop \<open>for (i = 0; i < n; i++) if (P(a[i])) break;\<close> over the
    prefix \<open>xs\<close> of an array, and \<open>scan_down P xs n\<close> the loop that counts down from the end
    and stops at the highest used slot.
\<close>

section \<open>Collections of facts\<close>

named_theorems cres_simps \<open>evaluation of the undefined-behaviour result type\<close>
named_theorems inv_intros \<open>an operation keeps the invariant of its component\<close>
named_theorems frame_simps \<open>what an operation leaves alone\<close>

section \<open>Machine integers\<close>

type_synonym byte = "8 word"
type_synonym u16 = "16 word"
type_synonym u32 = "32 word"

section \<open>Results of C operations\<close>

datatype ub =
    OOB_read          \<comment> \<open>an array is read outside its bounds\<close>
  | OOB_write         \<comment> \<open>an array is written outside its bounds\<close>
  | Missing_vararg    \<comment> \<open>a conversion of a format string has no argument\<close>
  | Bad_format        \<comment> \<open>a conversion of a format string is malformed or ill-typed\<close>
  | Uninit_read       \<comment> \<open>an uninitialised object is read\<close>
  | Null_deref        \<comment> \<open>a null pointer is handed to a string function\<close>
  | Conv_range        \<comment> \<open>a floating value is converted to an integer type it does not fit\<close>

type_synonym 'a cres = "ub + 'a"

definition bindE :: "'a cres \<Rightarrow> ('a \<Rightarrow> 'b cres) \<Rightarrow> 'b cres" where
  "bindE r k = (case r of Inl u \<Rightarrow> Inl u | Inr x \<Rightarrow> k x)"

definition guardE :: "bool \<Rightarrow> ub \<Rightarrow> 'a cres \<Rightarrow> 'a cres" where
  "guardE b u r = (if b then r else Inl u)"

lemma bindE_Inl [simp, cres_simps]: "bindE (Inl u) k = Inl u"
  by (simp add: bindE_def)

lemma bindE_Inr [simp, cres_simps]: "bindE (Inr x) k = k x"
  by (simp add: bindE_def)

lemma bindE_eq_Inr [cres_simps]:
  "bindE r k = Inr y \<longleftrightarrow> (\<exists>x. r = Inr x \<and> k x = Inr y)"
  by (cases r) simp_all

lemma bindE_assoc: "bindE (bindE r k) l = bindE r (\<lambda>x. bindE (k x) l)"
  by (cases r) simp_all

lemma bindE_cong [fundef_cong]:
  "r = r' \<Longrightarrow> (\<And>x. r' = Inr x \<Longrightarrow> k x = k' x) \<Longrightarrow> bindE r k = bindE r' k'"
  by (cases r') simp_all

lemma guardE_True [simp, cres_simps]: "guardE True u r = r"
  by (simp add: guardE_def)

lemma guardE_False [simp, cres_simps]: "guardE False u r = Inl u"
  by (simp add: guardE_def)

lemma guardE_eq_Inr [cres_simps]: "guardE b u r = Inr y \<longleftrightarrow> b \<and> r = Inr y"
  by (simp add: guardE_def)

definition is_defined :: "'a cres \<Rightarrow> bool" where
  "is_defined r = (case r of Inl _ \<Rightarrow> False | Inr _ \<Rightarrow> True)"

lemma is_defined_simps [simp]: "is_defined (Inr x)" "\<not> is_defined (Inl u)"
  by (simp_all add: is_defined_def)

lemma is_defined_iff: "is_defined r \<longleftrightarrow> (\<exists>x. r = Inr x)"
  by (cases r) simp_all

section \<open>Components as machines\<close>

text \<open>
  A component with its operations as one step function; \<open>run_ops\<close> performs a sequence of
  operations, up to the first one without a defined result. The locale \<open>op_system\<close> is the
  contract "every operation keeps the invariant", which lifts to sequences.
\<close>

fun run_ops :: "('op \<Rightarrow> 's \<Rightarrow> 's cres) \<Rightarrow> 'op list \<Rightarrow> 's \<Rightarrow> 's cres" where
  "run_ops step [] s = Inr s"
| "run_ops step (x # xs) s = bindE (step x s) (run_ops step xs)"

locale op_system =
  fixes step :: "'op \<Rightarrow> 's \<Rightarrow> 's cres"
    and inv :: "'s \<Rightarrow> bool"
  assumes step_inv: "inv s \<Longrightarrow> step x s = Inr s' \<Longrightarrow> inv s'"
begin

lemma run_inv: "inv s \<Longrightarrow> run_ops step xs s = Inr s' \<Longrightarrow> inv s'"
  by (induction xs arbitrary: s) (auto simp: cres_simps intro: step_inv)

end

text \<open>A component whose operations are moreover always defined.\<close>

locale total_op_system = op_system +
  assumes step_defined: "inv s \<Longrightarrow> is_defined (step x s)"
begin

lemma run_defined: "inv s \<Longrightarrow> is_defined (run_ops step xs s)"
proof (induction xs arbitrary: s)
  case (Cons x xs)
  then obtain t where "step x s = Inr t" using step_defined [of s x] by (auto simp: is_defined_iff)
  then show ?case using Cons step_inv by auto
qed simp

end

section \<open>Search loops\<close>

fun first_idx :: "('a \<Rightarrow> bool) \<Rightarrow> 'a list \<Rightarrow> nat option" where
  "first_idx P [] = None"
| "first_idx P (x # xs) = (if P x then Some 0 else map_option Suc (first_idx P xs))"

lemma first_idx_None: "first_idx P xs = None \<longleftrightarrow> (\<forall>x \<in> set xs. \<not> P x)"
  by (induction xs) auto

lemma first_idx_Some_iff:
  "first_idx P xs = Some i \<longleftrightarrow> i < length xs \<and> P (xs ! i) \<and> (\<forall>j < i. \<not> P (xs ! j))"
proof (induction xs arbitrary: i)
  case (Cons x xs)
  show ?case
  proof (cases i)
    case 0
    then show ?thesis by simp
  next
    case (Suc k)
    have "(\<forall>j < Suc k. \<not> P ((x # xs) ! j)) \<longleftrightarrow> \<not> P x \<and> (\<forall>j < k. \<not> P (xs ! j))"
      by (auto simp: nth_Cons split: nat.splits)
    then show ?thesis using Suc Cons.IH by auto
  qed
qed simp

lemma first_idx_SomeD:
  assumes "first_idx P xs = Some i"
  shows "i < length xs" and "P (xs ! i)" and "\<And>j. j < i \<Longrightarrow> \<not> P (xs ! j)"
  using assms by (auto simp: first_idx_Some_iff)

lemma first_idx_Some_ex: "first_idx P xs = Some i \<Longrightarrow> \<exists>x \<in> set xs. P x"
  by (auto simp: first_idx_Some_iff)

lemma first_idx_cong:
  "xs = ys \<Longrightarrow> (\<And>x. x \<in> set ys \<Longrightarrow> P x = Q x) \<Longrightarrow> first_idx P xs = first_idx Q ys"
  by (induction ys arbitrary: xs) auto

lemma first_idx_take_Some:
  "first_idx P (take n xs) = Some i \<longleftrightarrow>
     i < n \<and> i < length xs \<and> P (xs ! i) \<and> (\<forall>j < i. \<not> P (xs ! j))"
  by (auto simp: first_idx_Some_iff)

lemma first_idx_take_enough:
  assumes "\<And>i. n \<le> i \<Longrightarrow> i < length xs \<Longrightarrow> \<not> P (xs ! i)"
  shows "first_idx P (take n xs) = first_idx P xs"
proof (cases "first_idx P xs")
  case None
  then have "first_idx P (take n xs) = None" by (auto simp: first_idx_None dest: in_set_takeD)
  then show ?thesis using None by simp
next
  case (Some i)
  then have "i < n" using assms [of i] first_idx_SomeD [OF Some] by (meson not_le)
  then have "first_idx P (take n xs) = Some i"
    using first_idx_SomeD [OF Some] by (auto simp: first_idx_take_Some)
  then show ?thesis using Some by simp
qed

lemma first_idx_map: "first_idx P (map f xs) = first_idx (\<lambda>x. P (f x)) xs"
  by (induction xs) auto

lemma first_idx_update_miss:
  assumes "\<not> P (xs ! i)" and "\<not> P y"
  shows "first_idx P (xs[i := y]) = first_idx P xs"
  using assms
proof (induction xs arbitrary: i)
  case (Cons x xs)
  then show ?case by (cases i) auto
qed simp

fun scan_down :: "('a \<Rightarrow> bool) \<Rightarrow> 'a list \<Rightarrow> nat \<Rightarrow> nat" where
  "scan_down P xs 0 = 0"
| "scan_down P xs (Suc j) = (if P (xs ! j) then Suc j else scan_down P xs j)"

lemma scan_down_le: "scan_down P xs n \<le> n"
  by (induction n) auto

lemma scan_down_above: "scan_down P xs n \<le> i \<Longrightarrow> i < n \<Longrightarrow> \<not> P (xs ! i)"
  by (induction n) (auto simp: less_Suc_eq split: if_splits)

lemma scan_down_top: "scan_down P xs n = Suc k \<Longrightarrow> P (xs ! k)"
  by (induction n) (auto split: if_splits)

lemma scan_down_cong:
  "(\<And>i. i < n \<Longrightarrow> P (xs ! i) = Q (ys ! i)) \<Longrightarrow> scan_down P xs n = scan_down Q ys n"
  by (induction n) auto

lemma scan_down_unique:
  assumes "c \<le> n" and "\<And>i. c \<le> i \<Longrightarrow> i < n \<Longrightarrow> \<not> P (xs ! i)"
    and "\<And>k. c = Suc k \<Longrightarrow> P (xs ! k)"
  shows "scan_down P xs n = c"
  using assms
proof (induction n)
  case (Suc n)
  show ?case
  proof (cases "c = Suc n")
    case True
    then show ?thesis using Suc.prems(3) by simp
  next
    case False
    then have "c \<le> n" using Suc.prems(1) by simp
    then show ?thesis using Suc.IH Suc.prems by auto
  qed
qed simp

section \<open>Lists and updates\<close>

lemma set_update_pred:
  "\<forall>x \<in> set xs. P x \<Longrightarrow> P y \<Longrightarrow> \<forall>x \<in> set (xs[i := y]). P x"
  using set_update_subset_insert by fastforce

lemma list_all_update:
  "list_all P xs \<Longrightarrow> P y \<Longrightarrow> list_all P (xs[i := y])"
  by (auto simp: list_all_iff dest!: set_update_subset_insert [THEN subsetD])

end
