(* ===== verification/C_Lib.thy ===== *)
theory C_Lib
  imports Prelude
begin

text \<open>
  The parts of the C standard library the firmware uses, on HOL lists of \<open>char\<close>.

  A C string argument (\<open>const char *\<close>) is a \<open>string\<close> without the character NUL
  (\<open>is_cstr\<close>); a character array of \<open>n\<close> bytes is a \<open>string\<close> of length \<open>n\<close> and what the
  string functions see of it is \<open>cstr\<close>, the part before its first NUL. An array without
  a NUL is read as if it ended at its last byte; the components prove that their arrays
  always hold one (\<open>terminated\<close>), so this case does not arise.
\<close>

section \<open>Characters and bytes\<close>

abbreviation NUL :: char where "NUL \<equiv> CHR 0x00"

definition byte_of_char :: "char \<Rightarrow> byte" where
  "byte_of_char c = of_char c"

definition char_of_byte :: "byte \<Rightarrow> char" where
  "char_of_byte b = char_of (unat b)"

lemma unat_byte_of_char [simp]: "unat (byte_of_char c) = (of_char c :: nat)"
proof -
  have "byte_of_char c = word_of_nat (of_char c)"
    by (simp add: byte_of_char_def of_nat_of_char)
  then show ?thesis
    using nat_of_char_less_256 [of c] by (simp add: unat_of_nat)
qed

lemma char_of_byte_of_char [simp]: "char_of_byte (byte_of_char c) = c"
  by (simp add: char_of_byte_def)

lemma byte_of_char_of_byte [simp]: "byte_of_char (char_of_byte b) = b"
proof -
  have "unat b < 256" using unsigned_less [of b, where ?'a = nat] by simp
  then show ?thesis by (simp add: word_unat_eq_iff char_of_byte_def)
qed

section \<open>C strings in character arrays\<close>

definition is_cstr :: "string \<Rightarrow> bool" where
  "is_cstr s \<longleftrightarrow> NUL \<notin> set s"

definition cstr :: "string \<Rightarrow> string" where
  "cstr a = takeWhile (\<lambda>c. c \<noteq> NUL) a"

definition terminated :: "string \<Rightarrow> bool" where
  "terminated a \<longleftrightarrow> NUL \<in> set a"

lemma is_cstr_cstr [simp]: "is_cstr (cstr a)"
  by (auto simp: is_cstr_def cstr_def dest: set_takeWhileD)

lemma cstr_is_cstr: "is_cstr s \<Longrightarrow> cstr s = s"
  by (auto simp: is_cstr_def cstr_def takeWhile_eq_all_conv)

lemma cstr_append_NUL: "is_cstr s \<Longrightarrow> cstr (s @ NUL # xs) = s"
  by (auto simp: is_cstr_def cstr_def takeWhile_append)

lemma cstr_append_NULs: "is_cstr s \<Longrightarrow> cstr (s @ replicate n NUL) = s"
  by (cases n) (simp_all add: cstr_append_NUL cstr_is_cstr)

lemma is_cstr_take: "is_cstr s \<Longrightarrow> is_cstr (take n s)"
  by (auto simp: is_cstr_def dest: in_set_takeD)

lemma is_cstr_drop: "is_cstr s \<Longrightarrow> is_cstr (drop n s)"
  by (auto simp: is_cstr_def dest: in_set_dropD)

lemma is_cstr_append [simp]: "is_cstr (s @ t) \<longleftrightarrow> is_cstr s \<and> is_cstr t"
  by (auto simp: is_cstr_def)

lemma is_cstr_Nil [simp]: "is_cstr []"
  by (simp add: is_cstr_def)

lemma is_cstr_Cons [simp]: "is_cstr (c # s) \<longleftrightarrow> c \<noteq> NUL \<and> is_cstr s"
  by (auto simp: is_cstr_def)

text \<open>
  \<open>strncpy(dst, s, n - 1); dst[n - 1] = 0;\<close> into an array of \<open>n\<close> bytes: at most \<open>n - 1\<close>
  characters of \<open>s\<close>, the rest filled with NUL.
\<close>

definition strncpy_z :: "nat \<Rightarrow> string \<Rightarrow> string" where
  "strncpy_z n s = take (n - 1) s @ replicate (n - min (n - 1) (length s)) NUL"

lemma length_strncpy_z [simp]: "length (strncpy_z n s) = n"
  by (auto simp: strncpy_z_def)

lemma cstr_strncpy_z: "is_cstr s \<Longrightarrow> cstr (strncpy_z n s) = take (n - 1) s"
  by (simp add: strncpy_z_def cstr_append_NULs is_cstr_take)

lemma terminated_strncpy_z: "0 < n \<Longrightarrow> terminated (strncpy_z n s)"
  by (auto simp: terminated_def strncpy_z_def)

text \<open>\<open>strlcpy\<close> into an array of \<open>n\<close> bytes.\<close>

definition strlcpy :: "nat \<Rightarrow> string \<Rightarrow> string" where
  "strlcpy n s = take (n - 1) s"

section \<open>Case mapping\<close>

definition c_tolower :: "char \<Rightarrow> char" where
  "c_tolower c = (let n = (of_char c :: nat)
     in if 65 \<le> n \<and> n \<le> 90 then char_of (n + 32) else c)"

definition c_toupper :: "char \<Rightarrow> char" where
  "c_toupper c = (let n = (of_char c :: nat)
     in if 97 \<le> n \<and> n \<le> 122 then char_of (n - 32) else c)"

lemma of_char_c_tolower:
  "(of_char (c_tolower c) :: nat) =
     (if 65 \<le> (of_char c :: nat) \<and> (of_char c :: nat) \<le> 90 then of_char c + 32 else of_char c)"
  by (simp add: c_tolower_def Let_def)

lemma of_char_c_toupper:
  "(of_char (c_toupper c) :: nat) =
     (if 97 \<le> (of_char c :: nat) \<and> (of_char c :: nat) \<le> 122 then of_char c - 32 else of_char c)"
proof -
  have "(of_char c :: nat) < 256" by (rule nat_of_char_less_256)
  then have "(of_char c - 32 :: nat) < 256" by linarith
  then have "(of_char c - 32) mod 256 = (of_char c - 32 :: nat)" by (rule mod_less)
  then show ?thesis by (simp add: c_toupper_def Let_def)
qed

lemma char_eq_iff_nat: "(c = d) \<longleftrightarrow> (of_char c :: nat) = of_char d"
  by simp

lemma c_tolower_idem [simp]: "c_tolower (c_tolower c) = c_tolower c"
  unfolding char_eq_iff_nat [of "c_tolower (c_tolower c)"] of_char_c_tolower by auto

lemma c_toupper_idem [simp]: "c_toupper (c_toupper c) = c_toupper c"
  unfolding char_eq_iff_nat [of "c_toupper (c_toupper c)"] of_char_c_toupper by auto

lemma c_tolower_eq_NUL [simp]: "c_tolower c = NUL \<longleftrightarrow> c = NUL"
  unfolding char_eq_iff_nat [of _ NUL] of_char_c_tolower by auto

lemma c_tolower_eq_iff_toupper: "c_tolower c = c_tolower d \<longleftrightarrow> c_toupper c = c_toupper d"
proof -
  have "(if 65 \<le> m \<and> m \<le> 90 then m + 32 else m) = (if 65 \<le> n \<and> n \<le> 90 then n + 32 else n) \<longleftrightarrow>
      (if 97 \<le> m \<and> m \<le> 122 then m - 32 else m) = (if 97 \<le> n \<and> n \<le> 122 then n - 32 else n)"
    for m n :: nat
    by (auto split: if_splits)
  then show ?thesis
    unfolding char_eq_iff_nat [of "c_tolower c"] char_eq_iff_nat [of "c_toupper c"]
      of_char_c_tolower of_char_c_toupper .
qed

text \<open>\<open>strcasecmp(a, b) == 0\<close>\<close>

definition strcaseeq :: "string \<Rightarrow> string \<Rightarrow> bool" where
  "strcaseeq a b \<longleftrightarrow> map c_tolower a = map c_tolower b"

lemma strcaseeq_refl [simp]: "strcaseeq a a"
  and strcaseeq_sym: "strcaseeq a b \<Longrightarrow> strcaseeq b a"
  and strcaseeq_trans: "strcaseeq a b \<Longrightarrow> strcaseeq b c \<Longrightarrow> strcaseeq a c"
  by (simp_all add: strcaseeq_def)

lemma is_cstr_map_tolower [simp]: "is_cstr (map c_tolower s) \<longleftrightarrow> is_cstr s"
  by (induction s) auto

end
