(* ===== verification/Format.thy ===== *)
theory Format
  imports C_Lib
begin

text \<open>
  The part of \<open>printf\<close>-style formatting the firmware uses for text that becomes state (log
  lines and MAC strings), and the byte order of integers in memory and on the wire.

  \<open>c_format fmt args\<close> is \<open>vsnprintf\<close> without the length limit: the conversions \<open>%s\<close>, \<open>%d\<close>,
  \<open>%u\<close> (also after the length modifiers the code does not use) and \<open>%%\<close>. A conversion
  without an argument is undefined behaviour (\<open>Missing_vararg\<close>), as is an argument of the
  wrong type or any other conversion (\<open>Bad_format\<close>); the format strings written in the
  source use no others, so for them nothing is lost, but for the configuration page (theory
  \<open>Http_Props\<close>).
\<close>

section \<open>Decimal and hexadecimal digits\<close>

definition dec_digit :: "nat \<Rightarrow> char" where
  "dec_digit n = char_of (48 + n)"

fun dec_of_nat :: "nat \<Rightarrow> string" where
  "dec_of_nat n = (if n < 10 then [dec_digit n] else dec_of_nat (n div 10) @ [dec_digit (n mod 10)])"

declare dec_of_nat.simps [simp del]

definition dec_of_int :: "int \<Rightarrow> string" where
  "dec_of_int i = (if i < 0 then CHR ''-'' # dec_of_nat (nat (- i)) else dec_of_nat (nat i))"

definition hex_digit :: "nat \<Rightarrow> char" where
  "hex_digit n = (if n < 10 then char_of (48 + n) else char_of (55 + n))"

text \<open>\<open>%02X\<close> of a byte, and the six of them joined by colons of every MAC string.\<close>

definition hex2 :: "byte \<Rightarrow> string" where
  "hex2 b = [hex_digit (unat b div 16), hex_digit (unat b mod 16)]"

fun mac_string :: "byte list \<Rightarrow> string" where
  "mac_string [] = []"
| "mac_string [b] = hex2 b"
| "mac_string (b # bs) = hex2 b @ CHR '':'' # mac_string bs"

section \<open>Format strings\<close>

datatype varg = VStr string | VInt int

abbreviation percent :: char where "percent \<equiv> CHR 0x25"

fun c_format :: "string \<Rightarrow> varg list \<Rightarrow> string cres" where
  "c_format [] as = Inr []"
| "c_format (c # cs) as =
     (if c \<noteq> percent then bindE (c_format cs as) (\<lambda>r. Inr (c # r))
      else (case cs of
        [] \<Rightarrow> Inl Bad_format
      | d # ds \<Rightarrow>
          if d = percent then bindE (c_format ds as) (\<lambda>r. Inr (percent # r))
          else (case as of
            [] \<Rightarrow> Inl Missing_vararg
          | VStr s # as' \<Rightarrow>
              if d = CHR ''s'' then bindE (c_format ds as') (\<lambda>r. Inr (s @ r)) else Inl Bad_format
          | VInt i # as' \<Rightarrow>
              if d = CHR ''d'' \<or> d = CHR ''u''
              then bindE (c_format ds as') (\<lambda>r. Inr (dec_of_int i @ r)) else Inl Bad_format)))"

text \<open>A format without a conversion is copied, whatever the arguments.\<close>

lemma c_format_plain: "percent \<notin> set f \<Longrightarrow> c_format f as = Inr f"
  by (induction f) auto

lemma c_format_plain_append:
  "percent \<notin> set f \<Longrightarrow> c_format (f @ g) as = bindE (c_format g as) (\<lambda>r. Inr (f @ r))"
proof (induction f)
  case Nil
  then show ?case by (cases "c_format g as") simp_all
next
  case (Cons c f)
  then show ?case by (cases "c_format g as") auto
qed

text \<open>A conversion with no argument behind it is undefined, whatever text surrounds it.\<close>

lemma c_format_missing:
  "percent \<notin> set f \<Longrightarrow> d \<noteq> percent \<Longrightarrow> c_format (f @ percent # d # g) [] = Inl Missing_vararg"
  by (simp add: c_format_plain_append)

text \<open>
  With no arguments the result is defined exactly for the texts in which every percent sign
  is doubled.
\<close>

fun percents_doubled :: "string \<Rightarrow> bool" where
  "percents_doubled [] = True"
| "percents_doubled (c # cs) =
     (if c \<noteq> percent then percents_doubled cs
      else (case cs of [] \<Rightarrow> False | d # ds \<Rightarrow> d = percent \<and> percents_doubled ds))"

lemma c_format_Nil_defined: "is_defined (c_format f []) \<longleftrightarrow> percents_doubled f"
proof (induction f rule: percents_doubled.induct)
  case (2 c cs)
  then show ?case
    by (auto simp: is_defined_iff cres_simps split: list.splits)
qed simp

lemma percents_doubled_plain: "percent \<notin> set f \<Longrightarrow> percents_doubled f"
  by (induction f) auto

lemma percents_doubled_append:
  "percent \<notin> set f \<Longrightarrow> percents_doubled (f @ g) \<longleftrightarrow> percents_doubled g"
  by (induction f) auto

lemma dec_digit_not_percent: "n < 10 \<Longrightarrow> dec_digit n \<noteq> percent \<and> dec_digit n \<noteq> NUL"
  unfolding dec_digit_def char_eq_iff_nat by simp

lemma dec_of_nat_chars: "percent \<notin> set (dec_of_nat n) \<and> NUL \<notin> set (dec_of_nat n)"
proof (induction n rule: dec_of_nat.induct)
  case (1 n)
  show ?case
    using 1 dec_digit_not_percent [of n] dec_digit_not_percent [of "n mod 10"]
    by (subst (1 2) dec_of_nat.simps) auto
qed

lemma dec_of_int_chars: "percent \<notin> set (dec_of_int i)" "is_cstr (dec_of_int i)"
  using dec_of_nat_chars by (auto simp: dec_of_int_def is_cstr_def)

definition cstr_arg :: "varg \<Rightarrow> bool" where
  "cstr_arg a = (case a of VStr s \<Rightarrow> is_cstr s | VInt _ \<Rightarrow> True)"

lemma c_format_is_cstr:
  "c_format f as = Inr r \<Longrightarrow> is_cstr f \<Longrightarrow> list_all cstr_arg as \<Longrightarrow> is_cstr r"
proof (induction f as arbitrary: r rule: c_format.induct)
  case (2 c cs as)
  show ?case
  proof (cases "c = percent")
    case False
    with "2.prems" "2.IH"(1) show ?thesis by (auto simp: cres_simps)
  next
    case True
    with "2.prems" obtain d ds where cs: "cs = d # ds" by (cases cs) auto
    show ?thesis
    proof (cases "d = percent")
      case True
      with \<open>c = percent\<close> cs "2.prems" "2.IH"(2) show ?thesis by (auto simp: cres_simps)
    next
      case False
      with \<open>c = percent\<close> cs "2.prems"(1) obtain a as' where as: "as = a # as'" by (cases as) auto
      show ?thesis
      proof (cases a)
        case (VStr s)
        with \<open>c = percent\<close> cs False as "2.prems" "2.IH"(3) show ?thesis
          by (auto simp: cres_simps cstr_arg_def split: if_splits)
      next
        case (VInt i)
        with \<open>c = percent\<close> cs False as "2.prems" "2.IH"(4) show ?thesis
          by (auto simp: cres_simps dec_of_int_chars split: if_splits)
      qed
    qed
  qed
qed simp

section \<open>MAC strings\<close>

lemma hex_digit_chars:
  assumes "n < 16"
  shows "hex_digit n \<noteq> percent" and "hex_digit n \<noteq> NUL"
  using assms unfolding hex_digit_def char_eq_iff_nat by (auto split: if_splits)

lemma hex2_chars: "percent \<notin> set (hex2 b)" "is_cstr (hex2 b)"
proof -
  have "unat b < 256" using unsigned_less [of b, where ?'a = nat] by simp
  then have "unat b div 16 < 16" and "unat b mod 16 < 16" by auto
  then show "percent \<notin> set (hex2 b)" "is_cstr (hex2 b)"
    using hex_digit_chars [of "unat b div 16"] hex_digit_chars [of "unat b mod 16"]
    by (auto simp: hex2_def)
qed

lemma mac_string_chars: "percent \<notin> set (mac_string bs) \<and> is_cstr (mac_string bs)"
  by (induction bs rule: mac_string.induct) (auto simp: hex2_chars)

lemma length_mac_string: "bs \<noteq> [] \<Longrightarrow> length (mac_string bs) = 3 * length bs - 1"
  by (induction bs rule: mac_string.induct) (auto simp: hex2_def)

section \<open>Byte order\<close>

definition le16 :: "u16 \<Rightarrow> byte list" where
  "le16 w = [ucast w, ucast (drop_bit 8 w)]"

definition be16 :: "u16 \<Rightarrow> byte list" where
  "be16 w = [ucast (drop_bit 8 w), ucast w]"

definition u16_of :: "byte \<Rightarrow> byte \<Rightarrow> u16" where
  "u16_of lo hi = or (ucast lo) (push_bit 8 (ucast hi))"

definition le32 :: "u32 \<Rightarrow> byte list" where
  "le32 w = [ucast w, ucast (drop_bit 8 w), ucast (drop_bit 16 w), ucast (drop_bit 24 w)]"

definition u32_of :: "byte \<Rightarrow> byte \<Rightarrow> byte \<Rightarrow> byte \<Rightarrow> u32" where
  "u32_of a b c d = or (ucast a) (or (push_bit 8 (ucast b))
     (or (push_bit 16 (ucast c)) (push_bit 24 (ucast d))))"

lemma length_le16 [simp]: "length (le16 w) = 2"
  by (simp add: le16_def)

lemma length_be16 [simp]: "length (be16 w) = 2"
  by (simp add: be16_def)

lemma length_le32 [simp]: "length (le32 w) = 4"
  by (simp add: le32_def)

lemma u16_of_split [simp]: "u16_of (ucast w) (ucast (drop_bit 8 w)) = w"
  unfolding u16_of_def by (rule bit_word_eqI) (auto simp: bit_simps)

lemma u32_of_split [simp]:
  "u32_of (ucast w) (ucast (drop_bit 8 w)) (ucast (drop_bit 16 w)) (ucast (drop_bit 24 w)) = w"
proof (rule bit_word_eqI)
  fix n assume "n < LENGTH(32)"
  then consider "n < 8" | "8 \<le> n" "n < 16" | "16 \<le> n" "n < 24" | "24 \<le> n" "n < 32"
    by force
  then show "bit (u32_of (ucast w) (ucast (drop_bit 8 w)) (ucast (drop_bit 16 w))
      (ucast (drop_bit 24 w))) n = bit w n"
    by cases (auto simp: u32_of_def bit_simps)
qed

definition byte_of_bool :: "bool \<Rightarrow> byte" where
  "byte_of_bool b = (if b then 1 else 0)"

lemma byte_of_bool_nonzero [simp]: "byte_of_bool b \<noteq> 0 \<longleftrightarrow> b"
  by (simp add: byte_of_bool_def)

section \<open>Arrays of fixed-size structures in memory\<close>

text \<open>
  An array of structures of \<open>w\<close> bytes each is the concatenation of their images;
  \<open>decode_array w dec n bs\<close> reads \<open>n\<close> of them back.
\<close>

fun decode_array :: "nat \<Rightarrow> (byte list \<Rightarrow> 'a) \<Rightarrow> nat \<Rightarrow> byte list \<Rightarrow> 'a list" where
  "decode_array w dec 0 bs = []"
| "decode_array w dec (Suc n) bs = dec (take w bs) # decode_array w dec n (drop w bs)"

lemma length_decode_array [simp]: "length (decode_array w dec n bs) = n"
  by (induction n arbitrary: bs) auto

lemma decode_array_concat:
  assumes "\<And>x. x \<in> set xs \<Longrightarrow> length (enc x) = w" and "\<And>x. x \<in> set xs \<Longrightarrow> dec (enc x) = x"
  shows "decode_array w dec (length xs) (concat (map enc xs)) = xs"
  using assms by (induction xs) auto

lemma length_concat_enc:
  "(\<And>x. x \<in> set xs \<Longrightarrow> length (enc x) = w) \<Longrightarrow> length (concat (map enc xs)) = length xs * w"
  by (induction xs) auto

lemma decode_array_set:
  assumes "\<And>bs. length bs = w \<Longrightarrow> P (dec bs)" and "length bs = n * w" and "x \<in> set (decode_array w dec n bs)"
  shows "P x"
  using assms(2,3)
proof (induction n arbitrary: bs)
  case (Suc n)
  have "P (dec (take w bs))" using Suc.prems(1) by (intro assms(1)) simp
  moreover have "length (drop w bs) = n * w" using Suc.prems(1) by simp
  ultimately show ?case using Suc.prems(2) Suc.IH [of "drop w bs"] by auto
qed simp

text \<open>
  Copying \<open>src\<close> over the start of a memory area: what a read of a blob into an array leaves.
\<close>

definition overlay :: "byte list \<Rightarrow> byte list \<Rightarrow> byte list" where
  "overlay src mem = take (length mem) (src @ drop (length src) mem)"

lemma length_overlay [simp]: "length (overlay src mem) = length mem"
  by (simp add: overlay_def)

lemma overlay_full: "length src = length mem \<Longrightarrow> overlay src mem = src"
  by (simp add: overlay_def)

end
