(* ===== verification/Log_Buffer.thy ===== *)
theory Log_Buffer
  imports Format
begin

text \<open>
  The ring of log lines (\<open>main/log_buffer.c\<close>, \<open>main/log_buffer.h\<close>) and the way the web
  server reads it back (\<open>logs_data_handler\<close> in \<open>main/http_server.c\<close>).

  A line is the C string its 128-byte array holds. The contract of the ring is a sliding
  window over everything ever logged: the locale \<open>sliding_window\<close> states it for any
  fixed-size log and derives what a reader sees after any number of lines; the ring is its
  interpretation.
\<close>

section \<open>The interface: a sliding window\<close>

locale sliding_window =
  fixes emit :: "'a \<Rightarrow> 's \<Rightarrow> 's"
    and window :: "'s \<Rightarrow> 'a list"
    and clip :: "'a \<Rightarrow> 'a"
    and inv :: "'s \<Rightarrow> bool"
    and size :: nat
  assumes window_emit: "inv s \<Longrightarrow> window (emit x s) = tl (window s) @ [clip x]"
    and inv_emit: "inv s \<Longrightarrow> inv (emit x s)"
    and length_window: "inv s \<Longrightarrow> length (window s) = size"
    and size_pos: "0 < size"
begin

lemma inv_run: "inv s \<Longrightarrow> inv (fold emit xs s)"
  by (induction xs arbitrary: s) (auto simp: inv_emit)

lemma window_run: "inv s \<Longrightarrow> window (fold emit xs s) = drop (length xs) (window s @ map clip xs)"
proof (induction xs arbitrary: s)
  case (Cons x xs)
  then have "window s \<noteq> []" using length_window [of s] size_pos by auto
  then show ?case using Cons
    by (cases "window s") (auto simp: inv_emit window_emit simp del: drop_append)
qed (simp add: length_window)

lemma last_window_emit: "inv s \<Longrightarrow> last (window (emit x s)) = clip x"
  by (simp add: window_emit)

end

section \<open>The ring\<close>

definition LOG_BUFFER_SIZE :: nat where "LOG_BUFFER_SIZE = 100"
definition LOG_LINE_MAX_LEN :: nat where "LOG_LINE_MAX_LEN = 128"

record log_state =
  log_buffer :: "string list"
  log_index :: nat

definition log_init :: log_state where
  "log_init = \<lparr>log_buffer = replicate LOG_BUFFER_SIZE [], log_index = 0\<rparr>"

text \<open>What \<open>vsnprintf\<close> leaves in a line for the formatted text \<open>r\<close>, and the step of the ring.\<close>

definition put_line :: "string \<Rightarrow> log_state \<Rightarrow> log_state" where
  "put_line r l = l\<lparr>log_buffer := (log_buffer l)[log_index l := take (LOG_LINE_MAX_LEN - 1) r],
     log_index := (log_index l + 1) mod LOG_BUFFER_SIZE\<rparr>"

definition add_log_line :: "string \<Rightarrow> varg list \<Rightarrow> log_state \<Rightarrow> log_state cres" where
  "add_log_line format args l = bindE (c_format format args) (\<lambda>r. Inr (put_line r l))"

text \<open>
  \<open>GET /logs\<close>: one chunk per non-empty line, oldest first; \<open>snprintf\<close> into an array of
  \<open>LOG_LINE_MAX_LEN + 10\<close> bytes.
\<close>

definition newline :: char where "newline = CHR 0x0A"

definition logs_data_handler :: "log_state \<Rightarrow> string list" where
  "logs_data_handler l = concat (map (\<lambda>i.
     let idx = (log_index l + i) mod LOG_BUFFER_SIZE; text = log_buffer l ! idx
     in if 0 < length text then [take (LOG_LINE_MAX_LEN + 10 - 1) (text @ [newline])] else [])
     [0..<LOG_BUFFER_SIZE])"

section \<open>Invariant and contract\<close>

definition log_wf :: "log_state \<Rightarrow> bool" where
  "log_wf l \<longleftrightarrow> length (log_buffer l) = LOG_BUFFER_SIZE \<and> log_index l < LOG_BUFFER_SIZE \<and>
     list_all (\<lambda>s. length s < LOG_LINE_MAX_LEN) (log_buffer l)"

definition chronological :: "log_state \<Rightarrow> string list" where
  "chronological l = drop (log_index l) (log_buffer l) @ take (log_index l) (log_buffer l)"

lemma log_wf_init [simp]: "log_wf log_init"
  by (simp add: log_wf_def log_init_def LOG_BUFFER_SIZE_def LOG_LINE_MAX_LEN_def list_all_length)

lemma log_wf_put_line [simp, inv_intros]: "log_wf l \<Longrightarrow> log_wf (put_line r l)"
  by (auto simp: log_wf_def put_line_def LOG_BUFFER_SIZE_def LOG_LINE_MAX_LEN_def
      intro!: list_all_update)

lemma chronological_put_line:
  assumes "log_wf l"
  shows "chronological (put_line r l) = tl (chronological l) @ [take (LOG_LINE_MAX_LEN - 1) r]"
proof -
  let ?i = "log_index l" and ?b = "log_buffer l" and ?t = "take (LOG_LINE_MAX_LEN - 1) r"
  from assms have i: "?i < 100" and len: "length ?b = 100"
    by (auto simp: log_wf_def LOG_BUFFER_SIZE_def)
  have "drop ?i ?b = ?b ! ?i # drop (Suc ?i) ?b"
    using i len by (simp add: Cons_nth_drop_Suc)
  moreover have "chronological (put_line r l) = drop (Suc ?i) ?b @ take ?i ?b @ [?t]"
  proof (cases "?i = 99")
    case True
    then show ?thesis using len
      by (simp add: chronological_def put_line_def LOG_BUFFER_SIZE_def take_Suc_conv_app_nth
          list_eq_iff_nth_eq nth_append nth_list_update)
  next
    case False
    then have "Suc ?i < 100" using i by simp
    then show ?thesis using len i
      by (simp add: chronological_def put_line_def LOG_BUFFER_SIZE_def take_Suc_conv_app_nth)
  qed
  ultimately show ?thesis by (simp add: chronological_def)
qed

lemma length_chronological: "log_wf l \<Longrightarrow> length (chronological l) = LOG_BUFFER_SIZE"
  by (simp add: chronological_def log_wf_def)

interpretation ring: sliding_window put_line chronological "take (LOG_LINE_MAX_LEN - 1)"
    log_wf LOG_BUFFER_SIZE
  by unfold_locales
    (auto simp: chronological_put_line length_chronological LOG_BUFFER_SIZE_def)

text \<open>The web handler shows exactly the non-empty lines of the window, in order.\<close>

lemma nth_chronological:
  assumes "log_wf l" and "i < LOG_BUFFER_SIZE"
  shows "log_buffer l ! ((log_index l + i) mod LOG_BUFFER_SIZE) = chronological l ! i"
proof -
  from assms have len: "length (log_buffer l) = 100" and idx: "log_index l < 100" and i: "i < 100"
    by (auto simp: log_wf_def LOG_BUFFER_SIZE_def)
  show ?thesis
  proof (cases "log_index l + i < 100")
    case True
    then have "i < 100 - log_index l" by simp
    then show ?thesis using True len idx
      by (simp add: chronological_def LOG_BUFFER_SIZE_def nth_append)
  next
    case False
    then have "(log_index l + i) mod 100 = log_index l + i - 100"
      using idx i by (simp add: mod_if)
    moreover have "\<not> i < 100 - log_index l" using False by linarith
    ultimately show ?thesis using False len idx i
      by (simp add: chronological_def LOG_BUFFER_SIZE_def nth_append add.commute)
  qed
qed

lemma concat_if_filter:
  "concat (map (\<lambda>s. if s = [] then [] else [g s]) xs) = map g (filter (\<lambda>s. s \<noteq> []) xs)"
  by (induction xs) auto

lemma logs_data_handler_window:
  assumes "log_wf l"
  shows "logs_data_handler l = map (\<lambda>s. s @ [newline]) (filter (\<lambda>s. s \<noteq> []) (chronological l))"
proof -
  let ?chunk = "\<lambda>s. if s = [] then [] else [s @ [newline]]"
  have short: "length s < LOG_LINE_MAX_LEN" if "s \<in> set (chronological l)" for s
    using assms that unfolding log_wf_def chronological_def list_all_iff
    by (auto dest: in_set_takeD in_set_dropD)
  have chunk: "(let idx = (log_index l + i) mod LOG_BUFFER_SIZE; text = log_buffer l ! idx
      in if 0 < length text then [take (LOG_LINE_MAX_LEN + 10 - 1) (text @ [newline])] else [])
      = ?chunk (chronological l ! i)" if "i < LOG_BUFFER_SIZE" for i
  proof -
    have "length (chronological l ! i) < LOG_LINE_MAX_LEN"
      using that short length_chronological [OF assms] by simp
    then show ?thesis by (simp add: Let_def nth_chronological [OF assms that])
  qed
  have "logs_data_handler l = concat (map (\<lambda>i. ?chunk (chronological l ! i)) [0..<LOG_BUFFER_SIZE])"
    unfolding logs_data_handler_def
    by (intro arg_cong [where f = concat] map_cong refl chunk) simp
  also have "\<dots> = concat (map ?chunk (chronological l))"
    by (metis (no_types, lifting) length_chronological [OF assms] map_map map_nth comp_def map_cong)
  also have "\<dots> = map (\<lambda>s. s @ [newline]) (filter (\<lambda>s. s \<noteq> []) (chronological l))"
    by (rule concat_if_filter)
  finally show ?thesis .
qed

section \<open>Logging with a known result\<close>

lemma add_log_line_plain:
  "percent \<notin> set f \<Longrightarrow> add_log_line f args l = Inr (put_line f l)"
  by (simp add: add_log_line_def c_format_plain)

lemma add_log_line_Inr [cres_simps]:
  "add_log_line f args l = Inr l' \<longleftrightarrow> (\<exists>r. c_format f args = Inr r \<and> l' = put_line r l)"
  by (auto simp: add_log_line_def cres_simps)

lemma add_log_line_wf [inv_intros]: "add_log_line f args l = Inr l' \<Longrightarrow> log_wf l \<Longrightarrow> log_wf l'"
  by (auto simp: cres_simps)

end
