(* ===== verification/Nvs.thy ===== *)
theory Nvs
  imports Log_Buffer
begin

text \<open>
  The non-volatile storage the firmware keeps its settings in, and the platform state every
  component threads through: the log ring and the flash.

  NVS is a library of the vendor, not code of this repository, so it is a parameter: a
  record \<open>'f nvs_api\<close> of the calls the source makes, over a type \<open>'f\<close> of flash states
  nothing is known about. \<open>nvs_set\<close> stands for the family \<open>nvs_set_u8\<close>, ..., \<open>nvs_set_str\<close>,
  \<open>nvs_set_blob\<close> (the constructor of the value tells which), \<open>nvs_get\<close> for the family of
  reads into a buffer of the given capacity, \<open>nvs_len\<close> for a read with a null buffer. A
  failing read leaves the buffer of the caller alone. \<open>nvs_reset\<close> is what a restart of the
  chip leaves of the flash.

  What the documentation of NVS promises is the locale \<open>nvs_flash\<close>: \<open>view\<close> is what a read
  sees, \<open>disk\<close> what survives a restart; a write reaches \<open>view\<close> at once and \<open>disk\<close> when it
  is committed (and possibly before). \<open>nvs_reliable\<close> adds that calls with valid arguments
  succeed. Both are used as hypotheses; \<open>ram_flash\<close> at the end is a flash that meets them,
  which keeps every write back until it is committed.
\<close>

section \<open>Calls and values\<close>

datatype esp_err =
    ESP_OK
  | ESP_FAIL
  | ESP_ERR_NO_MEM
  | ESP_ERR_INVALID_ARG
  | ESP_ERR_NOT_FOUND
  | ESP_ERR_NVS_NOT_FOUND
  | ESP_ERR_NVS_TYPE_MISMATCH
  | ESP_ERR_NVS_INVALID_LENGTH
  | ESP_ERR_NVS_INVALID_HANDLE
  | ESP_ERR_NVS_READ_ONLY
  | ESP_ERR_NVS_VALUE_TOO_LONG
  | ESP_ERR_NVS_NO_FREE_PAGES
  | ESP_ERR_NVS_NEW_VERSION_FOUND
  | ESP_ERR_CODE nat    \<comment> \<open>any other code\<close>

datatype nvs_mode = NVS_READONLY | NVS_READWRITE

datatype nvs_type =
    NVS_TYPE_I8 | NVS_TYPE_U8 | NVS_TYPE_U16 | NVS_TYPE_I16 | NVS_TYPE_U32 | NVS_TYPE_I32
  | NVS_TYPE_U64 | NVS_TYPE_I64 | NVS_TYPE_STR | NVS_TYPE_BLOB | NVS_TYPE_ANY

datatype nvs_value =
    NvI8 "8 word" | NvU8 "8 word" | NvU16 "16 word" | NvI16 "16 word"
  | NvU32 "32 word" | NvI32 "32 word" | NvU64 "64 word" | NvI64 "64 word"
  | NvStr string | NvBlob "byte list"

fun type_of_value :: "nvs_value \<Rightarrow> nvs_type" where
  "type_of_value (NvI8 _) = NVS_TYPE_I8"
| "type_of_value (NvU8 _) = NVS_TYPE_U8"
| "type_of_value (NvU16 _) = NVS_TYPE_U16"
| "type_of_value (NvI16 _) = NVS_TYPE_I16"
| "type_of_value (NvU32 _) = NVS_TYPE_U32"
| "type_of_value (NvI32 _) = NVS_TYPE_I32"
| "type_of_value (NvU64 _) = NVS_TYPE_U64"
| "type_of_value (NvI64 _) = NVS_TYPE_I64"
| "type_of_value (NvStr _) = NVS_TYPE_STR"
| "type_of_value (NvBlob _) = NVS_TYPE_BLOB"

text \<open>The bytes a value needs in the caller's buffer (a string with its NUL).\<close>

fun value_size :: "nvs_value \<Rightarrow> nat" where
  "value_size (NvStr s) = length s + 1"
| "value_size (NvBlob b) = length b"
| "value_size v = 0"

type_synonym nvs_handle = nat
type_synonym nvs_key = "string \<times> string"    \<comment> \<open>namespace and key\<close>

record 'f nvs_api =
  nvs_open :: "string \<Rightarrow> nvs_mode \<Rightarrow> 'f \<Rightarrow> esp_err \<times> nvs_handle \<times> 'f"
  nvs_close :: "nvs_handle \<Rightarrow> 'f \<Rightarrow> 'f"
  nvs_commit :: "nvs_handle \<Rightarrow> 'f \<Rightarrow> esp_err \<times> 'f"
  nvs_set :: "nvs_handle \<Rightarrow> string \<Rightarrow> nvs_value \<Rightarrow> 'f \<Rightarrow> esp_err \<times> 'f"
  nvs_get :: "nvs_handle \<Rightarrow> string \<Rightarrow> nvs_type \<Rightarrow> nat \<Rightarrow> 'f \<Rightarrow> esp_err + nvs_value"
  nvs_len :: "nvs_handle \<Rightarrow> string \<Rightarrow> nvs_type \<Rightarrow> 'f \<Rightarrow> esp_err + nat"
  nvs_erase_key :: "nvs_handle \<Rightarrow> string \<Rightarrow> 'f \<Rightarrow> esp_err \<times> 'f"
  nvs_erase_all :: "nvs_handle \<Rightarrow> 'f \<Rightarrow> esp_err \<times> 'f"
  nvs_reset :: "'f \<Rightarrow> 'f"

text \<open>\<open>PARAM_NAMESPACE\<close> of \<open>components/cmd_router/router_globals.h\<close>.\<close>

definition PARAM_NAMESPACE :: string where "PARAM_NAMESPACE = ''esp32_nat''"

section \<open>The documented behaviour\<close>

locale nvs_flash =
  fixes api :: "'f nvs_api"
    and view :: "'f \<Rightarrow> nvs_key \<Rightarrow> nvs_value option"
    and disk :: "'f \<Rightarrow> nvs_key \<Rightarrow> nvs_value option"
    and handles :: "'f \<Rightarrow> nvs_handle \<Rightarrow> (string \<times> nvs_mode) option"
  assumes open_ok: "nvs_open api ns md f = (ESP_OK, h, f') \<Longrightarrow>
      view f' = view f \<and> disk f' = disk f \<and> handles f h = None \<and>
      handles f' = (handles f)(h \<mapsto> (ns, md))"
    and open_err: "nvs_open api ns md f = (e, h, f') \<Longrightarrow> e \<noteq> ESP_OK \<Longrightarrow>
      view f' = view f \<and> disk f' = disk f \<and> handles f' = handles f"
    and close: "view (nvs_close api h f) = view f" "disk (nvs_close api h f) = disk f"
      "handles (nvs_close api h f) = (handles f)(h := None)"
    and set_ok: "handles f h = Some (ns, NVS_READWRITE) \<Longrightarrow> nvs_set api h k v f = (ESP_OK, f') \<Longrightarrow>
      view f' = (view f)((ns, k) \<mapsto> v) \<and> handles f' = handles f \<and>
      (disk f' = disk f \<or> disk f' = (disk f)((ns, k) \<mapsto> v))"
    and set_err: "nvs_set api h k v f = (e, f') \<Longrightarrow> e \<noteq> ESP_OK \<Longrightarrow>
      view f' = view f \<and> disk f' = disk f \<and> handles f' = handles f"
    and commit_ok: "handles f h = Some (ns, NVS_READWRITE) \<Longrightarrow> nvs_commit api h f = (ESP_OK, f') \<Longrightarrow>
      view f' = view f \<and> handles f' = handles f \<and>
      disk f' = (\<lambda>(n, k). if n = ns then view f (n, k) else disk f (n, k))"
    and commit_err: "nvs_commit api h f = (e, f') \<Longrightarrow> e \<noteq> ESP_OK \<Longrightarrow>
      view f' = view f \<and> handles f' = handles f"
    and get_sound: "handles f h = Some (ns, md) \<Longrightarrow> nvs_get api h k t cap f = Inr v \<Longrightarrow>
      view f (ns, k) = Some v \<and> type_of_value v = t \<and> value_size v \<le> cap"
    and get_complete: "handles f h = Some (ns, md) \<Longrightarrow> view f (ns, k) = Some v \<Longrightarrow>
      value_size v \<le> cap \<Longrightarrow> nvs_get api h k (type_of_value v) cap f = Inr v"
    and len_complete: "handles f h = Some (ns, md) \<Longrightarrow> view f (ns, k) = Some v \<Longrightarrow>
      nvs_len api h k (type_of_value v) f = Inr (value_size v)"
    and len_sound: "handles f h = Some (ns, md) \<Longrightarrow> nvs_len api h k t f = Inr n \<Longrightarrow>
      \<exists>v. view f (ns, k) = Some v \<and> type_of_value v = t \<and> value_size v = n"
    and len_err: "nvs_len api h k t f = Inl e \<Longrightarrow> e \<noteq> ESP_OK"
    and get_err: "nvs_get api h k t cap f = Inl e \<Longrightarrow> e \<noteq> ESP_OK"
    and reset: "view (nvs_reset api f) = disk f" "disk (nvs_reset api f) = disk f"
      "handles (nvs_reset api f) = Map.empty"

locale nvs_reliable = nvs_flash +
  assumes open_rw: "fst (nvs_open api ns NVS_READWRITE f) = ESP_OK"
    and open_ro: "view f (ns, k) \<noteq> None \<Longrightarrow> fst (nvs_open api ns NVS_READONLY f) = ESP_OK"
    and set_succeeds: "handles f h = Some (ns, NVS_READWRITE) \<Longrightarrow> fst (nvs_set api h k v f) = ESP_OK"
    and commit_succeeds: "handles f h = Some (ns, NVS_READWRITE) \<Longrightarrow> fst (nvs_commit api h f) = ESP_OK"
begin

lemma open_rwE:
  obtains h f' where "nvs_open api ns NVS_READWRITE f = (ESP_OK, h, f')"
    "view f' = view f" "disk f' = disk f" "handles f' = (handles f)(h \<mapsto> (ns, NVS_READWRITE))"
proof -
  obtain e h f' where o: "nvs_open api ns NVS_READWRITE f = (e, h, f')"
    by (cases "nvs_open api ns NVS_READWRITE f")
  with open_rw [of ns f] have "e = ESP_OK" by simp
  with o open_ok [of ns NVS_READWRITE f h f'] show thesis by (intro that [of h f']) auto
qed

lemma open_roE:
  assumes "view f (ns, k) \<noteq> None"
  obtains h f' where "nvs_open api ns NVS_READONLY f = (ESP_OK, h, f')"
    "view f' = view f" "disk f' = disk f" "handles f' = (handles f)(h \<mapsto> (ns, NVS_READONLY))"
proof -
  obtain e h f' where o: "nvs_open api ns NVS_READONLY f = (e, h, f')"
    by (cases "nvs_open api ns NVS_READONLY f")
  with open_ro [OF assms] have "e = ESP_OK" by simp
  with o open_ok [of ns NVS_READONLY f h f'] show thesis by (intro that [of h f']) auto
qed

lemma setE:
  assumes "handles f h = Some (ns, NVS_READWRITE)"
  obtains f' where "nvs_set api h k v f = (ESP_OK, f')"
    "view f' = (view f)((ns, k) \<mapsto> v)" "handles f' = handles f"
proof -
  obtain e f' where o: "nvs_set api h k v f = (e, f')" by (cases "nvs_set api h k v f")
  with set_succeeds [OF assms, of k v] have "e = ESP_OK" by simp
  with o set_ok [OF assms, of k v f'] show thesis by (intro that [of f']) auto
qed

lemma commitE:
  assumes "handles f h = Some (ns, NVS_READWRITE)"
  obtains f' where "nvs_commit api h f = (ESP_OK, f')" "view f' = view f" "handles f' = handles f"
    "\<forall>k. disk f' (ns, k) = view f (ns, k)"
proof -
  obtain e f' where o: "nvs_commit api h f = (e, f')" by (cases "nvs_commit api h f")
  with commit_succeeds [OF assms] have "e = ESP_OK" by simp
  with o commit_ok [OF assms, of f'] show thesis by (intro that [of f']) auto
qed

end

section \<open>A flash that meets it\<close>

text \<open>
  Contents are association lists, so that it runs. Every write stays in \<open>rview\<close> until a
  commit of its namespace copies it to \<open>rdisk\<close>; a namespace exists for a read-only open
  when it holds a key.
\<close>

record ram_flash =
  rview :: "(nvs_key \<times> nvs_value) list"
  rdisk :: "(nvs_key \<times> nvs_value) list"
  rhandles :: "(nvs_handle \<times> string \<times> nvs_mode) list"
  rnext :: nvs_handle

definition ram_empty :: ram_flash where
  "ram_empty = \<lparr>rview = [], rdisk = [], rhandles = [], rnext = 1\<rparr>"

definition ram_fresh :: "ram_flash \<Rightarrow> nvs_handle" where
  "ram_fresh f = Suc (fold max (map fst (rhandles f)) (rnext f))"

definition ram_open :: "string \<Rightarrow> nvs_mode \<Rightarrow> ram_flash \<Rightarrow> esp_err \<times> nvs_handle \<times> ram_flash" where
  "ram_open ns md f =
     (if md = NVS_READONLY \<and> \<not> list_ex (\<lambda>e. fst (fst e) = ns) (rview f)
      then (ESP_ERR_NVS_NOT_FOUND, 0, f)
      else (let h = ram_fresh f in (ESP_OK, h, f\<lparr>rhandles := (h, ns, md) # rhandles f, rnext := h\<rparr>)))"

definition ram_close :: "nvs_handle \<Rightarrow> ram_flash \<Rightarrow> ram_flash" where
  "ram_close h f = f\<lparr>rhandles := filter (\<lambda>e. fst e \<noteq> h) (rhandles f)\<rparr>"

definition ram_set :: "nvs_handle \<Rightarrow> string \<Rightarrow> nvs_value \<Rightarrow> ram_flash \<Rightarrow> esp_err \<times> ram_flash" where
  "ram_set h k v f = (case map_of (rhandles f) h of
       None \<Rightarrow> (ESP_ERR_NVS_INVALID_HANDLE, f)
     | Some (ns, md) \<Rightarrow>
         if md = NVS_READONLY then (ESP_ERR_NVS_READ_ONLY, f)
         else (ESP_OK, f\<lparr>rview := ((ns, k), v) # filter (\<lambda>e. fst e \<noteq> (ns, k)) (rview f)\<rparr>))"

definition ram_commit :: "nvs_handle \<Rightarrow> ram_flash \<Rightarrow> esp_err \<times> ram_flash" where
  "ram_commit h f = (case map_of (rhandles f) h of
       None \<Rightarrow> (ESP_ERR_NVS_INVALID_HANDLE, f)
     | Some (ns, md) \<Rightarrow>
         (ESP_OK, f\<lparr>rdisk := filter (\<lambda>e. fst (fst e) = ns) (rview f) @
            filter (\<lambda>e. fst (fst e) \<noteq> ns) (rdisk f)\<rparr>))"

definition ram_get :: "nvs_handle \<Rightarrow> string \<Rightarrow> nvs_type \<Rightarrow> nat \<Rightarrow> ram_flash \<Rightarrow> esp_err + nvs_value" where
  "ram_get h k t cap f = (case map_of (rhandles f) h of
       None \<Rightarrow> Inl ESP_ERR_NVS_INVALID_HANDLE
     | Some (ns, md) \<Rightarrow> (case map_of (rview f) (ns, k) of
           None \<Rightarrow> Inl ESP_ERR_NVS_NOT_FOUND
         | Some v \<Rightarrow>
             if type_of_value v \<noteq> t then Inl ESP_ERR_NVS_TYPE_MISMATCH
             else if cap < value_size v then Inl ESP_ERR_NVS_INVALID_LENGTH
             else Inr v))"

definition ram_len :: "nvs_handle \<Rightarrow> string \<Rightarrow> nvs_type \<Rightarrow> ram_flash \<Rightarrow> esp_err + nat" where
  "ram_len h k t f = (case map_of (rhandles f) h of
       None \<Rightarrow> Inl ESP_ERR_NVS_INVALID_HANDLE
     | Some (ns, md) \<Rightarrow> (case map_of (rview f) (ns, k) of
           None \<Rightarrow> Inl ESP_ERR_NVS_NOT_FOUND
         | Some v \<Rightarrow> if type_of_value v \<noteq> t then Inl ESP_ERR_NVS_TYPE_MISMATCH
                     else Inr (value_size v)))"

definition ram_erase :: "(nvs_key \<Rightarrow> string \<Rightarrow> bool) \<Rightarrow> nvs_handle \<Rightarrow> ram_flash \<Rightarrow> esp_err \<times> ram_flash" where
  "ram_erase hit h f = (case map_of (rhandles f) h of
       None \<Rightarrow> (ESP_ERR_NVS_INVALID_HANDLE, f)
     | Some (ns, md) \<Rightarrow>
         if md = NVS_READONLY then (ESP_ERR_NVS_READ_ONLY, f)
         else (ESP_OK, f\<lparr>rview := filter (\<lambda>e. \<not> hit (fst e) ns) (rview f)\<rparr>))"

definition ram_api :: "ram_flash nvs_api" where
  "ram_api = \<lparr>nvs_open = ram_open, nvs_close = ram_close, nvs_commit = ram_commit,
     nvs_set = ram_set, nvs_get = ram_get, nvs_len = ram_len,
     nvs_erase_key = (\<lambda>h k. ram_erase (\<lambda>key ns. key = (ns, k)) h),
     nvs_erase_all = ram_erase (\<lambda>key ns. fst key = ns),
     nvs_reset = (\<lambda>f. f\<lparr>rview := rdisk f, rhandles := []\<rparr>)\<rparr>"

lemmas ram_simps = ram_api_def ram_open_def ram_close_def ram_commit_def ram_set_def ram_get_def
  ram_len_def ram_erase_def ram_fresh_def ram_empty_def

lemma fold_max_ge: "n \<le> fold max xs n \<and> (\<forall>x \<in> set xs. x \<le> fold max xs (n::nat))"
proof (induction xs arbitrary: n)
  case (Cons a xs)
  have "a \<le> fold max xs (max a n)" "n \<le> fold max xs (max a n)"
    using Cons.IH [of "max a n"] by auto
  then show ?case using Cons.IH [of "max a n"] by simp
qed simp

lemma ram_fresh_None: "map_of (rhandles f) (ram_fresh f) = None"
proof -
  have "ram_fresh f \<notin> fst ` set (rhandles f)"
    using fold_max_ge [of "rnext f" "map fst (rhandles f)"] by (fastforce simp: ram_fresh_def)
  then show ?thesis by (simp add: map_of_eq_None_iff)
qed

lemma map_of_filter_ne:
  "map_of (filter (\<lambda>e. fst e \<noteq> k') xs) k = (if k = k' then None else map_of xs k)"
  by (induction xs) auto

lemma map_of_filter_ns:
  "map_of (filter (\<lambda>e. fst (fst e) = ns) xs) (n, k) = (if n = ns then map_of xs (n, k) else None)"
  "map_of (filter (\<lambda>e. fst (fst e) \<noteq> ns) xs) (n, k) = (if n = ns then None else map_of xs (n, k))"
  by (induction xs) auto

lemma map_of_ns_exists:
  "map_of xs (ns, k) = Some v \<Longrightarrow> list_ex (\<lambda>e. fst (fst e) = ns) xs"
  by (force simp: list_ex_iff dest: map_of_SomeD)

interpretation ram: nvs_reliable ram_api "\<lambda>f. map_of (rview f)" "\<lambda>f. map_of (rdisk f)"
    "\<lambda>f. map_of (rhandles f)"
proof unfold_locales
  fix ns md f h f' assume "nvs_open ram_api ns md f = (ESP_OK, h, f')"
  then show "map_of (rview f') = map_of (rview f) \<and> map_of (rdisk f') = map_of (rdisk f) \<and>
      map_of (rhandles f) h = None \<and> map_of (rhandles f') = (map_of (rhandles f))(h \<mapsto> (ns, md))"
    by (auto simp: ram_api_def ram_open_def Let_def ram_fresh_None split: if_splits)
qed (auto simp: ram_api_def ram_open_def ram_close_def ram_set_def ram_commit_def ram_get_def ram_len_def
    Let_def map_of_filter_ne map_of_filter_ns map_of_ns_exists fun_eq_iff map_add_def split: if_splits option.splits)

section \<open>The platform state\<close>

record 'f plat =
  plog :: log_state
  pflash :: 'f

text \<open>An empty log over an empty flash, the platform of the concrete runs.\<close>

definition plat0 :: "ram_flash plat" where
  "plat0 = \<lparr>plog = log_init, pflash = ram_empty\<rparr>"

definition plat_log :: "string \<Rightarrow> varg list \<Rightarrow> 'f plat \<Rightarrow> 'f plat cres" where
  "plat_log format args p = bindE (add_log_line format args (plog p)) (\<lambda>l. Inr (p\<lparr>plog := l\<rparr>))"

lemma plat_log_plain [simp]:
  "percent \<notin> set f \<Longrightarrow> plat_log f args p = Inr (p\<lparr>plog := put_line f (plog p)\<rparr>)"
  by (simp add: plat_log_def add_log_line_plain)

lemma plat_log_Inr:
  "plat_log f args p = Inr p' \<Longrightarrow> pflash p' = pflash p \<and> (log_wf (plog p) \<longrightarrow> log_wf (plog p'))"
  by (auto simp: plat_log_def cres_simps)

end
