(* ===== verification/Service_Filter.thy ===== *)
theory Service_Filter
  imports Nvs
begin

text \<open>
  The port filter (\<open>main/service_filter.c\<close>, \<open>main/service_filter.h\<close>): sixteen built-in
  services and up to twenty custom port rules, saved to and loaded from NVS.

  Each C function is one definition over the component's globals (\<open>service_filter\<close>) and
  the platform state; \<open>ESP_LOGx\<close> output to the serial console is not state and is left out.
  The blob of custom rules is the memory image of the array: 30 bytes per rule, a 24-byte
  name, the port (little endian), protocol, blocked flag, active flag and a padding byte,
  which stays 0 because \<open>init_service_filter\<close> clears the array before any use.
\<close>

section \<open>Data\<close>

definition MAX_CUSTOM_PORT_RULES :: nat where "MAX_CUSTOM_PORT_RULES = 20"
definition MAX_SERVICE_NAME_LEN :: nat where "MAX_SERVICE_NAME_LEN = 24"

definition SVC_PROTO_TCP :: byte where "SVC_PROTO_TCP = 6"
definition SVC_PROTO_UDP :: byte where "SVC_PROTO_UDP = 17"
definition SVC_PROTO_BOTH :: byte where "SVC_PROTO_BOTH = 0"

lemmas svc_protos = SVC_PROTO_TCP_def SVC_PROTO_UDP_def SVC_PROTO_BOTH_def

datatype service_id =
    SVC_HTTP | SVC_HTTPS | SVC_DNS | SVC_SSH | SVC_FTP | SVC_FTP_DATA | SVC_SMTP | SVC_SMTPS
  | SVC_POP3 | SVC_IMAP | SVC_IMAPS | SVC_RDP | SVC_NTP | SVC_TELNET | SVC_MQTT | SVC_MQTTS
  | SVC_BUILTIN_COUNT

definition service_ids :: "service_id list" where
  "service_ids = [SVC_HTTP, SVC_HTTPS, SVC_DNS, SVC_SSH, SVC_FTP, SVC_FTP_DATA, SVC_SMTP, SVC_SMTPS,
     SVC_POP3, SVC_IMAP, SVC_IMAPS, SVC_RDP, SVC_NTP, SVC_TELNET, SVC_MQTT, SVC_MQTTS]"

fun service_index :: "service_id \<Rightarrow> nat" where
  "service_index SVC_HTTP = 0"
| "service_index SVC_HTTPS = 1"
| "service_index SVC_DNS = 2"
| "service_index SVC_SSH = 3"
| "service_index SVC_FTP = 4"
| "service_index SVC_FTP_DATA = 5"
| "service_index SVC_SMTP = 6"
| "service_index SVC_SMTPS = 7"
| "service_index SVC_POP3 = 8"
| "service_index SVC_IMAP = 9"
| "service_index SVC_IMAPS = 10"
| "service_index SVC_RDP = 11"
| "service_index SVC_NTP = 12"
| "service_index SVC_TELNET = 13"
| "service_index SVC_MQTT = 14"
| "service_index SVC_MQTTS = 15"
| "service_index SVC_BUILTIN_COUNT = 16"

abbreviation BUILTIN_COUNT :: nat where "BUILTIN_COUNT \<equiv> 16"

record service_rule =
  sr_name :: string
  sr_port :: u16
  sr_proto :: byte
  sr_blocked :: bool
  sr_active :: bool

record custom_port_rule =
  cr_name :: string
  cr_port :: u16
  cr_proto :: byte
  cr_blocked :: bool
  cr_active :: bool

record service_filter =
  g_services :: "service_rule list"
  g_custom_rules :: "custom_port_rule list"
  g_custom_rule_count :: nat

definition builtin :: "string \<Rightarrow> u16 \<Rightarrow> byte \<Rightarrow> service_rule" where
  "builtin nm port proto = \<lparr>sr_name = strncpy_z MAX_SERVICE_NAME_LEN nm, sr_port = port,
     sr_proto = proto, sr_blocked = False, sr_active = True\<rparr>"

text \<open>The initialiser of \<open>g_services\<close>.\<close>

definition builtin_services :: "service_rule list" where
  "builtin_services =
    [builtin ''HTTP'' 80 SVC_PROTO_TCP,
     builtin ''HTTPS'' 443 SVC_PROTO_TCP,
     builtin ''DNS'' 53 SVC_PROTO_UDP,
     builtin ''SSH'' 22 SVC_PROTO_TCP,
     builtin ''FTP'' 21 SVC_PROTO_TCP,
     builtin ''FTP-DATA'' 20 SVC_PROTO_TCP,
     builtin ''SMTP'' 25 SVC_PROTO_TCP,
     builtin ''SMTPS'' 465 SVC_PROTO_TCP,
     builtin ''POP3'' 110 SVC_PROTO_TCP,
     builtin ''IMAP'' 143 SVC_PROTO_TCP,
     builtin ''IMAPS'' 993 SVC_PROTO_TCP,
     builtin ''RDP'' 3389 SVC_PROTO_TCP,
     builtin ''NTP'' 123 SVC_PROTO_UDP,
     builtin ''TELNET'' 23 SVC_PROTO_TCP,
     builtin ''MQTT'' 1883 SVC_PROTO_TCP,
     builtin ''MQTTS'' 8883 SVC_PROTO_TCP]"

text \<open>An all-zero array element, as \<open>memset\<close> leaves it.\<close>

definition zero_rule :: custom_port_rule where
  "zero_rule = \<lparr>cr_name = replicate MAX_SERVICE_NAME_LEN NUL, cr_port = 0, cr_proto = 0,
     cr_blocked = False, cr_active = False\<rparr>"

text \<open>The globals as the program starts with them.\<close>

definition service_boot :: service_filter where
  "service_boot = \<lparr>g_services = builtin_services,
     g_custom_rules = replicate MAX_CUSTOM_PORT_RULES zero_rule, g_custom_rule_count = 0\<rparr>"

section \<open>Helpers\<close>

definition proto_matches :: "byte \<Rightarrow> byte \<Rightarrow> bool" where
  "proto_matches rule_proto pkt_proto =
     (if rule_proto = SVC_PROTO_BOTH then True else rule_proto = pkt_proto)"

definition to_upper :: "string \<Rightarrow> nat \<Rightarrow> string" where
  "to_upper src mx = map c_toupper (take (mx - 1) (cstr src))"

section \<open>Saving and loading\<close>

definition svc_mask :: "service_rule list \<Rightarrow> u32" where
  "svc_mask gs = fold (\<lambda>i bits. if sr_blocked (gs ! i) then or bits (push_bit i 1) else bits)
     [0..<BUILTIN_COUNT] 0"

definition apply_mask :: "u32 \<Rightarrow> service_rule list \<Rightarrow> service_rule list" where
  "apply_mask bits gs = map (\<lambda>i. (gs ! i)\<lparr>sr_blocked := (and (drop_bit i bits) 1 \<noteq> 0)\<rparr>)
     [0..<BUILTIN_COUNT]"

definition RULE_SIZE :: nat where "RULE_SIZE = 30"

definition rule_bytes :: "custom_port_rule \<Rightarrow> byte list" where
  "rule_bytes r = map byte_of_char (cr_name r) @ le16 (cr_port r) @
     [cr_proto r, byte_of_bool (cr_blocked r), byte_of_bool (cr_active r), 0]"

definition rule_of_bytes :: "byte list \<Rightarrow> custom_port_rule" where
  "rule_of_bytes b = \<lparr>cr_name = map char_of_byte (take 24 b), cr_port = u16_of (b ! 24) (b ! 25),
     cr_proto = b ! 26, cr_blocked = (b ! 27 \<noteq> 0), cr_active = (b ! 28 \<noteq> 0)\<rparr>"

definition rules_bytes :: "custom_port_rule list \<Rightarrow> byte list" where
  "rules_bytes rs = concat (map rule_bytes rs)"

definition rules_of_bytes :: "byte list \<Rightarrow> custom_port_rule list" where
  "rules_of_bytes b = decode_array RULE_SIZE rule_of_bytes MAX_CUSTOM_PORT_RULES b"

definition NVS_KEY_SVC_BLOCKED :: string where "NVS_KEY_SVC_BLOCKED = ''svc_blocked''"
definition NVS_KEY_CUSTOM_RULES :: string where "NVS_KEY_CUSTOM_RULES = ''svc_custom''"

definition save_service_rules :: "'f nvs_api \<Rightarrow> service_filter \<Rightarrow> 'f plat \<Rightarrow> 'f plat cres" where
  "save_service_rules api s p =
     (case nvs_open api PARAM_NAMESPACE NVS_READWRITE (pflash p) of (err, nvs, f1) \<Rightarrow>
        if err \<noteq> ESP_OK then Inr (p\<lparr>pflash := f1\<rparr>)
        else
          let bits = svc_mask (g_services s);
              f2 = snd (nvs_set api nvs NVS_KEY_SVC_BLOCKED (NvU32 bits) f1);
              f3 = snd (nvs_set api nvs NVS_KEY_CUSTOM_RULES (NvBlob (rules_bytes (g_custom_rules s))) f2);
              f4 = snd (nvs_commit api nvs f3);
              f5 = nvs_close api nvs f4
          in plat_log ''Service rules saved'' [] (p\<lparr>pflash := f5\<rparr>))"

definition load_service_rules :: "'f nvs_api \<Rightarrow> service_filter \<Rightarrow> 'f plat \<Rightarrow> service_filter \<times> 'f plat" where
  "load_service_rules api s p =
     (case nvs_open api PARAM_NAMESPACE NVS_READONLY (pflash p) of (err, nvs, f1) \<Rightarrow>
        if err \<noteq> ESP_OK then (s, p\<lparr>pflash := f1\<rparr>)
        else
          let s1 = (case nvs_get api nvs NVS_KEY_SVC_BLOCKED NVS_TYPE_U32 0 f1 of
                      Inr (NvU32 bits) \<Rightarrow> s\<lparr>g_services := apply_mask bits (g_services s)\<rparr>
                    | _ \<Rightarrow> s);
              len = RULE_SIZE * MAX_CUSTOM_PORT_RULES;
              s2 = (case nvs_get api nvs NVS_KEY_CUSTOM_RULES NVS_TYPE_BLOB len f1 of
                      Inr (NvBlob b) \<Rightarrow>
                        (let rs = rules_of_bytes (overlay b (rules_bytes (g_custom_rules s1)))
                         in s1\<lparr>g_custom_rules := rs,
                               g_custom_rule_count := scan_down cr_active rs MAX_CUSTOM_PORT_RULES\<rparr>)
                    | _ \<Rightarrow> s1)
          in (s2, p\<lparr>pflash := nvs_close api nvs f1\<rparr>))"

definition init_service_filter :: "'f nvs_api \<Rightarrow> service_filter \<Rightarrow> 'f plat \<Rightarrow> (service_filter \<times> 'f plat) cres" where
  "init_service_filter api s p =
     (let s0 = s\<lparr>g_custom_rules := replicate MAX_CUSTOM_PORT_RULES zero_rule, g_custom_rule_count := 0\<rparr>;
          (s1, p1) = load_service_rules api s0 p
      in bindE (plat_log ''Service filter initialised (%d built-ins)'' [VInt (int BUILTIN_COUNT)] p1)
           (\<lambda>p2. Inr (s1, p2)))"

section \<open>Operations\<close>

definition service_set_blocked ::
    "'f nvs_api \<Rightarrow> service_id \<Rightarrow> bool \<Rightarrow> service_filter \<Rightarrow> 'f plat \<Rightarrow> (service_filter \<times> 'f plat) cres" where
  "service_set_blocked api sid blocked s p =
     (if BUILTIN_COUNT \<le> service_index sid then Inr (s, p)
      else
        let i = service_index sid;
            s1 = s\<lparr>g_services := (g_services s)[i := (g_services s ! i)\<lparr>sr_blocked := blocked\<rparr>]\<rparr>
        in bindE (save_service_rules api s1 p) (\<lambda>p1.
           bindE (plat_log ''Service %s: %s'' [VStr (cstr (sr_name (g_services s1 ! i))),
                    VStr (if blocked then ''BLOCKED'' else ''ALLOWED'')] p1) (\<lambda>p2.
           Inr (s1, p2))))"

definition service_find_by_name :: "string option \<Rightarrow> service_filter \<Rightarrow> service_id" where
  "service_find_by_name name s = (case name of
       None \<Rightarrow> SVC_BUILTIN_COUNT
     | Some nm \<Rightarrow>
         let up_in = to_upper nm MAX_SERVICE_NAME_LEN
         in (case first_idx (\<lambda>r. up_in = to_upper (sr_name r) MAX_SERVICE_NAME_LEN)
                 (take BUILTIN_COUNT (g_services s)) of
               None \<Rightarrow> SVC_BUILTIN_COUNT
             | Some i \<Rightarrow> service_ids ! i))"

text \<open>The rule \<open>r\<close> is taken for the same rule as a request for \<open>port\<close> and \<open>proto\<close>.\<close>

definition same_rule :: "u16 \<Rightarrow> byte \<Rightarrow> custom_port_rule \<Rightarrow> bool" where
  "same_rule port proto r \<longleftrightarrow> cr_active r \<and> cr_port r = port \<and>
     (cr_proto r = proto \<or> proto = SVC_PROTO_BOTH \<or> cr_proto r = SVC_PROTO_BOTH)"

definition service_add_custom ::
    "'f nvs_api \<Rightarrow> string option \<Rightarrow> u16 \<Rightarrow> byte \<Rightarrow> bool \<Rightarrow> service_filter \<Rightarrow> 'f plat \<Rightarrow>
     (bool \<times> service_filter \<times> 'f plat) cres" where
  "service_add_custom api name port proto blocked s p = (case name of
       None \<Rightarrow> Inr (False, s, p)
     | Some nm \<Rightarrow>
         if port = 0 then Inr (False, s, p)
         else (case first_idx (same_rule port proto) (take MAX_CUSTOM_PORT_RULES (g_custom_rules s)) of
           Some i \<Rightarrow>
             let r = (g_custom_rules s ! i)\<lparr>cr_blocked := blocked, cr_proto := proto,
                       cr_name := strncpy_z MAX_SERVICE_NAME_LEN nm\<rparr>;
                 s1 = s\<lparr>g_custom_rules := (g_custom_rules s)[i := r]\<rparr>
             in bindE (save_service_rules api s1 p) (\<lambda>p1. Inr (True, s1, p1))
         | None \<Rightarrow>
             (case first_idx (\<lambda>r. \<not> cr_active r) (take MAX_CUSTOM_PORT_RULES (g_custom_rules s)) of
               Some i \<Rightarrow>
                 let r = (g_custom_rules s ! i)\<lparr>cr_name := strncpy_z MAX_SERVICE_NAME_LEN nm,
                           cr_port := port, cr_proto := proto, cr_blocked := blocked,
                           cr_active := True\<rparr>;
                     s1 = s\<lparr>g_custom_rules := (g_custom_rules s)[i := r],
                            g_custom_rule_count :=
                              (if i + 1 > g_custom_rule_count s then i + 1 else g_custom_rule_count s)\<rparr>
                 in bindE (save_service_rules api s1 p) (\<lambda>p1.
                    bindE (plat_log ''Custom port rule added: %s port=%u''
                             [VStr nm, VInt (uint port)] p1) (\<lambda>p2.
                    Inr (True, s1, p2)))
             | None \<Rightarrow> Inr (False, s, p))))"

definition service_remove_custom ::
    "'f nvs_api \<Rightarrow> u16 \<Rightarrow> byte \<Rightarrow> service_filter \<Rightarrow> 'f plat \<Rightarrow> (bool \<times> service_filter \<times> 'f plat) cres" where
  "service_remove_custom api port proto s p =
     (case first_idx (same_rule port proto) (take MAX_CUSTOM_PORT_RULES (g_custom_rules s)) of
       Some i \<Rightarrow>
         bindE (plat_log ''Custom port rule removed: %s port=%u''
                  [VStr (cstr (cr_name (g_custom_rules s ! i))), VInt (uint port)] p) (\<lambda>p1.
         let rs = (g_custom_rules s)[i := zero_rule];
             s1 = s\<lparr>g_custom_rules := rs,
                    g_custom_rule_count := scan_down cr_active rs MAX_CUSTOM_PORT_RULES\<rparr>
         in bindE (save_service_rules api s1 p1) (\<lambda>p2. Inr (True, s1, p2)))
     | None \<Rightarrow> Inr (False, s, p))"

definition service_is_port_allowed :: "byte \<Rightarrow> u16 \<Rightarrow> service_filter \<Rightarrow> bool" where
  "service_is_port_allowed proto dst_port s =
     (case first_idx (\<lambda>r. cr_active r \<and> cr_port r = dst_port \<and> proto_matches (cr_proto r) proto)
             (take (g_custom_rule_count s) (g_custom_rules s)) of
       Some i \<Rightarrow> \<not> cr_blocked (g_custom_rules s ! i)
     | None \<Rightarrow>
         (case first_idx (\<lambda>r. sr_active r \<and> sr_port r = dst_port \<and> proto_matches (sr_proto r) proto)
                 (take BUILTIN_COUNT (g_services s)) of
           Some i \<Rightarrow> \<not> sr_blocked (g_services s ! i)
         | None \<Rightarrow> True))"

end
