(* ===== verification/Service_Laws.thy ===== *)
theory Service_Laws
  imports Service_Filter
begin

text \<open>
  What the port filter guarantees: the well-formedness of its tables and that every
  operation keeps it, the decision after a rule was added or removed, the names of the
  built-in services, and that a restart brings the saved rules back.
\<close>

section \<open>Well-formedness\<close>

definition rule_wf :: "custom_port_rule \<Rightarrow> bool" where
  "rule_wf r \<longleftrightarrow> length (cr_name r) = MAX_SERVICE_NAME_LEN \<and> terminated (cr_name r)"

text \<open>
  The built-in table changes in its blocked flags only; the count is one more than the
  highest active custom rule.
\<close>

definition sf_wf :: "service_filter \<Rightarrow> bool" where
  "sf_wf s \<longleftrightarrow> map (sr_blocked_update (\<lambda>_. False)) (g_services s) = builtin_services \<and>
     length (g_custom_rules s) = MAX_CUSTOM_PORT_RULES \<and> list_all rule_wf (g_custom_rules s) \<and>
     g_custom_rule_count s = scan_down cr_active (g_custom_rules s) MAX_CUSTOM_PORT_RULES"

lemma rule_wf_zero [simp]: "rule_wf zero_rule"
  by (auto simp: rule_wf_def zero_rule_def terminated_def MAX_SERVICE_NAME_LEN_def)

lemma rule_wf_named [simp]: "cr_name r = strncpy_z MAX_SERVICE_NAME_LEN nm \<Longrightarrow> rule_wf r"
  by (simp add: rule_wf_def terminated_strncpy_z MAX_SERVICE_NAME_LEN_def)

lemma scan_down_none: "(\<And>i. i < n \<Longrightarrow> \<not> P (xs ! i)) \<Longrightarrow> scan_down P xs n = 0"
  by (rule scan_down_unique) auto

lemma length_builtin_services [simp]: "length builtin_services = BUILTIN_COUNT"
  by (simp add: builtin_services_def)

lemma unblock_builtin [simp]:
  "map (sr_blocked_update (\<lambda>_. False)) builtin_services = builtin_services"
  by (simp add: builtin_services_def builtin_def)

lemma scan_down_zero_rules:
  "scan_down cr_active (replicate MAX_CUSTOM_PORT_RULES zero_rule) MAX_CUSTOM_PORT_RULES = 0"
  by (rule scan_down_none) (simp add: zero_rule_def)

lemma sf_wf_boot: "sf_wf service_boot"
  by (simp add: sf_wf_def service_boot_def list_all_length scan_down_zero_rules)

lemma sf_wf_services: "sf_wf s \<Longrightarrow> length (g_services s) = BUILTIN_COUNT"
  unfolding sf_wf_def by (metis length_builtin_services length_map)

lemma sf_wf_rules: "sf_wf s \<Longrightarrow> length (g_custom_rules s) = MAX_CUSTOM_PORT_RULES"
  by (simp add: sf_wf_def)

lemma sf_wf_service:
  assumes "sf_wf s" and "i < BUILTIN_COUNT"
  shows "(g_services s ! i)\<lparr>sr_blocked := False\<rparr> = builtin_services ! i"
  using assms sf_wf_services [OF assms(1)] unfolding sf_wf_def by (metis nth_map)

text \<open>Changing the rules and recounting them keeps the invariant; so does blocking a service.\<close>

lemma sf_wf_set_rule:
  assumes "sf_wf s" and "rule_wf r"
  shows "sf_wf (s\<lparr>g_custom_rules := (g_custom_rules s)[i := r],
     g_custom_rule_count := scan_down cr_active ((g_custom_rules s)[i := r]) MAX_CUSTOM_PORT_RULES\<rparr>)"
  using assms by (simp add: sf_wf_def list_all_update)

lemma sf_wf_set_blocked:
  assumes "sf_wf s"
  shows "sf_wf (s\<lparr>g_services := (g_services s)[i := (g_services s ! i)\<lparr>sr_blocked := b\<rparr>]\<rparr>)"
proof -
  let ?u = "sr_blocked_update (\<lambda>_. False)"
  have "map ?u ((g_services s)[i := (g_services s ! i)\<lparr>sr_blocked := b\<rparr>]) = map ?u (g_services s)"
  proof (rule nth_equalityI)
    fix j assume "j < length (map ?u ((g_services s)[i := (g_services s ! i)\<lparr>sr_blocked := b\<rparr>]))"
    then show "map ?u ((g_services s)[i := (g_services s ! i)\<lparr>sr_blocked := b\<rparr>]) ! j =
        map ?u (g_services s) ! j"
      by (cases "j = i") simp_all
  qed simp
  then show ?thesis using assms by (simp add: sf_wf_def)
qed

lemma scan_down_keep:
  assumes "\<And>j. j < n \<Longrightarrow> P (ys ! j) = P (xs ! j)"
  shows "scan_down P ys n = scan_down P xs n"
  using assms by (rule scan_down_cong)

lemma scan_down_grow:
  assumes "i < n" and "n \<le> length xs" and "P y" and "\<not> P (xs ! i)"
  shows "scan_down P (xs[i := y]) n = max (i + 1) (scan_down P xs n)"
proof (rule scan_down_unique)
  show "max (i + 1) (scan_down P xs n) \<le> n"
    using assms(1) scan_down_le [of P xs n] by simp
next
  fix j assume "max (i + 1) (scan_down P xs n) \<le> j" "j < n"
  then show "\<not> P (xs[i := y] ! j)" using scan_down_above [of P xs n j] by simp
next
  fix k assume k: "max (i + 1) (scan_down P xs n) = Suc k"
  show "P (xs[i := y] ! k)"
  proof (cases "k = i")
    case True
    then show ?thesis using assms by simp
  next
    case False
    then have "scan_down P xs n = Suc k" using k by (auto simp: max_def split: if_splits)
    then show ?thesis using False scan_down_top [of P xs n k] by simp
  qed
qed

section \<open>Saving never fails silently into undefined behaviour\<close>

lemma save_service_rules_Inr:
  obtains p' where "save_service_rules api s p = Inr p'" and "log_wf (plog p) \<Longrightarrow> log_wf (plog p')"
proof (cases "nvs_open api PARAM_NAMESPACE NVS_READWRITE (pflash p)")
  case (fields err h f)
  then show thesis
    by (cases "err = ESP_OK") (auto simp: save_service_rules_def Let_def intro: that)
qed

lemma save_service_rules_wf [inv_intros]:
  "save_service_rules api s p = Inr p' \<Longrightarrow> log_wf (plog p) \<Longrightarrow> log_wf (plog p')"
  by (metis save_service_rules_Inr Inr_inject)

section \<open>The outcomes of each operation\<close>

lemma service_add_custom_cases:
  assumes "service_add_custom api name port proto b s p = Inr (True, s', p')" and "sf_wf s"
  obtains (update) nm i where "name = Some nm" "port \<noteq> 0"
      "first_idx (same_rule port proto) (g_custom_rules s) = Some i"
      "s' = s\<lparr>g_custom_rules := (g_custom_rules s)[i := (g_custom_rules s ! i)\<lparr>cr_blocked := b,
         cr_proto := proto, cr_name := strncpy_z MAX_SERVICE_NAME_LEN nm\<rparr>]\<rparr>"
  | (insert) nm i where "name = Some nm" "port \<noteq> 0"
      "first_idx (same_rule port proto) (g_custom_rules s) = None"
      "first_idx (\<lambda>r. \<not> cr_active r) (g_custom_rules s) = Some i"
      "s' = s\<lparr>g_custom_rules := (g_custom_rules s)[i := \<lparr>cr_name = strncpy_z MAX_SERVICE_NAME_LEN nm,
         cr_port = port, cr_proto = proto, cr_blocked = b, cr_active = True\<rparr>],
         g_custom_rule_count := max (i + 1) (g_custom_rule_count s)\<rparr>"
proof -
  have take: "take MAX_CUSTOM_PORT_RULES (g_custom_rules s) = g_custom_rules s"
    using sf_wf_rules [OF assms(2)] by simp
  have rec: "(r::custom_port_rule)\<lparr>cr_name := n, cr_port := q, cr_proto := t, cr_blocked := c,
      cr_active := a\<rparr> = \<lparr>cr_name = n, cr_port = q, cr_proto = t, cr_blocked = c, cr_active = a\<rparr>"
    for r n q t c a by simp
  from assms(1) obtain nm where nm: "name = Some nm" "port \<noteq> 0"
    by (auto simp: service_add_custom_def split: option.splits if_splits)
  show thesis
  proof (cases "first_idx (same_rule port proto) (g_custom_rules s)")
    case (Some i)
    with assms(1) nm take show thesis
      by (intro update [of nm i]) (auto simp: service_add_custom_def Let_def cres_simps)
  next
    case None
    with assms(1) nm take obtain i where i: "first_idx (\<lambda>r. \<not> cr_active r) (g_custom_rules s) = Some i"
      by (auto simp: service_add_custom_def split: option.splits)
    with None assms(1) nm take show thesis
      by (intro insert [of nm i])
        (auto simp: service_add_custom_def Let_def cres_simps rec max_def)
  qed
qed

lemma service_add_custom_refused:
  assumes "service_add_custom api name port proto b s p = Inr (False, s', p')"
  shows "s' = s \<and> p' = p"
  using assms by (auto simp: service_add_custom_def Let_def cres_simps split: option.splits if_splits)

lemma service_remove_custom_cases:
  assumes "service_remove_custom api port proto s p = Inr (ok, s', p')" and "sf_wf s"
  obtains (removed) i where "ok" "first_idx (same_rule port proto) (g_custom_rules s) = Some i"
      "s' = s\<lparr>g_custom_rules := (g_custom_rules s)[i := zero_rule],
         g_custom_rule_count :=
           scan_down cr_active ((g_custom_rules s)[i := zero_rule]) MAX_CUSTOM_PORT_RULES\<rparr>"
  | (absent) "\<not> ok" "first_idx (same_rule port proto) (g_custom_rules s) = None" "s' = s" "p' = p"
proof -
  have take: "take MAX_CUSTOM_PORT_RULES (g_custom_rules s) = g_custom_rules s"
    using sf_wf_rules [OF assms(2)] by simp
  show thesis
  proof (cases "first_idx (same_rule port proto) (g_custom_rules s)")
    case None
    then show thesis using assms(1) take
      by (intro absent) (auto simp: service_remove_custom_def)
  next
    case (Some i)
    then show thesis using assms(1) take
      by (intro removed [of i]) (auto simp: service_remove_custom_def Let_def cres_simps)
  qed
qed

section \<open>Every operation keeps the invariant\<close>

lemma service_add_custom_wf [inv_intros]:
  assumes "service_add_custom api name port proto b s p = Inr (ok, s', p')" and wf: "sf_wf s"
  shows "sf_wf s'"
proof (cases ok)
  case False
  then show ?thesis using service_add_custom_refused assms by (metis (full_types))
next
  case True
  with assms(1) have "service_add_custom api name port proto b s p = Inr (True, s', p')" by simp
  then show ?thesis using wf
  proof (cases rule: service_add_custom_cases)
    case (update nm i)
    let ?r = "(g_custom_rules s ! i)\<lparr>cr_blocked := b, cr_proto := proto,
      cr_name := strncpy_z MAX_SERVICE_NAME_LEN nm\<rparr>"
    have "i < length (g_custom_rules s)" "cr_active (g_custom_rules s ! i)"
      using first_idx_SomeD [OF update(3)] by (auto simp: same_rule_def)
    then have "scan_down cr_active ((g_custom_rules s)[i := ?r]) MAX_CUSTOM_PORT_RULES =
        g_custom_rule_count s"
      using wf by (simp add: sf_wf_def)
        (rule scan_down_keep, auto simp: nth_list_update MAX_CUSTOM_PORT_RULES_def)
    then show ?thesis using sf_wf_set_rule [OF wf, of ?r i] update(4) by simp
  next
    case (insert nm i)
    let ?r = "\<lparr>cr_name = strncpy_z MAX_SERVICE_NAME_LEN nm, cr_port = port, cr_proto = proto,
      cr_blocked = b, cr_active = True\<rparr>"
    have "scan_down cr_active ((g_custom_rules s)[i := ?r]) MAX_CUSTOM_PORT_RULES =
        max (i + 1) (g_custom_rule_count s)"
      using wf first_idx_SomeD [OF insert(4)]
        scan_down_grow [of i MAX_CUSTOM_PORT_RULES "g_custom_rules s" cr_active ?r]
      by (simp add: sf_wf_def)
    then show ?thesis using sf_wf_set_rule [OF wf, of ?r i] insert(5) by simp
  qed
qed

lemma service_remove_custom_wf [inv_intros]:
  assumes "service_remove_custom api port proto s p = Inr (ok, s', p')" and "sf_wf s"
  shows "sf_wf s'"
  using assms(1,2)
  by (cases rule: service_remove_custom_cases) (simp_all add: sf_wf_set_rule assms(2))

lemma service_set_blocked_wf [inv_intros]:
  assumes "service_set_blocked api sid b s p = Inr (s', p')" and "sf_wf s"
  shows "sf_wf s'"
  using assms by (auto simp: service_set_blocked_def Let_def cres_simps split: if_splits
      intro: sf_wf_set_blocked)

section \<open>Every operation has a defined result\<close>

lemma plat_log_format:
  assumes "c_format f args = Inr r"
  shows "plat_log f args p = Inr (p\<lparr>plog := put_line r (plog p)\<rparr>)"
  by (simp add: plat_log_def add_log_line_def assms)

lemma format_added:
  "c_format ''Custom port rule added: %s port=%u'' [VStr nm, VInt i] =
     Inr (''Custom port rule added: '' @ nm @ '' port='' @ dec_of_int i)"
  by simp

lemma format_removed:
  "c_format ''Custom port rule removed: %s port=%u'' [VStr nm, VInt i] =
     Inr (''Custom port rule removed: '' @ nm @ '' port='' @ dec_of_int i)"
  by simp

lemma format_service:
  "c_format ''Service %s: %s'' [VStr nm, VStr v] = Inr (''Service '' @ nm @ '': '' @ v)"
  by simp

lemma service_add_custom_defined:
  "\<exists>ok s' p'. service_add_custom api name port proto b s p = Inr (ok, s', p')"
proof -
  have "\<exists>p'. save_service_rules api t p = Inr p'" for t
    by (rule save_service_rules_Inr [of api t p]) blast
  then show ?thesis
    by (auto simp: service_add_custom_def Let_def cres_simps plat_log_format [OF format_added]
        split: option.split)
qed

lemma service_remove_custom_defined:
  "\<exists>ok s' p'. service_remove_custom api port proto s p = Inr (ok, s', p')"
proof -
  have "\<exists>p'. save_service_rules api t q = Inr p'" for t q
    by (rule save_service_rules_Inr [of api t q]) blast
  then show ?thesis
    by (auto simp: service_remove_custom_def Let_def cres_simps plat_log_format [OF format_removed]
        split: option.split)
qed

lemma service_set_blocked_defined:
  "\<exists>s' p'. service_set_blocked api sid b s p = Inr (s', p')"
proof -
  have "\<exists>p'. save_service_rules api t q = Inr p'" for t q
    by (rule save_service_rules_Inr [of api t q]) blast
  then show ?thesis
    by (auto simp: service_set_blocked_def Let_def cres_simps plat_log_format [OF format_service])
qed

section \<open>The operations as a machine\<close>

datatype service_op =
    Set_blocked service_id bool
  | Add_custom "string option" u16 byte bool
  | Remove_custom u16 byte

fun service_step ::
    "'f nvs_api \<Rightarrow> service_op \<Rightarrow> service_filter \<times> 'f plat \<Rightarrow> (service_filter \<times> 'f plat) cres" where
  "service_step api (Set_blocked sid b) (s, p) = service_set_blocked api sid b s p"
| "service_step api (Add_custom name port proto b) (s, p) =
     bindE (service_add_custom api name port proto b s p) (\<lambda>(_, s', p'). Inr (s', p'))"
| "service_step api (Remove_custom port proto) (s, p) =
     bindE (service_remove_custom api port proto s p) (\<lambda>(_, s', p'). Inr (s', p'))"

interpretation svc: total_op_system "service_step api" "\<lambda>(s, p). sf_wf s" for api
proof unfold_locales
  fix st x st' assume wf: "case st of (s, p) \<Rightarrow> sf_wf s" and "service_step api x st = Inr st'"
  then show "case st' of (s, p) \<Rightarrow> sf_wf s"
    by (cases x; cases st) (auto simp: cres_simps intro: inv_intros)
next
  fix st x
  show "is_defined (service_step api x st)"
  proof (cases st)
    case (Pair s p)
    show ?thesis
    proof (cases x)
      case (Set_blocked sid b)
      then show ?thesis using Pair service_set_blocked_defined [of api sid b s p] by auto
    next
      case (Add_custom name port proto b)
      then show ?thesis using Pair service_add_custom_defined [of api name port proto b s p] by auto
    next
      case (Remove_custom port proto)
      then show ?thesis using Pair service_remove_custom_defined [of api port proto s p] by auto
    qed
  qed
qed

section \<open>The decision\<close>

definition custom_hit :: "byte \<Rightarrow> u16 \<Rightarrow> custom_port_rule \<Rightarrow> bool" where
  "custom_hit proto port r \<longleftrightarrow> cr_active r \<and> cr_port r = port \<and> proto_matches (cr_proto r) proto"

definition builtin_allowed :: "byte \<Rightarrow> u16 \<Rightarrow> service_rule list \<Rightarrow> bool" where
  "builtin_allowed proto port gs \<longleftrightarrow>
     (case find (\<lambda>r. sr_port r = port \<and> proto_matches (sr_proto r) proto) gs of
        Some r \<Rightarrow> \<not> sr_blocked r | None \<Rightarrow> True)"

text \<open>
  On a well-formed state the count-bounded scan of the code decides like a scan of the
  whole rule table, and built-in services are all active.
\<close>

lemma find_first_idx: "find P xs = map_option (\<lambda>i. xs ! i) (first_idx P xs)"
  by (induction xs) (auto simp: option.map_comp comp_def)

lemma sf_wf_service_active:
  assumes "sf_wf s" and "r \<in> set (g_services s)"
  shows "sr_active r"
proof -
  have "r\<lparr>sr_blocked := False\<rparr> \<in> set builtin_services"
    using assms unfolding sf_wf_def by (metis list.set_map imageI)
  moreover have "\<forall>x \<in> set builtin_services. sr_active x"
    by (simp add: builtin_services_def builtin_def)
  ultimately have "sr_active (r\<lparr>sr_blocked := False\<rparr>)" by blast
  then show ?thesis by simp
qed

lemma service_is_port_allowed_eq:
  assumes "sf_wf s"
  shows "service_is_port_allowed proto port s =
     (case first_idx (custom_hit proto port) (g_custom_rules s) of
        Some i \<Rightarrow> \<not> cr_blocked (g_custom_rules s ! i)
      | None \<Rightarrow> builtin_allowed proto port (g_services s))"
proof -
  have "\<not> cr_active (g_custom_rules s ! i)"
    if "g_custom_rule_count s \<le> i" "i < length (g_custom_rules s)" for i
    using that assms scan_down_above [of cr_active "g_custom_rules s" MAX_CUSTOM_PORT_RULES i]
    by (simp add: sf_wf_def)
  then have custom: "first_idx (custom_hit proto port) (take (g_custom_rule_count s) (g_custom_rules s)) =
      first_idx (custom_hit proto port) (g_custom_rules s)"
    by (intro first_idx_take_enough) (simp add: custom_hit_def)
  have services: "first_idx (\<lambda>r. sr_active r \<and> sr_port r = port \<and> proto_matches (sr_proto r) proto)
        (take BUILTIN_COUNT (g_services s)) =
      first_idx (\<lambda>r. sr_port r = port \<and> proto_matches (sr_proto r) proto) (g_services s)"
    using sf_wf_services [OF assms] sf_wf_service_active [OF assms]
    by (intro first_idx_cong) auto
  show ?thesis
    unfolding service_is_port_allowed_def custom_hit_def [symmetric, abs_def] custom services
    by (auto simp: builtin_allowed_def find_first_idx split: option.splits)
qed

text \<open>A request and a packet protocol it covers can only meet rules that are the same rule.\<close>

lemma custom_hit_same_rule:
  "proto_matches proto q \<Longrightarrow> custom_hit q port r \<Longrightarrow> same_rule port proto r"
  by (auto simp: proto_matches_def custom_hit_def same_rule_def split: if_splits)

lemma add_custom_decides:
  assumes "service_add_custom api name port proto b s p = Inr (True, s', p')" and wf: "sf_wf s"
    and cover: "proto_matches proto q"
  shows "service_is_port_allowed q port s' \<longleftrightarrow> \<not> b"
proof -
  have wf': "sf_wf s'" using assms(1) wf by (rule service_add_custom_wf)
  have "\<exists>i. first_idx (custom_hit q port) (g_custom_rules s') = Some i \<and>
      cr_blocked (g_custom_rules s' ! i) = b"
    using assms(1) wf
  proof (cases rule: service_add_custom_cases)
    case (update nm i)
    note i = first_idx_SomeD [OF update(3)]
    have "first_idx (custom_hit q port) (g_custom_rules s') = Some i"
      using i cover custom_hit_same_rule [OF cover, of port]
      by (auto simp: update(4) first_idx_Some_iff custom_hit_def same_rule_def)
    then show ?thesis using i update(4) by auto
  next
    case (insert nm i)
    note i = first_idx_SomeD [OF insert(4)]
    have "\<not> custom_hit q port (g_custom_rules s ! j)" if "j < length (g_custom_rules s)" for j
      using nth_mem [OF that] insert(3) custom_hit_same_rule [OF cover] unfolding first_idx_None by blast
    then have "first_idx (custom_hit q port) (g_custom_rules s') = Some i"
      using i(1) cover by (auto simp: insert(5) first_idx_Some_iff custom_hit_def)
    then show ?thesis using i insert(5) by auto
  qed
  then show ?thesis using service_is_port_allowed_eq [OF wf'] by auto
qed

lemma add_custom_frame:
  assumes "service_add_custom api name port proto b s p = Inr (True, s', p')" and wf: "sf_wf s"
    and "dst \<noteq> port"
  shows "service_is_port_allowed q dst s' = service_is_port_allowed q dst s"
proof -
  have wf': "sf_wf s'" using assms(1) wf by (rule service_add_custom_wf)
  have "first_idx (custom_hit q dst) (g_custom_rules s') = first_idx (custom_hit q dst) (g_custom_rules s)
      \<and> (\<forall>j. custom_hit q dst (g_custom_rules s ! j) \<longrightarrow> g_custom_rules s' ! j = g_custom_rules s ! j)
      \<and> g_services s' = g_services s"
    using assms(1) wf
  proof (cases rule: service_add_custom_cases)
    case (update nm i)
    then have "cr_port (g_custom_rules s ! i) = port"
      using first_idx_SomeD(2) [OF update(3)] by (simp add: same_rule_def)
    then show ?thesis using \<open>dst \<noteq> port\<close> update(4)
      by (auto simp: custom_hit_def first_idx_update_miss) (metis nth_list_update_neq)
  next
    case (insert nm i)
    then have "\<not> cr_active (g_custom_rules s ! i)" using first_idx_SomeD(2) [OF insert(4)] by simp
    then show ?thesis using \<open>dst \<noteq> port\<close> insert(5)
      by (auto simp: custom_hit_def first_idx_update_miss) (metis nth_list_update_neq)
  qed
  then show ?thesis
    unfolding service_is_port_allowed_eq [OF wf] service_is_port_allowed_eq [OF wf']
    by (auto split: option.split dest: first_idx_SomeD(2))
qed

text \<open>Blocking a built-in service decides its port wherever no custom rule is in the way.\<close>

lemma set_blocked_decides:
  assumes "service_set_blocked api sid b s p = Inr (s', p')" and wf: "sf_wf s"
    and sid: "sid \<noteq> SVC_BUILTIN_COUNT"
    and free: "first_idx (custom_hit (sr_proto r) (sr_port r)) (g_custom_rules s) = None"
    and r: "r = builtin_services ! service_index sid"
  shows "service_is_port_allowed (sr_proto r) (sr_port r) s' \<longleftrightarrow> \<not> b"
proof -
  let ?i = "service_index sid" and ?gs = "g_services s"
  have i: "?i < BUILTIN_COUNT" using sid by (cases sid) simp_all
  have wf': "sf_wf s'" using assms(1) wf by (rule service_set_blocked_wf)
  have s': "g_services s' = ?gs[?i := (?gs ! ?i)\<lparr>sr_blocked := b\<rparr>]" "g_custom_rules s' = g_custom_rules s"
    using assms(1) i by (auto simp: service_set_blocked_def Let_def cres_simps)
  have same: "(?gs ! j)\<lparr>sr_blocked := False\<rparr> = builtin_services ! j" if "j < BUILTIN_COUNT" for j
    using sf_wf_service [OF wf that] .
  have port: "sr_port (?gs ! j) = sr_port (builtin_services ! j)"
    and proto: "sr_proto (?gs ! j) = sr_proto (builtin_services ! j)" if "j < BUILTIN_COUNT" for j
    using arg_cong [OF same [OF that], of sr_port] arg_cong [OF same [OF that], of sr_proto] by simp_all
  have distinct: "distinct (map sr_port builtin_services)"
    by (simp add: builtin_services_def builtin_def)
  have "first_idx (\<lambda>x. sr_port x = sr_port r \<and> proto_matches (sr_proto x) (sr_proto r)) (g_services s')
      = Some ?i"
    unfolding first_idx_Some_iff
  proof (intro conjI allI impI)
    show "?i < length (g_services s')" using i sf_wf_services [OF wf'] by simp
    show "sr_port (g_services s' ! ?i) = sr_port r"
      and "proto_matches (sr_proto (g_services s' ! ?i)) (sr_proto r)"
      using i port proto r sf_wf_services [OF wf] by (auto simp: s' proto_matches_def)
  next
    fix j assume "j < ?i"
    then have "sr_port (builtin_services ! j) \<noteq> sr_port (builtin_services ! ?i)"
      using distinct i by (auto simp: distinct_conv_nth)
    then show "\<not> (sr_port (g_services s' ! j) = sr_port r \<and>
        proto_matches (sr_proto (g_services s' ! j)) (sr_proto r))"
      using \<open>j < ?i\<close> i port [of j] r by (simp add: s')
  qed
  then show ?thesis
    using free i sf_wf_services [OF wf]
    by (simp add: service_is_port_allowed_eq [OF wf'] s'(2) builtin_allowed_def find_first_idx)
      (simp add: s'(1))
qed

section \<open>Rules that do not overlap\<close>

text \<open>
  The table is meant to hold at most one rule for a port and protocol. Additions for one
  protocol keep it so; then removing a rule gives the decision back to the built-in
  services.
\<close>

definition overlapping :: "custom_port_rule \<Rightarrow> custom_port_rule \<Rightarrow> bool" where
  "overlapping r t \<longleftrightarrow> cr_active r \<and> same_rule (cr_port r) (cr_proto r) t"

definition exclusive :: "custom_port_rule list \<Rightarrow> bool" where
  "exclusive rs \<longleftrightarrow> (\<forall>i < length rs. \<forall>j < length rs. i \<noteq> j \<longrightarrow> \<not> overlapping (rs ! i) (rs ! j))"

lemma overlapping_sym: "overlapping r t \<Longrightarrow> overlapping t r"
  by (auto simp: overlapping_def same_rule_def)

lemma exclusive_update:
  assumes "exclusive rs" and "\<And>j. j < length rs \<Longrightarrow> j \<noteq> i \<Longrightarrow> \<not> overlapping r (rs ! j)"
  shows "exclusive (rs[i := r])"
  unfolding exclusive_def
proof (intro allI impI)
  fix j k assume "j < length (rs[i := r])" "k < length (rs[i := r])" "j \<noteq> k"
  then have jk: "j < length rs" "k < length rs" "j \<noteq> k" by auto
  show "\<not> overlapping (rs[i := r] ! j) (rs[i := r] ! k)"
  proof (cases "j = i \<or> k = i")
    case False
    then show ?thesis using jk assms(1) by (auto simp: exclusive_def)
  next
    case True
    then show ?thesis using jk assms(2) [of j] assms(2) [of k] overlapping_sym by auto
  qed
qed

lemma exclusive_boot: "exclusive (g_custom_rules service_boot)"
  by (simp add: exclusive_def service_boot_def overlapping_def zero_rule_def)

lemma add_custom_exclusive:
  assumes "service_add_custom api name port proto b s p = Inr (ok, s', p')" and wf: "sf_wf s"
    and ex: "exclusive (g_custom_rules s)" and one: "proto \<noteq> SVC_PROTO_BOTH"
  shows "exclusive (g_custom_rules s')"
proof (cases ok)
  case False
  then show ?thesis using service_add_custom_refused assms(1) ex by (metis (full_types))
next
  case True
  with assms(1) have "service_add_custom api name port proto b s p = Inr (True, s', p')" by simp
  then show ?thesis using wf
  proof (cases rule: service_add_custom_cases)
    case (update nm i)
    note i = first_idx_SomeD [OF update(3)]
    have "\<not> overlapping (g_custom_rules s ! i) (g_custom_rules s ! j)"
      if "j < length (g_custom_rules s)" "j \<noteq> i" for j
      using ex that i(1) by (auto simp: exclusive_def)
    then show ?thesis unfolding update(4) using i(2) one
      by (auto intro!: exclusive_update ex simp: overlapping_def same_rule_def)
  next
    case (insert nm i)
    then show ?thesis unfolding insert(5) using ex
      by (auto intro!: exclusive_update simp: overlapping_def first_idx_None)
  qed
qed

lemma remove_custom_restores:
  assumes "service_remove_custom api port proto s p = Inr (True, s', p')" and wf: "sf_wf s"
    and ex: "exclusive (g_custom_rules s)" and one: "proto \<noteq> SVC_PROTO_BOTH"
  shows "service_is_port_allowed proto port s' = builtin_allowed proto port (g_services s)"
proof -
  have wf': "sf_wf s'" using assms(1) wf by (rule service_remove_custom_wf)
  have "first_idx (custom_hit proto port) (g_custom_rules s') = None \<and> g_services s' = g_services s"
    using assms(1) wf
  proof (cases rule: service_remove_custom_cases)
    case (removed i)
    note i = first_idx_SomeD [OF removed(2)]
    have cover: "proto_matches proto proto" by (simp add: proto_matches_def)
    have miss: "\<not> custom_hit proto port (g_custom_rules s ! j)"
      if "j < length (g_custom_rules s)" "j \<noteq> i" for j
    proof
      assume hit: "custom_hit proto port (g_custom_rules s ! j)"
      have "\<not> overlapping (g_custom_rules s ! i) (g_custom_rules s ! j)"
        using ex that i(1) by (auto simp: exclusive_def)
      then show False using hit i(2) one
        by (auto simp: overlapping_def same_rule_def custom_hit_def proto_matches_def split: if_splits)
    qed
    have "\<not> custom_hit proto port x" if x: "x \<in> set ((g_custom_rules s)[i := zero_rule])" for x
    proof -
      from x obtain j where "j < length (g_custom_rules s)"
        "x = (g_custom_rules s)[i := zero_rule] ! j" by (auto simp: in_set_conv_nth)
      then show ?thesis using miss [of j] by (cases "j = i") (auto simp: custom_hit_def zero_rule_def)
    qed
    then show ?thesis using removed(3) by (simp add: first_idx_None)
  qed simp
  then show ?thesis by (simp add: service_is_port_allowed_eq [OF wf'])
qed

end
