(* ===== verification/Service_Store.thy ===== *)
theory Service_Store
  imports Service_Laws
begin

text \<open>
  Persistence of the port filter: the bit mask of blocked services, the memory image of the
  custom rules, and the round trip through the flash and a restart.
\<close>

section \<open>The bit mask\<close>

lemma bit_svc_fold:
  assumes "n \<le> 32"
  shows "bit (fold (\<lambda>i m. if Q i then or m (push_bit i 1) else m) [0..<n] (0::u32)) j \<longleftrightarrow> j < n \<and> Q j"
  using assms
proof (induction n)
  case (Suc n)
  have b: "bit (push_bit n (1::u32)) j \<longleftrightarrow> j = n" if "n < 32"
    using that by (auto simp: bit_simps)
  have "bit (fold (\<lambda>i m. if Q i then or m (push_bit i 1) else m) [0..<n] (0::u32)) j \<longleftrightarrow> j < n \<and> Q j"
    using Suc by simp
  then show ?case using Suc.prems b by (auto simp: bit_or_iff less_Suc_eq)
qed simp

lemma bit_svc_mask: "bit (svc_mask gs) i \<longleftrightarrow> i < BUILTIN_COUNT \<and> sr_blocked (gs ! i)"
  unfolding svc_mask_def by (rule bit_svc_fold) simp

lemma and_drop_bit_one: "and (drop_bit i w) 1 \<noteq> (0::u32) \<longleftrightarrow> bit w i"
  by (simp add: and_one_eq odd_iff_mod_2_eq_one [symmetric] bit_iff_odd_drop_bit)

lemma apply_svc_mask:
  assumes "sf_wf s" and "map (sr_blocked_update (\<lambda>_. False)) gs = builtin_services"
  shows "apply_mask (svc_mask (g_services s)) gs = g_services s"
proof (rule nth_equalityI)
  show "length (apply_mask (svc_mask (g_services s)) gs) = length (g_services s)"
    using sf_wf_services [OF assms(1)] by (simp add: apply_mask_def)
next
  fix i assume "i < length (apply_mask (svc_mask (g_services s)) gs)"
  then have i: "i < BUILTIN_COUNT" by (simp add: apply_mask_def)
  have len: "length gs = BUILTIN_COUNT" using arg_cong [OF assms(2), of length] by simp
  have "(gs ! i)\<lparr>sr_blocked := False\<rparr> = builtin_services ! i"
    using assms(2) i len by (metis nth_map)
  then have "(gs ! i)\<lparr>sr_blocked := False\<rparr> = (g_services s ! i)\<lparr>sr_blocked := False\<rparr>"
    using sf_wf_service [OF assms(1) i] by simp
  then have "(gs ! i)\<lparr>sr_blocked := x\<rparr> = (g_services s ! i)\<lparr>sr_blocked := x\<rparr>" for x
    by (cases "gs ! i"; cases "g_services s ! i") simp
  then show "apply_mask (svc_mask (g_services s)) gs ! i = g_services s ! i"
    using i by (simp add: apply_mask_def and_drop_bit_one bit_svc_mask)
qed

section \<open>The memory image of the rules\<close>

lemma length_rule_bytes: "rule_wf r \<Longrightarrow> length (rule_bytes r) = RULE_SIZE"
  by (simp add: rule_bytes_def rule_wf_def MAX_SERVICE_NAME_LEN_def RULE_SIZE_def)

lemma rule_of_rule_bytes:
  assumes "rule_wf r"
  shows "rule_of_bytes (rule_bytes r) = r"
proof -
  have len: "length (map byte_of_char (cr_name r)) = 24"
    using assms by (simp add: rule_wf_def MAX_SERVICE_NAME_LEN_def)
  have "map (char_of_byte \<circ> byte_of_char) (cr_name r) = cr_name r"
    by (simp add: comp_def)
  then show ?thesis using len
    by (simp add: rule_of_bytes_def rule_bytes_def le16_def nth_append)
qed

lemma rules_of_rules_bytes:
  assumes "list_all rule_wf rs" and "length rs = MAX_CUSTOM_PORT_RULES"
  shows "rules_of_bytes (rules_bytes rs) = rs"
proof -
  have "decode_array RULE_SIZE rule_of_bytes (length rs) (concat (map rule_bytes rs)) = rs"
    using assms(1)
    by (intro decode_array_concat) (auto simp: list_all_iff length_rule_bytes rule_of_rule_bytes)
  then show ?thesis by (simp add: rules_of_bytes_def rules_bytes_def assms(2))
qed

lemma length_rules_bytes:
  assumes "list_all rule_wf rs"
  shows "length (rules_bytes rs) = length rs * RULE_SIZE"
  using assms unfolding rules_bytes_def
  by (intro length_concat_enc) (simp add: list_all_iff length_rule_bytes)

section \<open>Round trip through the flash\<close>

context nvs_reliable
begin

text \<open>After a save both what is read and what survives a restart are the rules in force.\<close>

lemma save_service_rules_disk:
  assumes "save_service_rules api s p = Inr p'" and "D = disk \<or> D = view"
  shows "D (pflash p') (PARAM_NAMESPACE, NVS_KEY_SVC_BLOCKED) = Some (NvU32 (svc_mask (g_services s)))"
    and "D (pflash p') (PARAM_NAMESPACE, NVS_KEY_CUSTOM_RULES) =
      Some (NvBlob (rules_bytes (g_custom_rules s)))"
proof -
  obtain h f1 where o: "nvs_open api PARAM_NAMESPACE NVS_READWRITE (pflash p) = (ESP_OK, h, f1)"
    and h1: "handles f1 = (handles (pflash p))(h \<mapsto> (PARAM_NAMESPACE, NVS_READWRITE))"
    by (rule open_rwE)
  from h1 have "handles f1 h = Some (PARAM_NAMESPACE, NVS_READWRITE)" by simp
  then obtain f2 where s2: "nvs_set api h NVS_KEY_SVC_BLOCKED (NvU32 (svc_mask (g_services s))) f1 = (ESP_OK, f2)"
    and v2: "view f2 = (view f1)((PARAM_NAMESPACE, NVS_KEY_SVC_BLOCKED) \<mapsto> NvU32 (svc_mask (g_services s)))"
    and h2: "handles f2 = handles f1" by (rule setE)
  from h1 h2 have "handles f2 h = Some (PARAM_NAMESPACE, NVS_READWRITE)" by simp
  then obtain f3 where s3: "nvs_set api h NVS_KEY_CUSTOM_RULES (NvBlob (rules_bytes (g_custom_rules s))) f2 = (ESP_OK, f3)"
    and v3: "view f3 = (view f2)((PARAM_NAMESPACE, NVS_KEY_CUSTOM_RULES) \<mapsto> NvBlob (rules_bytes (g_custom_rules s)))"
    and h3: "handles f3 = handles f2" by (rule setE)
  from h1 h2 h3 have "handles f3 h = Some (PARAM_NAMESPACE, NVS_READWRITE)" by simp
  then obtain f4 where s4: "nvs_commit api h f3 = (ESP_OK, f4)"
    and v4: "view f4 = view f3" and "handles f4 = handles f3"
    and d4: "\<forall>k. disk f4 (PARAM_NAMESPACE, k) = view f3 (PARAM_NAMESPACE, k)" by (rule commitE)
  have "pflash p' = nvs_close api h f4"
    using assms(1) by (auto simp: save_service_rules_def o s2 s3 s4 Let_def dest: plat_log_Inr)
  moreover have "D (nvs_close api h f4) (PARAM_NAMESPACE, k) = view f3 (PARAM_NAMESPACE, k)" for k
    using assms(2) v4 d4 by (auto simp: close)
  ultimately show "D (pflash p') (PARAM_NAMESPACE, NVS_KEY_SVC_BLOCKED) = Some (NvU32 (svc_mask (g_services s)))"
    and "D (pflash p') (PARAM_NAMESPACE, NVS_KEY_CUSTOM_RULES) =
      Some (NvBlob (rules_bytes (g_custom_rules s)))"
    by (simp_all add: v3 v2 NVS_KEY_SVC_BLOCKED_def NVS_KEY_CUSTOM_RULES_def)
qed

lemma load_service_rules_view:
  assumes "view (pflash p) (PARAM_NAMESPACE, NVS_KEY_SVC_BLOCKED) = Some (NvU32 m)"
    and "view (pflash p) (PARAM_NAMESPACE, NVS_KEY_CUSTOM_RULES) = Some (NvBlob b)"
    and "length b = RULE_SIZE * MAX_CUSTOM_PORT_RULES"
    and "length (rules_bytes (g_custom_rules s)) = RULE_SIZE * MAX_CUSTOM_PORT_RULES"
  shows "fst (load_service_rules api s p) = s\<lparr>g_services := apply_mask m (g_services s),
     g_custom_rules := rules_of_bytes b,
     g_custom_rule_count := scan_down cr_active (rules_of_bytes b) MAX_CUSTOM_PORT_RULES\<rparr>"
proof -
  have "view (pflash p) (PARAM_NAMESPACE, NVS_KEY_SVC_BLOCKED) \<noteq> None" using assms(1) by simp
  then obtain h f1 where o: "nvs_open api PARAM_NAMESPACE NVS_READONLY (pflash p) = (ESP_OK, h, f1)"
    and v1: "view f1 = view (pflash p)"
    and h1: "handles f1 = (handles (pflash p))(h \<mapsto> (PARAM_NAMESPACE, NVS_READONLY))"
    by (rule open_roE)
  have h: "handles f1 h = Some (PARAM_NAMESPACE, NVS_READONLY)" using h1 by simp
  have g1: "nvs_get api h NVS_KEY_SVC_BLOCKED NVS_TYPE_U32 0 f1 = Inr (NvU32 m)"
    using get_complete [OF h, of NVS_KEY_SVC_BLOCKED "NvU32 m" 0] assms(1) v1 by simp
  have g2: "nvs_get api h NVS_KEY_CUSTOM_RULES NVS_TYPE_BLOB (RULE_SIZE * MAX_CUSTOM_PORT_RULES) f1 = Inr (NvBlob b)"
    using get_complete [OF h, of NVS_KEY_CUSTOM_RULES "NvBlob b" "RULE_SIZE * MAX_CUSTOM_PORT_RULES"]
      assms(2,3) v1 by simp
  show ?thesis
    by (simp add: load_service_rules_def o g1 g2 Let_def overlay_full assms(3,4))
qed

end

section \<open>Every completed operation is on the disk\<close>

definition services_on_disk :: "('f \<Rightarrow> nvs_key \<Rightarrow> nvs_value option) \<Rightarrow> service_filter \<Rightarrow> 'f plat \<Rightarrow> bool" where
  "services_on_disk dsk s p \<longleftrightarrow>
     dsk (pflash p) (PARAM_NAMESPACE, NVS_KEY_SVC_BLOCKED) = Some (NvU32 (svc_mask (g_services s))) \<and>
     dsk (pflash p) (PARAM_NAMESPACE, NVS_KEY_CUSTOM_RULES) =
       Some (NvBlob (rules_bytes (g_custom_rules s)))"

lemma services_on_disk_log: "plat_log f args p = Inr p' \<Longrightarrow> services_on_disk dsk s p' = services_on_disk dsk s p"
  by (auto simp: services_on_disk_def dest: plat_log_Inr)

context nvs_reliable
begin

lemma save_on_disk: "save_service_rules api s p = Inr p' \<Longrightarrow> D = disk \<or> D = view \<Longrightarrow> services_on_disk D s p'"
  by (simp add: services_on_disk_def save_service_rules_disk)

lemma set_blocked_on_disk:
  "service_set_blocked api sid b s p = Inr (s', p') \<Longrightarrow> services_on_disk D s p \<Longrightarrow> D = disk \<or> D = view \<Longrightarrow> services_on_disk D s' p'"
  by (auto simp: service_set_blocked_def Let_def cres_simps services_on_disk_log
      dest: save_on_disk split: if_splits)

lemma add_custom_on_disk:
  "service_add_custom api name port proto b s p = Inr (ok, s', p') \<Longrightarrow> services_on_disk D s p \<Longrightarrow> D = disk \<or> D = view \<Longrightarrow>
     services_on_disk D s' p'"
  by (auto simp: service_add_custom_def Let_def cres_simps services_on_disk_log
      dest: save_on_disk split: option.splits if_splits)

lemma remove_custom_on_disk:
  "service_remove_custom api port proto s p = Inr (ok, s', p') \<Longrightarrow> services_on_disk D s p \<Longrightarrow> D = disk \<or> D = view \<Longrightarrow>
     services_on_disk D s' p'"
  by (auto simp: service_remove_custom_def Let_def cres_simps dest: save_on_disk split: option.splits)

lemma init_from_view:
  assumes "services_on_disk view s p" and wf: "sf_wf s" and boot: "sf_wf s0"
  shows "\<exists>p2. init_service_filter api s0 p = Inr (s, p2)"
proof -
  let ?s0 = "s0\<lparr>g_custom_rules := replicate MAX_CUSTOM_PORT_RULES zero_rule, g_custom_rule_count := 0\<rparr>"
  have rs: "list_all rule_wf (g_custom_rules s)" "length (g_custom_rules s) = MAX_CUSTOM_PORT_RULES"
    using wf by (simp_all add: sf_wf_def)
  have z: "list_all rule_wf (g_custom_rules ?s0)" by (simp add: list_all_length)
  have "fst (load_service_rules api ?s0 p) = ?s0\<lparr>g_services := apply_mask (svc_mask (g_services s)) (g_services ?s0),
     g_custom_rules := rules_of_bytes (rules_bytes (g_custom_rules s)),
     g_custom_rule_count :=
       scan_down cr_active (rules_of_bytes (rules_bytes (g_custom_rules s))) MAX_CUSTOM_PORT_RULES\<rparr>"
    using assms(1) length_rules_bytes [OF rs(1)] length_rules_bytes [OF z] rs(2)
    by (intro load_service_rules_view) (simp_all add: services_on_disk_def)
  also have "\<dots> = s"
    using wf boot apply_svc_mask [OF wf, of "g_services s0"] rules_of_rules_bytes [OF rs]
    by (simp add: sf_wf_def)
  finally have load: "fst (load_service_rules api ?s0 p) = s" .
  obtain p1' where "load_service_rules api ?s0 p = (s, p1')"
    using load by (cases "load_service_rules api ?s0 p") simp
  then show ?thesis by (simp add: init_service_filter_def Let_def cres_simps plat_log_def add_log_line_def)
qed

lemma restart_from_disk:
  assumes "services_on_disk disk s p" and "sf_wf s" and "sf_wf s0"
  shows "\<exists>p2. init_service_filter api s0 (p\<lparr>pflash := nvs_reset api (pflash p)\<rparr>) = Inr (s, p2)"
  using assms by (intro init_from_view) (simp_all add: services_on_disk_def reset)

end

sublocale nvs_reliable \<subseteq> svc_sync: op_system "service_step api"
    "\<lambda>(s, p). sf_wf s \<and> services_on_disk disk s p"
proof
  fix st x st'
  assume inv: "case st of (s, p) \<Rightarrow> sf_wf s \<and> services_on_disk disk s p"
    and step: "service_step api x st = Inr st'"
  have "case st of (s, p) \<Rightarrow> sf_wf s" using inv by auto
  then have "case st' of (s, p) \<Rightarrow> sf_wf s" using step by (rule svc.step_inv)
  moreover from inv step have "case st' of (s, p) \<Rightarrow> services_on_disk disk s p"
    by (cases x; cases st)
      (auto simp: cres_simps intro: set_blocked_on_disk add_custom_on_disk remove_custom_on_disk)
  ultimately show "case st' of (s, p) \<Rightarrow> sf_wf s \<and> services_on_disk disk s p" by auto
qed

context nvs_reliable
begin

lemma run_then_restart:
  assumes "sf_wf s" and "services_on_disk disk s p"
    and "run_ops (service_step api) ops (s, p) = Inr (s', p')"
  shows "\<exists>p2. init_service_filter api service_boot (p'\<lparr>pflash := nvs_reset api (pflash p')\<rparr>) = Inr (s', p2)"
proof -
  have "case (s, p) of (s, p) \<Rightarrow> sf_wf s \<and> services_on_disk disk s p" using assms by simp
  from svc_sync.run_inv [OF this assms(3)] have "sf_wf s'" "services_on_disk disk s' p'" by simp_all
  then show ?thesis using restart_from_disk sf_wf_boot by blast
qed

end

section \<open>Finding a service by its name\<close>

definition service_names :: "string list" where
  "service_names = [''HTTP'', ''HTTPS'', ''DNS'', ''SSH'', ''FTP'', ''FTP-DATA'', ''SMTP'', ''SMTPS'',
     ''POP3'', ''IMAP'', ''IMAPS'', ''RDP'', ''NTP'', ''TELNET'', ''MQTT'', ''MQTTS'']"

lemma builtin_upper_names:
  "map (\<lambda>r. to_upper (sr_name r) MAX_SERVICE_NAME_LEN) builtin_services = service_names"
  by (simp add: builtin_services_def builtin_def to_upper_def cstr_strncpy_z service_names_def
      MAX_SERVICE_NAME_LEN_def c_toupper_def)

text \<open>The services in the order of the C enumeration, so that ids can be compared and sorted.\<close>

lemma service_index_inj: "service_index a = service_index b \<Longrightarrow> a = b"
  by (cases a; cases b) simp_all

instantiation service_id :: linorder
begin

definition less_eq_service_id :: "service_id \<Rightarrow> service_id \<Rightarrow> bool" where
  "less_eq_service_id a b \<longleftrightarrow> service_index a \<le> service_index b"

definition less_service_id :: "service_id \<Rightarrow> service_id \<Rightarrow> bool" where
  "less_service_id a b \<longleftrightarrow> service_index a < service_index b"

instance
  by intro_classes (auto simp: less_eq_service_id_def less_service_id_def intro: service_index_inj)

end

lemma service_ids_enum: "sorted_list_of_set {sid. sid < SVC_BUILTIN_COUNT} = service_ids"
proof -
  have "sorted service_ids" "distinct service_ids" by (simp_all add: service_ids_def less_eq_service_id_def)
  moreover have "{sid. sid < SVC_BUILTIN_COUNT} = set service_ids"
  proof (rule set_eqI)
    fix sid
    show "sid \<in> {sid. sid < SVC_BUILTIN_COUNT} \<longleftrightarrow> sid \<in> set service_ids"
      by (cases sid) (simp_all add: service_ids_def less_service_id_def)
  qed
  ultimately show ?thesis by (simp add: sorted_list_of_set.idem_if_sorted_distinct)
qed

lemma service_ids_index: "sid \<noteq> SVC_BUILTIN_COUNT \<Longrightarrow> service_ids ! service_index sid = sid"
  by (cases sid) (simp_all add: service_ids_def)

lemma upper_eq_iff: "map c_toupper a = map c_toupper b \<longleftrightarrow> strcaseeq a b"
  by (simp add: strcaseeq_def list_eq_iff_nth_eq c_tolower_eq_iff_toupper cong: conj_cong)

lemma service_upper_names:
  assumes "sf_wf s"
  shows "map (\<lambda>r. to_upper (sr_name r) MAX_SERVICE_NAME_LEN) (g_services s) = service_names"
proof -
  have "map (\<lambda>r. to_upper (sr_name r) MAX_SERVICE_NAME_LEN) (g_services s) =
      map (\<lambda>r. to_upper (sr_name r) MAX_SERVICE_NAME_LEN)
        (map (sr_blocked_update (\<lambda>_. False)) (g_services s))"
    by simp
  also have "\<dots> = service_names"
    using assms unfolding sf_wf_def by (simp only: builtin_upper_names)
  finally show ?thesis .
qed

lemma service_names_facts:
  "length service_names = BUILTIN_COUNT" "distinct service_names"
  "\<forall>n \<in> set service_names. length n < MAX_SERVICE_NAME_LEN - 1 \<and> map c_toupper n = n"
  by (simp_all add: service_names_def MAX_SERVICE_NAME_LEN_def c_toupper_def)

text \<open>Truncation to 23 characters cannot turn a longer name into one of a service.\<close>

lemma to_upper_eq_name:
  assumes "is_cstr nm" and "n \<in> set service_names"
  shows "to_upper nm MAX_SERVICE_NAME_LEN = n \<longleftrightarrow> strcaseeq nm n"
proof -
  have n: "length n < 23" "map c_toupper n = n"
    using service_names_facts(3) assms(2) by (auto simp: MAX_SERVICE_NAME_LEN_def)
  have "to_upper nm MAX_SERVICE_NAME_LEN = n \<longleftrightarrow> map c_toupper (take 23 nm) = map c_toupper n"
    using n assms(1) by (simp add: to_upper_def cstr_is_cstr MAX_SERVICE_NAME_LEN_def)
  also have "\<dots> \<longleftrightarrow> map c_toupper nm = map c_toupper n"
  proof (cases "length nm \<le> 23")
    case False
    then have "length (map c_toupper (take 23 nm)) \<noteq> length (map c_toupper n)"
      "length (map c_toupper nm) \<noteq> length (map c_toupper n)" using n(1) by auto
    then show ?thesis by metis
  qed simp
  finally show ?thesis by (simp add: upper_eq_iff)
qed

lemma find_by_name_index:
  assumes wf: "sf_wf s" and nm: "is_cstr nm" and sid: "sid \<noteq> SVC_BUILTIN_COUNT"
  shows "service_find_by_name (Some nm) s = sid \<longleftrightarrow> strcaseeq nm (service_names ! service_index sid)"
proof -
  let ?up = "to_upper nm MAX_SERVICE_NAME_LEN"
  have "first_idx (\<lambda>r. ?up = to_upper (sr_name r) MAX_SERVICE_NAME_LEN) (take BUILTIN_COUNT (g_services s)) =
      first_idx (\<lambda>n. ?up = n) (map (\<lambda>r. to_upper (sr_name r) MAX_SERVICE_NAME_LEN) (g_services s))"
    using sf_wf_services [OF wf] by (simp add: first_idx_map)
  then have search: "service_find_by_name (Some nm) s =
      (case first_idx (\<lambda>n. ?up = n) service_names of None \<Rightarrow> SVC_BUILTIN_COUNT | Some i \<Rightarrow> service_ids ! i)"
    unfolding service_find_by_name_def service_upper_names [OF wf] by simp
  have i: "service_index sid < BUILTIN_COUNT" using sid by (cases sid) simp_all
  have key: "first_idx (\<lambda>n. ?up = n) service_names = Some k \<longleftrightarrow>
      k < BUILTIN_COUNT \<and> strcaseeq nm (service_names ! k)" for k
  proof -
    have "first_idx (\<lambda>n. ?up = n) service_names = Some k \<longleftrightarrow> k < BUILTIN_COUNT \<and> ?up = service_names ! k"
      using service_names_facts(1,2) by (auto simp: first_idx_Some_iff distinct_conv_nth)
    then show ?thesis
      using to_upper_eq_name [OF nm, of "service_names ! k"] service_names_facts(1) nth_mem by metis
  qed
  have inj: "service_ids ! k = sid \<longleftrightarrow> k = service_index sid" if "k < BUILTIN_COUNT" for k
  proof -
    have "distinct service_ids" "length service_ids = BUILTIN_COUNT" by (simp_all add: service_ids_def)
    then show ?thesis
      using that i service_ids_index [OF sid] nth_eq_iff_index_eq [of service_ids k "service_index sid"]
      by simp
  qed
  show ?thesis
  proof (cases "first_idx (\<lambda>n. ?up = n) service_names")
    case None
    then have "\<not> strcaseeq nm (service_names ! service_index sid)"
      using key [of "service_index sid"] i by simp
    then show ?thesis using None search sid by simp
  next
    case (Some k)
    then show ?thesis using search key [of k] key [of "service_index sid"] inj [of k] i by auto
  qed
qed

section \<open>Stale rules\<close>

text \<open>The rule an addition writes, in the two cases of its search.\<close>

lemma add_custom_updates:
  assumes "sf_wf s" "port \<noteq> 0" "first_idx (same_rule port proto) (g_custom_rules s) = Some i"
  shows "\<exists>s' p'. service_add_custom api (Some nm) port proto b s p = Inr (True, s', p') \<and>
     g_custom_rules s' = (g_custom_rules s)[i := (g_custom_rules s ! i)\<lparr>cr_blocked := b,
       cr_proto := proto, cr_name := strncpy_z MAX_SERVICE_NAME_LEN nm\<rparr>] \<and> sf_wf s'"
proof -
  obtain ok s' p' where add: "service_add_custom api (Some nm) port proto b s p = Inr (ok, s', p')"
    using service_add_custom_defined by blast
  moreover have "ok" using add assms sf_wf_rules [OF assms(1)]
    by (auto simp: service_add_custom_def Let_def cres_simps)
  ultimately have add: "service_add_custom api (Some nm) port proto b s p = Inr (True, s', p')" by simp
  then have "g_custom_rules s' = (g_custom_rules s)[i := (g_custom_rules s ! i)\<lparr>cr_blocked := b,
      cr_proto := proto, cr_name := strncpy_z MAX_SERVICE_NAME_LEN nm\<rparr>]" using assms
    by (cases rule: service_add_custom_cases) auto
  then show ?thesis using add service_add_custom_wf [OF add assms(1)] by blast
qed

lemma add_custom_inserts:
  assumes "sf_wf s" "port \<noteq> 0" "first_idx (same_rule port proto) (g_custom_rules s) = None"
    "first_idx (\<lambda>r. \<not> cr_active r) (g_custom_rules s) = Some i"
  shows "\<exists>s' p'. service_add_custom api (Some nm) port proto b s p = Inr (True, s', p') \<and>
     g_custom_rules s' = (g_custom_rules s)[i := \<lparr>cr_name = strncpy_z MAX_SERVICE_NAME_LEN nm,
       cr_port = port, cr_proto = proto, cr_blocked = b, cr_active = True\<rparr>] \<and> sf_wf s'"
proof -
  obtain ok s' p' where add: "service_add_custom api (Some nm) port proto b s p = Inr (ok, s', p')"
    using service_add_custom_defined by blast
  moreover have "ok" using add assms sf_wf_rules [OF assms(1)]
    by (auto simp: service_add_custom_def Let_def cres_simps)
  ultimately have add: "service_add_custom api (Some nm) port proto b s p = Inr (True, s', p')" by simp
  then have "g_custom_rules s' = (g_custom_rules s)[i := \<lparr>cr_name = strncpy_z MAX_SERVICE_NAME_LEN nm,
      cr_port = port, cr_proto = proto, cr_blocked = b, cr_active = True\<rparr>]" using assms
    by (cases rule: service_add_custom_cases) auto
  then show ?thesis using add service_add_custom_wf [OF add assms(1)] by blast
qed

lemma boot_add:
  assumes "port \<noteq> 0"
  obtains s' p' where "service_add_custom api (Some nm) port proto b service_boot p = Inr (True, s', p')" "sf_wf s'"
proof -
  have "first_idx (same_rule port proto) (g_custom_rules service_boot) = None"
    "first_idx (\<lambda>r. \<not> cr_active r) (g_custom_rules service_boot) = Some 0"
    by (simp_all add: service_boot_def first_idx_None first_idx_Some_iff same_rule_def zero_rule_def
        MAX_CUSTOM_PORT_RULES_def)
  then show thesis using add_custom_inserts [OF sf_wf_boot assms] that by blast
qed

lemma remove_custom_removes:
  assumes "sf_wf s" "first_idx (same_rule port proto) (g_custom_rules s) = Some i"
  shows "\<exists>s' p'. service_remove_custom api port proto s p = Inr (True, s', p') \<and>
     g_custom_rules s' = (g_custom_rules s)[i := zero_rule] \<and> sf_wf s'"
proof -
  obtain ok s' p' where rm: "service_remove_custom api port proto s p = Inr (ok, s', p')"
    using service_remove_custom_defined by blast
  then have "ok \<and> g_custom_rules s' = (g_custom_rules s)[i := zero_rule]" using assms
    by (cases rule: service_remove_custom_cases) auto
  then show ?thesis using rm service_remove_custom_wf [OF rm assms(1)] by auto
qed

lemma boot_rules: "g_custom_rules service_boot = zero_rule # zero_rule # replicate 18 zero_rule"
  by (simp add: service_boot_def MAX_CUSTOM_PORT_RULES_def numeral_eq_Suc)

lemma no_rule_in_zeros [simp]: "first_idx (same_rule port proto) (replicate n zero_rule) = None"
  by (simp add: first_idx_None same_rule_def zero_rule_def)

section \<open>Properties\<close>

text \<open>Whatever operations run after start-up, and whatever the flash answers, each has a
  defined result and the tables stay well formed: the built-in table unchanged but for its
  blocked flags, twenty NUL-terminated custom rules, and a rule count that is exactly one more
  than the highest active rule.\<close>

theorem service_operations_keep_tables:
  "\<exists>s' p'. run_ops (service_step api) ops (service_boot, p) = Inr (s', p') \<and> sf_wf s'"
proof -
  have boot: "case (service_boot, p) of (s, p) \<Rightarrow> sf_wf s" by (simp add: sf_wf_boot)
  from svc.run_defined [OF boot, of api ops] obtain s' p'
    where run: "run_ops (service_step api) ops (service_boot, p) = Inr (s', p')"
    by (auto simp: is_defined_iff)
  with svc.run_inv [OF boot run] show ?thesis by simp
qed

text \<open>C8: an accepted custom rule decides every packet it covers, whatever rules were there
  before, and changes the decision for no other port.\<close>

theorem service_added_rule_decides:
  assumes "service_add_custom api name port proto blocked s p = Inr (True, s', p')" and "sf_wf s"
  shows "(\<forall>q. proto_matches proto q \<longrightarrow> service_is_port_allowed q port s' = (\<not> blocked)) \<and>
    (\<forall>q dst. dst \<noteq> port \<longrightarrow> service_is_port_allowed q dst s' = service_is_port_allowed q dst s)"
  using assms by (auto simp: add_custom_decides add_custom_frame)

theorem service_added_rule_decides_witness:
  "\<exists>s' p'. service_add_custom ram_api (Some ''web'') 8080 SVC_PROTO_BOTH True service_boot
       \<lparr>plog = log_init, pflash = ram_empty\<rparr> = Inr (True, s', p') \<and>
     \<not> service_is_port_allowed SVC_PROTO_TCP 8080 s' \<and> \<not> service_is_port_allowed SVC_PROTO_UDP 8080 s'"
proof -
  have "first_idx (\<lambda>r. \<not> cr_active r) (g_custom_rules service_boot) = Some 0"
    by (simp add: boot_rules) (simp add: zero_rule_def)
  then obtain s' p' where add: "service_add_custom ram_api (Some ''web'') 8080 SVC_PROTO_BOTH True service_boot
       \<lparr>plog = log_init, pflash = ram_empty\<rparr> = Inr (True, s', p')"
    using add_custom_inserts [OF sf_wf_boot, of 8080 SVC_PROTO_BOTH 0 ram_api "''web''" True
        "\<lparr>plog = log_init, pflash = ram_empty\<rparr>"]
    by (auto simp: service_boot_def)
  moreover have "proto_matches SVC_PROTO_BOTH q" for q by (simp add: proto_matches_def)
  ultimately show ?thesis using service_added_rule_decides [OF add sf_wf_boot] by blast
qed

text \<open>An addition is refused exactly when there is no name, the port is 0, or no rule with
  the same port and an overlapping protocol exists and all twenty slots are in use; then
  nothing changes.\<close>

theorem service_add_refused_iff:
  assumes "sf_wf s"
  shows "service_add_custom api name port proto blocked s p = Inr (False, s', p') \<longleftrightarrow>
    (name = None \<or> port = 0 \<or>
      (\<forall>r \<in> set (g_custom_rules s). cr_active r \<and> \<not> same_rule port proto r)) \<and> s' = s \<and> p' = p"
proof -
  have take: "take MAX_CUSTOM_PORT_RULES (g_custom_rules s) = g_custom_rules s"
    using sf_wf_rules [OF assms] by simp
  show ?thesis
    by (cases "first_idx (same_rule port proto) (g_custom_rules s)";
        cases "first_idx (\<lambda>r. \<not> cr_active r) (g_custom_rules s)")
      (auto simp: service_add_custom_def take Let_def cres_simps first_idx_None
        dest!: first_idx_Some_ex split: option.split if_splits)
qed

theorem service_add_refused_iff_witness:
  "service_add_custom ram_api (Some ''web'') 0 SVC_PROTO_BOTH True service_boot plat0 = Inr (False, service_boot, plat0)"
  using service_add_refused_iff [OF sf_wf_boot, of ram_api "Some ''web''" 0 SVC_PROTO_BOTH True plat0 service_boot plat0]
  by simp

text \<open>A built-in service blocked or allowed by its id decides its own port and protocol,
  as long as no custom rule covers them.\<close>

theorem service_set_blocked_decides:
  assumes "service_set_blocked api sid blocked s p = Inr (s', p')" and "sf_wf s"
    and "sid \<noteq> SVC_BUILTIN_COUNT" and "r = builtin_services ! service_index sid"
    and "\<forall>c \<in> set (g_custom_rules s). \<not> custom_hit (sr_proto r) (sr_port r) c"
  shows "service_is_port_allowed (sr_proto r) (sr_port r) s' = (\<not> blocked)"
  using assms by (intro set_blocked_decides) (auto simp: first_idx_None)

theorem service_set_blocked_decides_witness:
  "\<exists>s' p'. service_set_blocked ram_api SVC_SSH True service_boot \<lparr>plog = log_init, pflash = ram_empty\<rparr>
       = Inr (s', p') \<and> \<not> service_is_port_allowed SVC_PROTO_TCP 22 s'"
proof -
  obtain s' p' where set: "service_set_blocked ram_api SVC_SSH True service_boot
      \<lparr>plog = log_init, pflash = ram_empty\<rparr> = Inr (s', p')"
    using service_set_blocked_defined by blast
  let ?r = "builtin_services ! service_index SVC_SSH"
  have r: "sr_proto ?r = SVC_PROTO_TCP" "sr_port ?r = 22"
    by (simp_all add: builtin_services_def builtin_def)
  have "\<forall>c \<in> set (g_custom_rules service_boot). \<not> custom_hit (sr_proto ?r) (sr_port ?r) c"
    by (simp add: service_boot_def custom_hit_def zero_rule_def)
  then have "service_is_port_allowed (sr_proto ?r) (sr_port ?r) s' = (\<not> True)"
    using set by (intro service_set_blocked_decides [OF set sf_wf_boot _ refl]) simp_all
  then show ?thesis using set r by auto
qed

text \<open>While no two active rules overlap, removing the rule of one protocol on a port hands
  that port back to the built-in services; and additions for a single protocol never create an
  overlap.\<close>

theorem service_removed_rule_gone:
  assumes "service_remove_custom api port proto s p = Inr (True, s', p')" and "sf_wf s"
    and "exclusive (g_custom_rules s)" and "proto \<noteq> SVC_PROTO_BOTH"
  shows "service_is_port_allowed proto port s' = builtin_allowed proto port (g_services s) \<and>
    (\<forall>api name q b p1 ok t p2. service_add_custom api name q proto b s p1 = Inr (ok, t, p2) \<longrightarrow>
       exclusive (g_custom_rules t))"
  using assms remove_custom_restores add_custom_exclusive by blast

theorem service_removed_rule_gone_witness:
  "\<exists>s1 p1 s' p'. service_add_custom ram_api (Some ''a'') 80 SVC_PROTO_TCP True service_boot
       \<lparr>plog = log_init, pflash = ram_empty\<rparr> = Inr (True, s1, p1) \<and>
     service_remove_custom ram_api 80 SVC_PROTO_TCP s1 p1 = Inr (True, s', p') \<and>
     service_is_port_allowed SVC_PROTO_TCP 80 s'"
proof -
  have "first_idx (\<lambda>r. \<not> cr_active r) (g_custom_rules service_boot) = Some 0"
    by (simp add: boot_rules) (simp add: zero_rule_def)
  then obtain s1 p1 where add: "service_add_custom ram_api (Some ''a'') 80 SVC_PROTO_TCP True service_boot
       \<lparr>plog = log_init, pflash = ram_empty\<rparr> = Inr (True, s1, p1)"
    and rules: "g_custom_rules s1 = (g_custom_rules service_boot)[0 :=
      \<lparr>cr_name = strncpy_z MAX_SERVICE_NAME_LEN ''a'', cr_port = 80, cr_proto = SVC_PROTO_TCP,
        cr_blocked = True, cr_active = True\<rparr>]" and wf: "sf_wf s1"
    using add_custom_inserts [OF sf_wf_boot, of 80 SVC_PROTO_TCP 0 ram_api "''a''" True
        "\<lparr>plog = log_init, pflash = ram_empty\<rparr>"]
    by (auto simp: service_boot_def)
  have "first_idx (same_rule 80 SVC_PROTO_TCP) (g_custom_rules s1) = Some 0"
    by (simp add: rules boot_rules same_rule_def)
  then obtain s' p' where rm: "service_remove_custom ram_api 80 SVC_PROTO_TCP s1 p1 = Inr (True, s', p')"
    using remove_custom_removes [OF wf] by blast
  have ex: "exclusive (g_custom_rules s1)"
    using add_custom_exclusive [OF add sf_wf_boot exclusive_boot] by (simp add: svc_protos)
  have "g_services s1 = builtin_services"
    using add by (cases rule: service_add_custom_cases [OF add sf_wf_boot]) (simp_all add: service_boot_def)
  then have "builtin_allowed SVC_PROTO_TCP 80 (g_services s1)"
    by (simp add: builtin_allowed_def builtin_services_def builtin_def)
  then show ?thesis
    using add rm service_removed_rule_gone [OF rm wf ex] by (auto simp: svc_protos)
qed

text \<open>An addition for both protocols does create an overlap: after blocking TCP and UDP on a
  port one by one, allowing both and removing the rule for both, which all succeed, UDP is
  still blocked on that port.\<close>

theorem service_both_leaves_stale_rule:
  assumes "port \<noteq> 0"
  shows "\<exists>s' p' s'' p''. run_ops (service_step api)
      [Add_custom (Some ''t'') port SVC_PROTO_TCP True, Add_custom (Some ''u'') port SVC_PROTO_UDP True,
       Add_custom (Some ''b'') port SVC_PROTO_BOTH False] (service_boot, p) = Inr (s', p') \<and>
     service_remove_custom api port SVC_PROTO_BOTH s' p' = Inr (True, s'', p'') \<and>
     \<not> service_is_port_allowed SVC_PROTO_UDP port s''"
proof -
  note False = assms
  let ?rule = "\<lambda>n q b. \<lparr>cr_name = strncpy_z MAX_SERVICE_NAME_LEN n, cr_port = port, cr_proto = q,
    cr_blocked = b, cr_active = True\<rparr>"
  let ?z = "zero_rule # replicate 18 zero_rule"
  have z: "\<not> cr_active zero_rule" "\<And>q. \<not> same_rule port q zero_rule"
    by (simp_all add: zero_rule_def same_rule_def)
  have "first_idx (\<lambda>r. \<not> cr_active r) (g_custom_rules service_boot) = Some 0"
    by (simp add: boot_rules z)
  then obtain s1 p1 where 1: "service_add_custom api (Some ''t'') port SVC_PROTO_TCP True service_boot p = Inr (True, s1, p1)"
    and r1: "g_custom_rules s1 = ?rule ''t'' SVC_PROTO_TCP True # ?z" and w1: "sf_wf s1"
    using add_custom_inserts [OF sf_wf_boot False, of SVC_PROTO_TCP 0 api "''t''" True p]
    by (auto simp: boot_rules z)
  have "first_idx (same_rule port SVC_PROTO_UDP) (g_custom_rules s1) = None"
    by (simp add: r1 z) (simp add: same_rule_def svc_protos)
  moreover have "first_idx (\<lambda>r. \<not> cr_active r) (g_custom_rules s1) = Some 1"
    by (simp add: r1 z)
  ultimately obtain s2 p2 where 2: "service_add_custom api (Some ''u'') port SVC_PROTO_UDP True s1 p1 = Inr (True, s2, p2)"
    and r2: "g_custom_rules s2 = ?rule ''t'' SVC_PROTO_TCP True # ?rule ''u'' SVC_PROTO_UDP True # replicate 18 zero_rule"
    and w2: "sf_wf s2"
    using add_custom_inserts [OF w1 False, of SVC_PROTO_UDP 1 api "''u''" True p1] by (auto simp: r1)
  have "first_idx (same_rule port SVC_PROTO_BOTH) (g_custom_rules s2) = Some 0"
    by (simp add: r2 same_rule_def)
  then obtain s3 p3 where 3: "service_add_custom api (Some ''b'') port SVC_PROTO_BOTH False s2 p2 = Inr (True, s3, p3)"
    and r3: "g_custom_rules s3 = ?rule ''b'' SVC_PROTO_BOTH False # ?rule ''u'' SVC_PROTO_UDP True # replicate 18 zero_rule"
    and w3: "sf_wf s3"
    using add_custom_updates [OF w2 False, of SVC_PROTO_BOTH 0 api "''b''" False p2] by (auto simp: r2)
  have "first_idx (same_rule port SVC_PROTO_BOTH) (g_custom_rules s3) = Some 0"
    by (simp add: r3 same_rule_def)
  then obtain s4 p4 where 4: "service_remove_custom api port SVC_PROTO_BOTH s3 p3 = Inr (True, s4, p4)"
    and r4: "g_custom_rules s4 = zero_rule # ?rule ''u'' SVC_PROTO_UDP True # replicate 18 zero_rule"
    and w4: "sf_wf s4"
    using remove_custom_removes [OF w3, of port SVC_PROTO_BOTH 0 api p3] by (auto simp: r3)
  have "first_idx (custom_hit SVC_PROTO_UDP port) (g_custom_rules s4) = Some 1"
    by (simp add: r4) (simp add: custom_hit_def zero_rule_def proto_matches_def)
  then have "\<not> service_is_port_allowed SVC_PROTO_UDP port s4"
    by (simp add: service_is_port_allowed_eq [OF w4]) (simp add: r4)
  then show ?thesis using 1 2 3 4 by simp
qed

theorem service_both_leaves_stale_rule_witness:
  "\<exists>s' p' s'' p''. run_ops (service_step ram_api)
      [Add_custom (Some ''t'') 5353 SVC_PROTO_TCP True, Add_custom (Some ''u'') 5353 SVC_PROTO_UDP True,
       Add_custom (Some ''b'') 5353 SVC_PROTO_BOTH False]
      (service_boot, \<lparr>plog = log_init, pflash = ram_empty\<rparr>) = Inr (s', p') \<and>
     service_remove_custom ram_api 5353 SVC_PROTO_BOTH s' p' = Inr (True, s'', p'') \<and>
     \<not> service_is_port_allowed SVC_PROTO_UDP 5353 s''"
  by (rule service_both_leaves_stale_rule) simp

text \<open>Once the rules are on the disk, any sequence of operations followed by a restart of the
  chip leaves exactly the rules in force before the restart: every operation that changes them
  has saved them.\<close>

theorem services_survive_restart:
  assumes flash: "nvs_reliable api view disk handles"
    and "sf_wf s" and "services_on_disk disk s p"
    and run: "run_ops (service_step api) ops (s, p) = Inr (s', p')"
  shows "\<exists>p2. init_service_filter api service_boot (p'\<lparr>pflash := nvs_reset api (pflash p')\<rparr>) = Inr (s', p2)"
  using assms(2-4) by (rule nvs_reliable.run_then_restart [OF flash])

theorem services_survive_restart_witness:
  "\<exists>p s' p' p2. save_service_rules ram_api service_boot \<lparr>plog = log_init, pflash = ram_empty\<rparr> = Inr p \<and>
     run_ops (service_step ram_api) [Set_blocked SVC_TELNET True, Add_custom (Some ''x'') 9 SVC_PROTO_UDP True]
       (service_boot, p) = Inr (s', p') \<and>
     init_service_filter ram_api service_boot (p'\<lparr>pflash := nvs_reset ram_api (pflash p')\<rparr>) = Inr (s', p2)"
proof -
  obtain p where p: "save_service_rules ram_api service_boot \<lparr>plog = log_init, pflash = ram_empty\<rparr> = Inr p"
    by (rule save_service_rules_Inr)
  have boot: "case (service_boot, p) of (s, p) \<Rightarrow> sf_wf s" by (simp add: sf_wf_boot)
  obtain s' p' where run: "run_ops (service_step ram_api) [Set_blocked SVC_TELNET True,
      Add_custom (Some ''x'') 9 SVC_PROTO_UDP True] (service_boot, p) = Inr (s', p')"
    using svc.run_defined [OF boot] by (metis is_defined_iff surj_pair)
  show ?thesis
    using p run services_survive_restart [OF ram.nvs_reliable_axioms sf_wf_boot ram.save_on_disk [OF p] run]
    by blast
qed

text \<open>The name lookup finds exactly the service whose name is given in any mixture of upper
  and lower case, however long the given text is.\<close>

theorem service_find_by_name_iff:
  assumes "sf_wf s" and "is_cstr nm" and "sid \<noteq> SVC_BUILTIN_COUNT"
  shows "service_find_by_name (Some nm) s = sid \<longleftrightarrow> strcaseeq nm (service_names ! service_index sid)"
  using assms by (rule find_by_name_index)

theorem service_find_by_name_iff_witness:
  "service_find_by_name (Some ''ftp-Data'') service_boot = SVC_FTP_DATA"
proof -
  have "strcaseeq ''ftp-Data'' (service_names ! service_index SVC_FTP_DATA)" by code_simp
  then show ?thesis using service_find_by_name_iff [OF sf_wf_boot, of "''ftp-Data''" SVC_FTP_DATA] by simp
qed

end
