(* ===== verification/Domain_Filter.thy ===== *)
theory Domain_Filter
  imports Nvs
begin

text \<open>
  The domain block list (\<open>main/domain_filter.c\<close>, \<open>main/domain_filter.h\<close>): fifty entries of
  a 128-byte name and an active flag, of which the first \<open>blocked_domain_count\<close> are in use.

  Removing a domain only clears its flag; the slot stays taken. The blob in NVS is the memory
  image of the array, 129 bytes per entry. The two lines written to the log when a domain
  is added or removed are formats without arguments, the second one being the domain itself.
\<close>

section \<open>Data\<close>

definition MAX_BLOCKED_DOMAINS :: nat where "MAX_BLOCKED_DOMAINS = 50"
definition MAX_DOMAIN_LENGTH :: nat where "MAX_DOMAIN_LENGTH = 128"

record blocked_domain =
  bd_domain :: string
  bd_active :: bool

record domain_filter =
  blocked_domains :: "blocked_domain list"
  blocked_domain_count :: nat

definition zero_domain :: blocked_domain where
  "zero_domain = \<lparr>bd_domain = replicate MAX_DOMAIN_LENGTH NUL, bd_active = False\<rparr>"

definition domain_boot :: domain_filter where
  "domain_boot = \<lparr>blocked_domains = replicate MAX_BLOCKED_DOMAINS zero_domain, blocked_domain_count = 0\<rparr>"

section \<open>Matching\<close>

definition to_lowercase :: "string \<Rightarrow> string" where
  "to_lowercase a = map c_tolower (cstr a) @ drop (length (cstr a)) a"

definition domain_matches :: "string \<Rightarrow> string \<Rightarrow> bool" where
  "domain_matches query pattern =
     (let query_lower = to_lowercase (strncpy_z MAX_DOMAIN_LENGTH query);
          pattern_lower = to_lowercase (strncpy_z MAX_DOMAIN_LENGTH pattern);
          q = cstr query_lower;
          pat = cstr pattern_lower
      in if q = pat then True
         else if pattern_lower ! 0 = CHR ''*'' \<and> pattern_lower ! 1 = CHR ''.'' \<and>
                 (let suf = cstr (drop 2 pattern_lower) in
                    length suf \<le> length q \<and> drop (length q - length suf) q = suf \<and>
                    (length q = length suf \<or> query_lower ! (length q - length suf - 1) = CHR ''.''))
              then True
         else if length pat < length q \<and> drop (length q - length pat) q = pat \<and>
                 query_lower ! (length q - length pat - 1) = CHR ''.''
              then True
         else False)"

definition is_domain_blocked :: "string option \<Rightarrow> domain_filter \<Rightarrow> bool" where
  "is_domain_blocked domain s = (case domain of
       None \<Rightarrow> False
     | Some d \<Rightarrow>
         if length d = 0 then False
         else first_idx (\<lambda>e. bd_active e \<and> domain_matches d (cstr (bd_domain e)))
                (take (blocked_domain_count s) (blocked_domains s)) \<noteq> None)"

section \<open>Saving and loading\<close>

definition DOMAIN_SIZE :: nat where "DOMAIN_SIZE = 129"

definition domain_bytes :: "blocked_domain \<Rightarrow> byte list" where
  "domain_bytes e = map byte_of_char (bd_domain e) @ [byte_of_bool (bd_active e)]"

definition domain_of_bytes :: "byte list \<Rightarrow> blocked_domain" where
  "domain_of_bytes b = \<lparr>bd_domain = map char_of_byte (take 128 b), bd_active = (b ! 128 \<noteq> 0)\<rparr>"

definition domains_bytes :: "blocked_domain list \<Rightarrow> byte list" where
  "domains_bytes ds = concat (map domain_bytes ds)"

definition domains_of_bytes :: "byte list \<Rightarrow> blocked_domain list" where
  "domains_of_bytes b = decode_array DOMAIN_SIZE domain_of_bytes MAX_BLOCKED_DOMAINS b"

definition NVS_KEY_DOMAINS :: string where "NVS_KEY_DOMAINS = ''blocked_domains''"

text \<open>The block that ends both \<open>add_blocked_domain\<close> and \<open>remove_blocked_domain\<close>.\<close>

definition save_blocked_domains :: "'f nvs_api \<Rightarrow> domain_filter \<Rightarrow> 'f plat \<Rightarrow> 'f plat" where
  "save_blocked_domains api s p =
     (case nvs_open api PARAM_NAMESPACE NVS_READWRITE (pflash p) of (err, nvs, f1) \<Rightarrow>
        if err = ESP_OK then
          (case nvs_set api nvs NVS_KEY_DOMAINS (NvBlob (domains_bytes (blocked_domains s))) f1 of
             (err2, f2) \<Rightarrow>
               let f3 = (if err2 = ESP_OK then snd (nvs_commit api nvs f2) else f2)
               in p\<lparr>pflash := nvs_close api nvs f3\<rparr>)
        else p\<lparr>pflash := f1\<rparr>)"

definition count_loaded :: "blocked_domain list \<Rightarrow> nat" where
  "count_loaded ds = fold (\<lambda>i c. if bd_active (ds ! i) \<and> 0 < length (cstr (bd_domain (ds ! i))) then i + 1 else c)
     [0..<MAX_BLOCKED_DOMAINS] 0"

definition init_domain_filter :: "'f nvs_api \<Rightarrow> domain_filter \<Rightarrow> 'f plat \<Rightarrow> domain_filter \<times> 'f plat" where
  "init_domain_filter api s p =
     (let s0 = \<lparr>blocked_domains = replicate MAX_BLOCKED_DOMAINS zero_domain, blocked_domain_count = 0\<rparr>
      in case nvs_open api PARAM_NAMESPACE NVS_READONLY (pflash p) of (err, nvs, f1) \<Rightarrow>
           if err = ESP_OK then
             let len = DOMAIN_SIZE * MAX_BLOCKED_DOMAINS;
                 s1 = (case nvs_get api nvs NVS_KEY_DOMAINS NVS_TYPE_BLOB len f1 of
                         Inr (NvBlob b) \<Rightarrow>
                           (let ds = domains_of_bytes (overlay b (domains_bytes (blocked_domains s0)))
                            in \<lparr>blocked_domains = ds, blocked_domain_count = count_loaded ds\<rparr>)
                       | _ \<Rightarrow> s0)
             in (s1, p\<lparr>pflash := nvs_close api nvs f1\<rparr>)
           else (s0, p\<lparr>pflash := f1\<rparr>))"

section \<open>Operations\<close>

definition add_blocked_domain ::
    "'f nvs_api \<Rightarrow> string option \<Rightarrow> domain_filter \<Rightarrow> 'f plat \<Rightarrow> (bool \<times> domain_filter \<times> 'f plat) cres" where
  "add_blocked_domain api domain s p = (case domain of
       None \<Rightarrow> Inr (False, s, p)
     | Some d \<Rightarrow>
         if length d = 0 \<or> MAX_DOMAIN_LENGTH \<le> length d then Inr (False, s, p)
         else (case first_idx (\<lambda>e. strcaseeq (cstr (bd_domain e)) d)
                      (take (blocked_domain_count s) (blocked_domains s)) of
           Some i \<Rightarrow>
             Inr (True, s\<lparr>blocked_domains := (blocked_domains s)
                            [i := (blocked_domains s ! i)\<lparr>bd_active := True\<rparr>]\<rparr>, p)
         | None \<Rightarrow>
             if blocked_domain_count s < MAX_BLOCKED_DOMAINS then
               let s1 = s\<lparr>blocked_domains := (blocked_domains s)[blocked_domain_count s :=
                            \<lparr>bd_domain = strncpy_z MAX_DOMAIN_LENGTH d, bd_active = True\<rparr>],
                          blocked_domain_count := blocked_domain_count s + 1\<rparr>
               in bindE (plat_log ''Blocked domain added:'' [] p) (\<lambda>p1.
                  bindE (plat_log d [] p1) (\<lambda>p2.
                  Inr (True, s1, save_blocked_domains api s1 p2)))
             else Inr (False, s, p)))"

definition remove_blocked_domain ::
    "'f nvs_api \<Rightarrow> string option \<Rightarrow> domain_filter \<Rightarrow> 'f plat \<Rightarrow> (bool \<times> domain_filter \<times> 'f plat) cres" where
  "remove_blocked_domain api domain s p = (case domain of
       None \<Rightarrow> Inr (False, s, p)
     | Some d \<Rightarrow>
         if length d = 0 then Inr (False, s, p)
         else (case first_idx (\<lambda>e. strcaseeq (cstr (bd_domain e)) d)
                      (take (blocked_domain_count s) (blocked_domains s)) of
           Some i \<Rightarrow>
             let s1 = s\<lparr>blocked_domains := (blocked_domains s)
                          [i := (blocked_domains s ! i)\<lparr>bd_active := False\<rparr>]\<rparr>
             in bindE (plat_log ''Blocked domain removed:'' [] p) (\<lambda>p1.
                bindE (plat_log d [] p1) (\<lambda>p2.
                Inr (True, s1, save_blocked_domains api s1 p2)))
         | None \<Rightarrow> Inr (False, s, p)))"

definition get_blocked_domains_count :: "domain_filter \<Rightarrow> nat" where
  "get_blocked_domains_count s = fold (\<lambda>i count. if bd_active (blocked_domains s ! i) then count + 1 else count)
     [0..<blocked_domain_count s] 0"

end
