(* ===== verification/Domain_Laws.thy ===== *)
theory Domain_Laws
  imports Domain_Filter "HOL-Library.Sublist"
begin

text \<open>
  Laws of the domain block list.

  \<^item> \<open>labels\<close> cuts a name at its dots, and \<open>name_covers\<close> is what a pattern is for: a name is
    covered when the labels of the pattern end its labels, whatever the case.
    \<open>domain_matches_covers\<close> shows that the string surgery of \<open>domain_matches\<close> computes just
    that, on the first 127 characters of the query.
  \<^item> \<open>domains_wf\<close> is the invariant of the table, \<open>blocked_names\<close> its abstraction to a set of
    lower-case names; addition and removal are insertion and deletion (\<open>name_filter\<close>).
  \<^item> the round trip through the flash and a restart.
\<close>

section \<open>Labels\<close>

abbreviation dot :: char where "dot \<equiv> CHR ''.''"

fun labels :: "string \<Rightarrow> string list" where
  "labels [] = [[]]"
| "labels (c # cs) = (if c = dot then [] # labels cs
     else (case labels cs of l # ls \<Rightarrow> (c # l) # ls | [] \<Rightarrow> [[c]]))"

fun join_labels :: "string list \<Rightarrow> string" where
  "join_labels [] = []"
| "join_labels [l] = l"
| "join_labels (l # ls) = l @ dot # join_labels ls"

lemma labels_not_Nil [simp]: "labels s \<noteq> []"
  by (cases s) (auto split: list.splits)

lemma labels_append_dot: "labels (a @ dot # b) = labels a @ labels b"
proof (induction a)
  case (Cons c a)
  obtain l ls where "labels a = l # ls" by (cases "labels a") simp_all
  then show ?case using Cons by simp
qed simp

lemma join_labels_Cons: "ls \<noteq> [] \<Longrightarrow> join_labels (l # ls) = l @ dot # join_labels ls"
  by (cases ls) auto

lemma join_labels_labels [simp]: "join_labels (labels s) = s"
proof (induction s)
  case (Cons c s)
  obtain l ls where s: "labels s = l # ls" by (cases "labels s") simp_all
  have "join_labels ((c # l) # ls) = c # join_labels (l # ls)" by (cases ls) simp_all
  then show ?case using Cons s by (auto simp: join_labels_Cons)
qed simp

lemma join_labels_append:
  "xs \<noteq> [] \<Longrightarrow> ys \<noteq> [] \<Longrightarrow> join_labels (xs @ ys) = join_labels xs @ dot # join_labels ys"
proof (induction xs)
  case (Cons x xs)
  then show ?case by (cases xs) (simp_all add: join_labels_Cons)
qed simp

lemma suffix_labels_iff: "suffix (labels p) (labels q) \<longleftrightarrow> q = p \<or> suffix (dot # p) q"
proof
  assume "suffix (labels p) (labels q)"
  then obtain zs where zs: "labels q = zs @ labels p" by (auto simp: suffix_def)
  show "q = p \<or> suffix (dot # p) q"
  proof (cases "zs = []")
    case True
    then have "join_labels (labels q) = join_labels (labels p)" using zs by simp
    then show ?thesis by simp
  next
    case False
    have "q = join_labels (zs @ labels p)" using zs by (metis join_labels_labels)
    then have "q = join_labels zs @ dot # p" by (simp add: join_labels_append False)
    then show ?thesis by (auto simp: suffix_def)
  qed
next
  assume "q = p \<or> suffix (dot # p) q"
  then show "suffix (labels p) (labels q)"
    by (auto simp: suffix_def labels_append_dot)
qed

lemma suffix_dot_iff:
  "suffix (dot # p) q \<longleftrightarrow> length p < length q \<and> drop (length q - length p) q = p \<and>
     q ! (length q - length p - 1) = dot"
proof
  assume "suffix (dot # p) q"
  then obtain z where "q = z @ dot # p" by (auto simp: suffix_def)
  then show "length p < length q \<and> drop (length q - length p) q = p \<and>
     q ! (length q - length p - 1) = dot" by (simp add: nth_append)
next
  assume *: "length p < length q \<and> drop (length q - length p) q = p \<and>
     q ! (length q - length p - 1) = dot"
  let ?k = "length q - length p - 1"
  have k: "?k < length q" "Suc ?k = length q - length p" using * by linarith+
  have "q = take ?k q @ q ! ?k # drop (Suc ?k) q" using k(1) by (rule id_take_nth_drop)
  also have "\<dots> = take ?k q @ dot # p" using * by (simp only: k(2))
  finally show "suffix (dot # p) q" by (metis suffixI)
qed

section \<open>What a pattern covers\<close>

definition lower :: "string \<Rightarrow> string" where
  "lower s = map c_tolower s"

definition name_covers :: "string \<Rightarrow> string \<Rightarrow> bool" where
  "name_covers pat q \<longleftrightarrow> suffix (labels pat) (labels q) \<or>
     (take 2 pat = ''*.'' \<and> suffix (labels (drop 2 pat)) (labels q))"

lemma is_cstr_lower [simp]: "is_cstr (lower s) \<longleftrightarrow> is_cstr s"
  by (simp add: lower_def)

lemma length_lower [simp]: "length (lower s) = length s"
  by (simp add: lower_def)

lemma lower_idem [simp]: "lower (lower s) = lower s"
  by (simp add: lower_def)

lemma lower_Nil [simp]: "lower s = [] \<longleftrightarrow> s = []" "lower [] = []"
  by (simp_all add: lower_def)

lemma lower_take: "lower (take n s) = take n (lower s)"
  by (simp add: lower_def take_map)

lemma strcaseeq_lower: "strcaseeq a b \<longleftrightarrow> lower a = lower b"
  by (simp add: strcaseeq_def lower_def)

lemma to_lowercase_strncpy:
  assumes "is_cstr s"
  shows "\<exists>k > 0. to_lowercase (strncpy_z MAX_DOMAIN_LENGTH s) = lower (take 127 s) @ replicate k NUL \<and>
    k = 128 - length (take 127 s)"
proof -
  have "cstr (strncpy_z MAX_DOMAIN_LENGTH s) = take 127 s"
    using assms by (simp add: cstr_strncpy_z MAX_DOMAIN_LENGTH_def)
  then have "to_lowercase (strncpy_z MAX_DOMAIN_LENGTH s) = lower (take 127 s) @
      replicate (128 - length (take 127 s)) NUL"
    by (simp add: to_lowercase_def lower_def strncpy_z_def MAX_DOMAIN_LENGTH_def min.commute)
  then show ?thesis by (intro exI [of _ "128 - length (take 127 s)"]) simp
qed

text \<open>The two comparisons of the code's tail match, on an array that goes on after the name.\<close>

lemma tail_match_dot:
  "length s < length q \<and> drop (length q - length s) q = s \<and>
     (q @ z) ! (length q - length s - 1) = dot \<longleftrightarrow> suffix (dot # s) q"
  by (auto simp: suffix_dot_iff nth_append)

lemma tail_match:
  "length s \<le> length q \<and> drop (length q - length s) q = s \<and>
     (length q = length s \<or> (q @ z) ! (length q - length s - 1) = dot) \<longleftrightarrow>
   suffix (labels s) (labels q)"
proof (cases "length s = length q")
  case False
  then have "length s \<le> length q \<longleftrightarrow> length s < length q" by auto
  then show ?thesis using False tail_match_dot [of s q z] by (auto simp: suffix_labels_iff)
qed (auto simp: suffix_labels_iff dest: suffix_length_le)

lemma domain_matches_covers:
  assumes "is_cstr q" and "is_cstr pat"
  shows "domain_matches q pat \<longleftrightarrow> name_covers (lower (take 127 pat)) (lower (take 127 q))"
proof -
  let ?q = "lower (take 127 q)" and ?p = "lower (take 127 pat)"
  obtain k where k: "k > 0" "k = 128 - length (take 127 q)" and
    ql: "to_lowercase (strncpy_z MAX_DOMAIN_LENGTH q) = ?q @ replicate k NUL"
    using to_lowercase_strncpy [OF assms(1)] by blast
  obtain m where m: "m > 0" "m = 128 - length (take 127 pat)" and
    pl: "to_lowercase (strncpy_z MAX_DOMAIN_LENGTH pat) = ?p @ replicate m NUL"
    using to_lowercase_strncpy [OF assms(2)] by blast
  have cq: "cstr (?q @ replicate k NUL) = ?q" and cp: "cstr (?p @ replicate m NUL) = ?p"
    using assms by (simp_all add: cstr_append_NULs is_cstr_take)
  have star: "(?p @ replicate m NUL) ! 0 = CHR ''*'' \<and> (?p @ replicate m NUL) ! 1 = dot \<longleftrightarrow>
      take 2 ?p = ''*.''" (is "?star \<longleftrightarrow> _")
  proof (cases ?p)
    case Nil
    then show ?thesis using m(1) by simp
  next
    case (Cons a as)
    then show ?thesis using m by (cases as) auto
  qed
  have star2: "(?p @ replicate m NUL) ! 0 = CHR ''*'' \<and> (?p @ replicate m NUL) ! 1 = dot \<and> x \<longleftrightarrow>
      take 2 ?p = ''*.'' \<and> x" for x using star by blast
  have suf: "cstr (drop 2 (?p @ replicate m NUL)) = drop 2 ?p" if "take 2 ?p = ''*.''"
  proof -
    have "drop 2 (?p @ replicate m NUL) = drop 2 ?p @ replicate m NUL"
      using arg_cong [OF that, of length] by (simp add: min_def split: if_splits)
    moreover have "is_cstr (drop 2 ?p)"
      using assms(2) by (intro is_cstr_drop) (simp add: is_cstr_take)
    ultimately show ?thesis by (simp only: cstr_append_NULs)
  qed
  have "domain_matches q pat \<longleftrightarrow> ?q = ?p \<or>
      (take 2 ?p = ''*.'' \<and> suffix (labels (drop 2 ?p)) (labels ?q)) \<or> suffix (dot # ?p) ?q"
    unfolding domain_matches_def Let_def ql pl cq cp star2 tail_match tail_match_dot
    using suf by (auto split: if_splits)
  then show ?thesis by (auto simp: name_covers_def suffix_labels_iff [of ?p])
qed

section \<open>The table\<close>

definition entry_wf :: "blocked_domain \<Rightarrow> bool" where
  "entry_wf e \<longleftrightarrow> length (bd_domain e) = MAX_DOMAIN_LENGTH \<and> terminated (bd_domain e)"

definition entry_name :: "blocked_domain \<Rightarrow> string" where
  "entry_name e = lower (cstr (bd_domain e))"

definition used :: "domain_filter \<Rightarrow> blocked_domain list" where
  "used s = take (blocked_domain_count s) (blocked_domains s)"

definition domains_wf :: "domain_filter \<Rightarrow> bool" where
  "domains_wf s \<longleftrightarrow> length (blocked_domains s) = MAX_BLOCKED_DOMAINS \<and>
     blocked_domain_count s \<le> MAX_BLOCKED_DOMAINS \<and> list_all entry_wf (blocked_domains s) \<and>
     list_all (\<lambda>e. \<not> bd_active e) (drop (blocked_domain_count s) (blocked_domains s)) \<and>
     [] \<notin> set (map entry_name (used s)) \<and> distinct (map entry_name (used s))"

definition blocked_names :: "domain_filter \<Rightarrow> string set" where
  "blocked_names s = set (map entry_name (filter bd_active (used s)))"

lemma length_cstr_terminated:
  assumes "terminated a"
  shows "length (cstr a) < length a"
proof -
  have "takeWhile (\<lambda>c. c \<noteq> NUL) a \<noteq> a"
    using assms by (auto simp: takeWhile_eq_all_conv terminated_def)
  then show ?thesis
    by (metis cstr_def length_takeWhile_le le_neq_implies_less takeWhile_eq_take take_all_iff nle_le)
qed

lemma entry_wf_zero [simp]: "entry_wf zero_domain"
  by (simp add: entry_wf_def zero_domain_def terminated_def MAX_DOMAIN_LENGTH_def)

lemma entry_wf_new [simp]: "entry_wf \<lparr>bd_domain = strncpy_z MAX_DOMAIN_LENGTH d, bd_active = b\<rparr>"
  by (simp add: entry_wf_def terminated_strncpy_z MAX_DOMAIN_LENGTH_def)

lemma entry_wf_active [simp]: "entry_wf (e\<lparr>bd_active := b\<rparr>) = entry_wf e"
  by (simp add: entry_wf_def)

lemma entry_name_active [simp]: "entry_name (e\<lparr>bd_active := b\<rparr>) = entry_name e"
  by (simp add: entry_name_def)

lemma entry_name_new:
  "is_cstr d \<Longrightarrow> length d < MAX_DOMAIN_LENGTH \<Longrightarrow>
     entry_name \<lparr>bd_domain = strncpy_z MAX_DOMAIN_LENGTH d, bd_active = b\<rparr> = lower d"
  by (simp add: entry_name_def cstr_strncpy_z)

lemma domains_wf_boot: "domains_wf domain_boot"
  by (simp add: domains_wf_def domain_boot_def used_def list_all_length zero_domain_def)
    (simp add: entry_wf_def terminated_def MAX_DOMAIN_LENGTH_def)

lemma blocked_names_boot: "blocked_names domain_boot = {}"
  by (simp add: blocked_names_def used_def domain_boot_def)

lemma domains_wfD:
  assumes "domains_wf s"
  shows "length (blocked_domains s) = 50" and "blocked_domain_count s \<le> 50"
    and "length (used s) = blocked_domain_count s"
  using assms by (simp_all add: domains_wf_def used_def MAX_BLOCKED_DOMAINS_def)

lemma blocked_names_short:
  assumes "domains_wf s" and "n \<in> blocked_names s"
  shows "length n \<le> 127" and "is_cstr n" and "n \<noteq> []"
proof -
  from assms(2) obtain e where e: "e \<in> set (used s)" "n = entry_name e"
    by (auto simp: blocked_names_def)
  then have "entry_wf e" "entry_name e \<noteq> []"
    using assms(1) by (auto simp: domains_wf_def list_all_iff used_def image_iff dest: in_set_takeD)
  then have "length (bd_domain e) = 128" and "terminated (bd_domain e)" and ne: "n \<noteq> []"
    using e(2) by (simp_all add: entry_wf_def MAX_DOMAIN_LENGTH_def)
  then have "length (cstr (bd_domain e)) < 128"
    using length_cstr_terminated by metis
  then show "length n \<le> 127" "is_cstr n" "n \<noteq> []"
    using e(2) ne by (simp_all add: entry_name_def)
qed

section \<open>Queries\<close>

lemma is_domain_blocked_names:
  assumes wf: "domains_wf s" and "is_cstr q" and "q \<noteq> []"
  shows "is_domain_blocked (Some q) s \<longleftrightarrow> (\<exists>n \<in> blocked_names s. name_covers n (take 127 (lower q)))"
proof -
  have "is_domain_blocked (Some q) s \<longleftrightarrow>
      (\<exists>e \<in> set (used s). bd_active e \<and> domain_matches q (cstr (bd_domain e)))"
    using \<open>q \<noteq> []\<close> by (auto simp: is_domain_blocked_def used_def first_idx_None)
  moreover have "domain_matches q (cstr (bd_domain e)) \<longleftrightarrow> name_covers (entry_name e) (take 127 (lower q))"
    if "e \<in> set (used s)" "bd_active e" for e
  proof -
    have "entry_name e \<in> blocked_names s" using that by (auto simp: blocked_names_def)
    then have "length (cstr (bd_domain e)) \<le> 127"
      using blocked_names_short(1) [OF wf] by (force simp: entry_name_def)
    then show ?thesis
      by (simp add: domain_matches_covers [OF assms(2) is_cstr_cstr] entry_name_def lower_take)
  qed
  ultimately show ?thesis by (auto simp: blocked_names_def)
qed

lemma get_blocked_domains_count_card:
  assumes "domains_wf s"
  shows "get_blocked_domains_count s = card (blocked_names s)"
proof -
  have count: "fold (\<lambda>i c. if P (xs ! i) then c + 1 else c) [0..<n] 0 = length (filter P (take n xs))"
    if "n \<le> length xs" for n and P :: "blocked_domain \<Rightarrow> bool" and xs
    using that by (induction n) (auto simp: take_Suc_conv_app_nth)
  have "distinct (map entry_name (filter bd_active (used s)))"
    using assms by (auto simp: domains_wf_def distinct_map_filter)
  then have "card (blocked_names s) = length (filter bd_active (used s))"
    unfolding blocked_names_def by (metis distinct_card length_map)
  then show ?thesis
    using domains_wfD [OF assms] by (simp add: get_blocked_domains_count_def count used_def)
qed

end
