(* ===== verification/Domain_Store.thy ===== *)
theory Domain_Store
  imports Domain_Laws
begin

text \<open>
  The operations on the domain block list as insertion into and deletion from a set of
  names, the interface \<open>name_filter\<close> they provide, and the list's life across a restart.
\<close>

section \<open>The operations on the table\<close>

lemma used_update:
  "i < blocked_domain_count s \<Longrightarrow>
     used (s\<lparr>blocked_domains := (blocked_domains s)[i := e]\<rparr>) = (used s)[i := e]"
  by (simp add: used_def take_update_swap)

lemma used_nth: "domains_wf s \<Longrightarrow> i < blocked_domain_count s \<Longrightarrow> used s ! i = blocked_domains s ! i"
  using domains_wfD [of s] by (simp add: used_def)

lemma flag_update:
  fixes b :: bool
  assumes wf: "domains_wf s" and i: "i < blocked_domain_count s"
    and s1: "s1 = s\<lparr>blocked_domains := (blocked_domains s)[i := (blocked_domains s ! i)\<lparr>bd_active := b\<rparr>]\<rparr>"
  shows "domains_wf s1"
    and "blocked_names s1 = (if b then insert (entry_name (blocked_domains s ! i)) (blocked_names s)
       else blocked_names s - {entry_name (blocked_domains s ! i)})"
proof -
  let ?e = "(blocked_domains s ! i)\<lparr>bd_active := b\<rparr>"
  let ?n = "\<lambda>j. entry_name (used s ! j)"
  from domains_wfD [OF wf] have len: "length (blocked_domains s) = 50" "blocked_domain_count s \<le> 50"
    "length (used s) = blocked_domain_count s" by auto
  have u: "used s1 = (used s)[i := ?e]" using i s1 by (simp add: used_update)
  have names: "map entry_name (used s1) = map entry_name (used s)"
    using i len by (simp add: u map_update used_nth [OF wf, symmetric] list_update_same_conv)
  have e: "entry_wf ?e" using wf i len by (simp add: domains_wf_def list_all_length)
  show "domains_wf s1"
    using wf i e names s1 by (auto simp: domains_wf_def intro: list_all_update)
  have dist: "?n j = ?n i \<longleftrightarrow> j = i" if "j < blocked_domain_count s" for j
    using wf that i len by (auto simp: domains_wf_def distinct_conv_nth)
  have ix: "blocked_names t = {entry_name (used t ! j) | j. j < length (used t) \<and> bd_active (used t ! j)}" for t
    by (force simp: blocked_names_def in_set_conv_nth)
  have el: "entry_name ((used s)[i := ?e] ! j) = ?n j" "bd_active ((used s)[i := ?e] ! j) = (if j = i then b else bd_active (used s ! j))"
    if "j < blocked_domain_count s" for j
    using that i len by (simp_all add: used_nth [OF wf, symmetric] nth_list_update)
  have "blocked_names s1 = {?n j | j. j < blocked_domain_count s \<and> (if j = i then b else bd_active (used s ! j))}"
    unfolding ix u by (intro Collect_cong ex_cong1) (auto simp: el len used_nth [OF wf i])
  also have "\<dots> = (if b then insert (?n i) (blocked_names s) else blocked_names s - {?n i})"
    unfolding ix len(3) using dist i by (cases b) force+
  finally show "blocked_names s1 = (if b then insert (entry_name (blocked_domains s ! i)) (blocked_names s)
       else blocked_names s - {entry_name (blocked_domains s ! i)})"
    by (simp add: used_nth [OF wf i])
qed

lemma append_entry:
  assumes wf: "domains_wf s" and room: "blocked_domain_count s < MAX_BLOCKED_DOMAINS"
    and d: "is_cstr d" "d \<noteq> []" "length d < MAX_DOMAIN_LENGTH"
    and new: "lower d \<notin> set (map entry_name (used s))"
    and s1: "s1 = s\<lparr>blocked_domains := (blocked_domains s)[blocked_domain_count s :=
        \<lparr>bd_domain = strncpy_z MAX_DOMAIN_LENGTH d, bd_active = True\<rparr>],
        blocked_domain_count := blocked_domain_count s + 1\<rparr>"
  shows "domains_wf s1" and "blocked_names s1 = insert (lower d) (blocked_names s)"
proof -
  let ?e = "\<lparr>bd_domain = strncpy_z MAX_DOMAIN_LENGTH d, bd_active = True\<rparr>"
  from domains_wfD [OF wf] have len: "length (blocked_domains s) = 50" by auto
  have u: "used s1 = used s @ [?e]"
    using room len s1 by (simp add: used_def MAX_BLOCKED_DOMAINS_def take_Suc_conv_app_nth)
  have n: "entry_name ?e = lower d" using d by (simp add: entry_name_new)
  have "drop (blocked_domain_count s1) (blocked_domains s1) =
      drop (blocked_domain_count s + 1) (blocked_domains s)" using s1 by simp
  moreover have "list_all P (drop (blocked_domain_count s + 1) xs)"
    if "list_all P (drop (blocked_domain_count s) xs)" for P and xs :: "blocked_domain list"
    using that by (metis add.commute drop_drop list_all_iff in_set_dropD plus_1_eq_Suc)
  moreover have "[] \<noteq> lower d" using d by (metis lower_Nil(1))
  ultimately have "[] \<noteq> lower d \<and> list_all (\<lambda>e. \<not> bd_active e) (drop (blocked_domain_count s1) (blocked_domains s1))"
    using wf by (simp add: domains_wf_def)
  then show "domains_wf s1"
    using wf room new d u n s1 by (auto simp: domains_wf_def intro: list_all_update)
  show "blocked_names s1 = insert (lower d) (blocked_names s)"
    by (simp add: blocked_names_def u n)
qed

text \<open>The lookup both operations start with.\<close>

definition find_domain :: "string \<Rightarrow> domain_filter \<Rightarrow> nat option" where
  "find_domain d s = first_idx (\<lambda>e. strcaseeq (cstr (bd_domain e)) d) (used s)"

lemma find_domain_None: "find_domain d s = None \<longleftrightarrow> lower d \<notin> set (map entry_name (used s))"
  by (auto simp: find_domain_def first_idx_None strcaseeq_lower entry_name_def image_iff)

lemma find_domain_Some:
  assumes "domains_wf s" and "find_domain d s = Some i"
  shows "i < blocked_domain_count s" and "entry_name (blocked_domains s ! i) = lower d"
  using first_idx_SomeD [OF assms(2) [unfolded find_domain_def]] domains_wfD [OF assms(1)]
    used_nth [OF assms(1), of i]
  by (auto simp: strcaseeq_lower entry_name_def)

lemma find_domain_active:
  assumes wf: "domains_wf s" and f: "find_domain d s = Some i"
  shows "bd_active (blocked_domains s ! i) \<longleftrightarrow> lower d \<in> blocked_names s"
proof -
  note i = find_domain_Some [OF wf f]
  have dist: "entry_name (used s ! j) = entry_name (used s ! i) \<longleftrightarrow> j = i" if "j < blocked_domain_count s" for j
    using wf that i(1) domains_wfD [OF wf] by (auto simp: domains_wf_def distinct_conv_nth)
  have u: "used s ! i \<in> set (used s)" using i(1) domains_wfD [OF wf] by simp
  show ?thesis
  proof
    assume "bd_active (blocked_domains s ! i)"
    then show "lower d \<in> blocked_names s"
      using u i used_nth [OF wf i(1)] by (force simp: blocked_names_def)
  next
    assume "lower d \<in> blocked_names s"
    then obtain j where "j < blocked_domain_count s" "bd_active (used s ! j)" "entry_name (used s ! j) = lower d"
      using domains_wfD [OF wf] by (auto simp: blocked_names_def in_set_conv_nth)
    then show "bd_active (blocked_domains s ! i)"
      using dist i used_nth [OF wf] by metis
  qed
qed

lemma blocked_names_found: "lower d \<in> blocked_names s \<Longrightarrow> find_domain d s \<noteq> None"
  by (auto simp: find_domain_None blocked_names_def)

section \<open>Every branch of the operations\<close>

lemma add_blocked_domain_cases:
  assumes "add_blocked_domain api domain s p = Inr (ok, s', p')"
  obtains
    (refused) "\<not> ok" "s' = s" "p' = p"
      "domain = None \<or> (\<exists>d. domain = Some d \<and> (d = [] \<or> MAX_DOMAIN_LENGTH \<le> length d \<or>
         find_domain d s = None \<and> MAX_BLOCKED_DOMAINS \<le> blocked_domain_count s))"
  | (again) d i where "ok" "domain = Some d" "d \<noteq> []" "length d < MAX_DOMAIN_LENGTH"
      "find_domain d s = Some i" "p' = p"
      "s' = s\<lparr>blocked_domains := (blocked_domains s)[i := (blocked_domains s ! i)\<lparr>bd_active := True\<rparr>]\<rparr>"
  | (fresh) d p1 p2 where "ok" "domain = Some d" "d \<noteq> []" "length d < MAX_DOMAIN_LENGTH"
      "find_domain d s = None" "blocked_domain_count s < MAX_BLOCKED_DOMAINS"
      "s' = s\<lparr>blocked_domains := (blocked_domains s)[blocked_domain_count s :=
          \<lparr>bd_domain = strncpy_z MAX_DOMAIN_LENGTH d, bd_active = True\<rparr>],
          blocked_domain_count := blocked_domain_count s + 1\<rparr>"
      "plat_log ''Blocked domain added:'' [] p = Inr p1" "plat_log d [] p1 = Inr p2"
      "p' = save_blocked_domains api s' p2"
proof (cases domain)
  case None
  then show thesis using assms refused by (simp add: add_blocked_domain_def)
next
  case (Some d)
  show thesis
  proof (cases "d = [] \<or> MAX_DOMAIN_LENGTH \<le> length d")
    case True
    then show thesis using assms Some refused by (auto simp: add_blocked_domain_def)
  next
    case False
    then have d: "d \<noteq> []" "length d < MAX_DOMAIN_LENGTH" by auto
    show thesis
    proof (cases "find_domain d s")
      case (Some i)
      then show thesis using assms \<open>domain = Some d\<close> d again
        by (simp add: add_blocked_domain_def find_domain_def used_def)
    next
      case None
      show thesis
      proof (cases "blocked_domain_count s < MAX_BLOCKED_DOMAINS")
        case True
        then show thesis using assms \<open>domain = Some d\<close> d None fresh
          by (auto simp: add_blocked_domain_def find_domain_def used_def Let_def bindE_eq_Inr
              simp del: plat_log_plain)
      next
        case False
        then show thesis using assms \<open>domain = Some d\<close> d None refused
          by (auto simp: add_blocked_domain_def find_domain_def used_def)
      qed
    qed
  qed
qed

lemma remove_blocked_domain_cases:
  assumes "remove_blocked_domain api domain s p = Inr (ok, s', p')"
  obtains
    (absent) "\<not> ok" "s' = s" "p' = p"
      "domain = None \<or> (\<exists>d. domain = Some d \<and> (d = [] \<or> find_domain d s = None))"
  | (cleared) d i p1 p2 where "ok" "domain = Some d" "d \<noteq> []" "find_domain d s = Some i"
      "s' = s\<lparr>blocked_domains := (blocked_domains s)[i := (blocked_domains s ! i)\<lparr>bd_active := False\<rparr>]\<rparr>"
      "plat_log ''Blocked domain removed:'' [] p = Inr p1" "plat_log d [] p1 = Inr p2"
      "p' = save_blocked_domains api s' p2"
proof (cases domain)
  case None
  then show thesis using assms absent by (simp add: remove_blocked_domain_def)
next
  case (Some d)
  show thesis
  proof (cases "d = [] \<or> find_domain d s = None")
    case True
    then have "\<not> ok \<and> s' = s \<and> p' = p"
      using assms Some by (auto simp: remove_blocked_domain_def find_domain_def used_def split: if_splits)
    then show thesis using True Some absent by blast
  next
    case False
    then obtain i where "find_domain d s = Some i" "d \<noteq> []" by auto
    then show thesis using assms \<open>domain = Some d\<close> cleared
      by (auto simp: remove_blocked_domain_def find_domain_def used_def Let_def bindE_eq_Inr
          simp del: plat_log_plain)
  qed
qed

lemma add_blocked_domain_names:
  assumes "add_blocked_domain api (Some d) s p = Inr (ok, s', p')" and wf: "domains_wf s" and d: "is_cstr d"
  shows "domains_wf s'" and "blocked_names s' = (if ok then insert (lower d) (blocked_names s) else blocked_names s)"
  using assms(1)
proof (atomize (full), cases rule: add_blocked_domain_cases)
  case (again d' i)
  then show "domains_wf s' \<and> blocked_names s' = (if ok then insert (lower d) (blocked_names s) else blocked_names s)"
    using flag_update [OF wf _ again(7)] find_domain_Some [OF wf again(5)] by auto
next
  case (fresh d' p1 p2)
  then show "domains_wf s' \<and> blocked_names s' = (if ok then insert (lower d) (blocked_names s) else blocked_names s)"
    using append_entry [OF wf fresh(6) _ fresh(3,4) _ fresh(7)] d by (auto simp: find_domain_None)
qed (use wf in auto)

lemma remove_blocked_domain_names:
  assumes "remove_blocked_domain api (Some d) s p = Inr (ok, s', p')" and wf: "domains_wf s"
  shows "domains_wf s'" and "blocked_names s' = (if ok then blocked_names s - {lower d} else blocked_names s)"
  using assms(1)
proof (atomize (full), cases rule: remove_blocked_domain_cases)
  case (cleared d' i p1 p2)
  then show "domains_wf s' \<and> blocked_names s' = (if ok then blocked_names s - {lower d} else blocked_names s)"
    using flag_update [OF wf _ cleared(5)] find_domain_Some [OF wf cleared(4)] by auto
qed (use wf in auto)

section \<open>The interface to the DNS server and the web pages\<close>

text \<open>A filter of names: what a query is told depends on the set of blocked names only.\<close>

locale name_filter =
  fixes is_blocked :: "string \<Rightarrow> 's \<Rightarrow> bool"
    and names :: "'s \<Rightarrow> string set"
    and inv :: "'s \<Rightarrow> bool"
  assumes blocked_iff: "inv s \<Longrightarrow> is_cstr q \<Longrightarrow> q \<noteq> [] \<Longrightarrow>
      is_blocked q s \<longleftrightarrow> (\<exists>n \<in> names s. name_covers n (take 127 (lower q)))"
begin

lemma any_case: "inv s \<Longrightarrow> is_cstr q \<Longrightarrow> is_cstr q' \<Longrightarrow> q \<noteq> [] \<Longrightarrow> lower q = lower q' \<Longrightarrow>
    is_blocked q s = is_blocked q' s"
  using blocked_iff [of s q] blocked_iff [of s q'] by (metis lower_Nil(1))

lemma tail_ignored: "inv s \<Longrightarrow> is_cstr q \<Longrightarrow> is_cstr x \<Longrightarrow> 127 \<le> length q \<Longrightarrow>
    is_blocked (q @ x) s = is_blocked q s"
  using blocked_iff [of s q] blocked_iff [of s "q @ x"] by (cases q) (auto simp: lower_def)

lemma same_names: "inv s \<Longrightarrow> inv s' \<Longrightarrow> names s = names s' \<Longrightarrow> is_cstr q \<Longrightarrow> q \<noteq> [] \<Longrightarrow>
    is_blocked q s = is_blocked q s'"
  by (simp add: blocked_iff)

lemma no_names: "inv s \<Longrightarrow> names s = {} \<Longrightarrow> is_cstr q \<Longrightarrow> q \<noteq> [] \<Longrightarrow> \<not> is_blocked q s"
  by (simp add: blocked_iff)

end

text \<open>A filter of names with successful additions and removals as relations.\<close>

locale editable_name_filter = name_filter +
  fixes adds :: "string \<Rightarrow> 's \<Rightarrow> 's \<Rightarrow> bool"
    and removes :: "string \<Rightarrow> 's \<Rightarrow> 's \<Rightarrow> bool"
  assumes adds: "inv s \<Longrightarrow> is_cstr d \<Longrightarrow> adds d s s' \<Longrightarrow> inv s' \<and> names s' = insert (lower d) (names s)"
    and removes: "inv s \<Longrightarrow> is_cstr d \<Longrightarrow> removes d s s' \<Longrightarrow> inv s' \<and> names s' = names s - {lower d}"
begin

lemma added_decides: "inv s \<Longrightarrow> is_cstr d \<Longrightarrow> adds d s s' \<Longrightarrow> is_cstr q \<Longrightarrow> q \<noteq> [] \<Longrightarrow>
    is_blocked q s' \<longleftrightarrow> name_covers (lower d) (take 127 (lower q)) \<or> is_blocked q s"
  using adds [of s d s'] by (simp add: blocked_iff)

lemma removed_decides: "inv s \<Longrightarrow> is_cstr d \<Longrightarrow> removes d s s' \<Longrightarrow> is_cstr q \<Longrightarrow> q \<noteq> [] \<Longrightarrow>
    is_blocked q s' \<longleftrightarrow> (\<exists>n \<in> names s. n \<noteq> lower d \<and> name_covers n (take 127 (lower q)))"
  using removes [of s d s'] by (auto simp: blocked_iff)

end

interpretation dom: editable_name_filter "\<lambda>q. is_domain_blocked (Some q)" blocked_names domains_wf
    "\<lambda>d s s'. \<exists>(api::ram_flash nvs_api) p p'. add_blocked_domain api (Some d) s p = Inr (True, s', p')"
    "\<lambda>d s s'. \<exists>(api::ram_flash nvs_api) p p'. remove_blocked_domain api (Some d) s p = Inr (True, s', p')"
proof
  show "is_domain_blocked (Some q) s \<longleftrightarrow> (\<exists>n \<in> blocked_names s. name_covers n (take 127 (lower q)))"
    if "domains_wf s" "is_cstr q" "q \<noteq> []" for s q
    using that by (rule is_domain_blocked_names)
qed (auto dest: add_blocked_domain_names remove_blocked_domain_names)

section \<open>Sequences of operations\<close>

datatype domain_op = Block string | Unblock string

fun domain_step :: "'f nvs_api \<Rightarrow> domain_op \<Rightarrow> domain_filter \<times> 'f plat \<Rightarrow> (domain_filter \<times> 'f plat) cres" where
  "domain_step api (Block d) (s, p) =
     bindE (add_blocked_domain api (Some d) s p) (\<lambda>(ok, s', p'). Inr (s', p'))"
| "domain_step api (Unblock d) (s, p) =
     bindE (remove_blocked_domain api (Some d) s p) (\<lambda>(ok, s', p'). Inr (s', p'))"

fun op_name :: "domain_op \<Rightarrow> string" where
  "op_name (Block d) = d"
| "op_name (Unblock d) = d"

fun names_after :: "domain_op \<Rightarrow> string set \<Rightarrow> string set" where
  "names_after (Block d) N = insert (lower d) N"
| "names_after (Unblock d) N = N - {lower d}"

definition op_ok :: "domain_op \<Rightarrow> bool" where
  "op_ok x \<longleftrightarrow> is_cstr (op_name x) \<and> op_name x \<noteq> [] \<and> length (op_name x) < MAX_DOMAIN_LENGTH"

definition additions :: "domain_op list \<Rightarrow> nat" where
  "additions ops = length (filter (\<lambda>x. case x of Block _ \<Rightarrow> True | Unblock _ \<Rightarrow> False) ops)"

lemma domain_step_names:
  assumes step: "domain_step api x (s, p) = Inr (s', p')" and wf: "domains_wf s" and ok: "op_ok x"
  shows "domains_wf s'"
    and "blocked_domain_count s + additions [x] \<le> MAX_BLOCKED_DOMAINS \<Longrightarrow>
      blocked_names s' = names_after x (blocked_names s)"
    and "blocked_domain_count s' \<le> blocked_domain_count s + additions [x]"
proof -
  have "domains_wf s' \<and>
    (blocked_domain_count s + additions [x] \<le> MAX_BLOCKED_DOMAINS \<longrightarrow>
       blocked_names s' = names_after x (blocked_names s)) \<and>
    blocked_domain_count s' \<le> blocked_domain_count s + additions [x]"
  proof (cases x)
    case (Block d)
    then obtain r where add: "add_blocked_domain api (Some d) s p = Inr (r, s', p')"
      using step by (auto simp: cres_simps)
    have d: "is_cstr d" using ok Block by (simp add: op_ok_def)
    have "blocked_domain_count s < MAX_BLOCKED_DOMAINS \<longrightarrow> r"
      using add ok Block by (cases rule: add_blocked_domain_cases) (auto simp: op_ok_def)
    moreover have "blocked_domain_count s' \<le> blocked_domain_count s + 1"
      using add by (cases rule: add_blocked_domain_cases) auto
    ultimately show ?thesis
      using add_blocked_domain_names [OF add wf d] Block by (simp add: additions_def)
  next
    case (Unblock d)
    then obtain r where rm: "remove_blocked_domain api (Some d) s p = Inr (r, s', p')"
      using step by (auto simp: cres_simps)
    have "\<not> r \<longrightarrow> find_domain d s = None"
      using rm ok Unblock by (cases rule: remove_blocked_domain_cases) (auto simp: op_ok_def)
    then have "\<not> r \<longrightarrow> lower d \<notin> blocked_names s" using blocked_names_found by blast
    moreover have "blocked_domain_count s' = blocked_domain_count s"
      using rm by (cases rule: remove_blocked_domain_cases) auto
    ultimately show ?thesis
      using remove_blocked_domain_names [OF rm wf] Unblock by (auto split: if_splits)
  qed
  then show "domains_wf s'"
    and "blocked_domain_count s + additions [x] \<le> MAX_BLOCKED_DOMAINS \<Longrightarrow>
      blocked_names s' = names_after x (blocked_names s)"
    and "blocked_domain_count s' \<le> blocked_domain_count s + additions [x]" by blast+
qed

lemma domain_run_names:
  assumes "run_ops (domain_step api) ops (s, p) = Inr (s', p')" and "domains_wf s" and "list_all op_ok ops"
    and "blocked_domain_count s + additions ops \<le> MAX_BLOCKED_DOMAINS"
  shows "domains_wf s' \<and> blocked_names s' = fold names_after ops (blocked_names s)"
  using assms
proof (induction ops arbitrary: s p)
  case (Cons x ops)
  then obtain t q where step: "domain_step api x (s, p) = Inr (t, q)"
    and run: "run_ops (domain_step api) ops (t, q) = Inr (s', p')"
    by (auto simp: cres_simps)
  have x: "op_ok x" and ops: "list_all op_ok ops" using Cons.prems(3) by simp_all
  note t = domain_step_names [OF step Cons.prems(2) x]
  have "additions (x # ops) = additions [x] + additions ops" by (simp add: additions_def)
  then have "blocked_domain_count t + additions ops \<le> MAX_BLOCKED_DOMAINS"
    and "blocked_domain_count s + additions [x] \<le> MAX_BLOCKED_DOMAINS" using t(3) Cons.prems(4) by linarith+
  then show ?case using Cons.IH [OF run t(1) ops] t(2) by simp
qed simp

section \<open>The life of the list across a restart\<close>

lemma length_domain_bytes: "entry_wf e \<Longrightarrow> length (domain_bytes e) = DOMAIN_SIZE"
  by (simp add: domain_bytes_def entry_wf_def MAX_DOMAIN_LENGTH_def DOMAIN_SIZE_def)

lemma domain_of_domain_bytes:
  assumes "entry_wf e"
  shows "domain_of_bytes (domain_bytes e) = e"
proof -
  have len: "length (map byte_of_char (bd_domain e)) = 128"
    using assms by (simp add: entry_wf_def MAX_DOMAIN_LENGTH_def)
  have "map (char_of_byte \<circ> byte_of_char) (bd_domain e) = bd_domain e" by (simp add: comp_def)
  then show ?thesis using len by (simp add: domain_of_bytes_def domain_bytes_def nth_append)
qed

lemma domains_of_domains_bytes:
  assumes "list_all entry_wf ds" and "length ds = MAX_BLOCKED_DOMAINS"
  shows "domains_of_bytes (domains_bytes ds) = ds"
proof -
  have "decode_array DOMAIN_SIZE domain_of_bytes (length ds) (concat (map domain_bytes ds)) = ds"
    using assms(1)
    by (intro decode_array_concat) (auto simp: list_all_iff length_domain_bytes domain_of_domain_bytes)
  then show ?thesis by (simp add: domains_of_bytes_def domains_bytes_def assms(2))
qed

lemma length_domains_bytes: "list_all entry_wf ds \<Longrightarrow> length (domains_bytes ds) = length ds * DOMAIN_SIZE"
  unfolding domains_bytes_def
  by (intro length_concat_enc) (simp add: list_all_iff length_domain_bytes)

lemma last_hit_scan:
  "fold (\<lambda>i c. if P (xs ! i) then Suc i else c) [0..<n] 0 = scan_down P xs n"
  by (induction n) (simp_all add: upt_Suc)

lemma count_loaded_scan:
  "count_loaded ds = scan_down (\<lambda>e. bd_active e \<and> 0 < length (cstr (bd_domain e))) ds MAX_BLOCKED_DOMAINS"
  unfolding count_loaded_def Suc_eq_plus1 [symmetric] by (rule last_hit_scan)

text \<open>Loading the image of a good table forgets inactive slots at its end and nothing else.\<close>

lemma reloaded_table:
  assumes wf: "domains_wf s" and s2: "s2 = \<lparr>blocked_domains = blocked_domains s,
    blocked_domain_count = count_loaded (blocked_domains s)\<rparr>"
  shows "domains_wf s2" and "blocked_names s2 = blocked_names s"
proof -
  let ?ds = "blocked_domains s" and ?c = "count_loaded (blocked_domains s)"
  from domains_wfD [OF wf] have len: "length ?ds = 50" "blocked_domain_count s \<le> 50" by auto
  have off: "\<not> bd_active (?ds ! i)" if "blocked_domain_count s \<le> i" "i < 50" for i
  proof -
    have "?ds ! i \<in> set (drop (blocked_domain_count s) ?ds)"
      using that len by (metis in_set_conv_nth le_add_diff_inverse length_drop nth_drop diff_less_mono)
    then show ?thesis using wf by (auto simp: domains_wf_def list_all_iff)
  qed
  have named: "0 < length (cstr (bd_domain (?ds ! i)))" if "i < blocked_domain_count s" for i
  proof -
    have "?ds ! i \<in> set (used s)"
      using that len by (auto simp: used_def in_set_conv_nth)
    then have "entry_name (?ds ! i) \<noteq> []" using wf by (auto simp: domains_wf_def image_iff)
    then show ?thesis by (simp add: entry_name_def)
  qed
  have le50: "?c \<le> 50" by (metis count_loaded_scan scan_down_le MAX_BLOCKED_DOMAINS_def)
  have off': "\<not> bd_active (?ds ! i)" if "?c \<le> i" "i < 50" for i
    using scan_down_above [OF that(1) [unfolded count_loaded_scan]] that off named
    by (cases "i < blocked_domain_count s") (auto simp: MAX_BLOCKED_DOMAINS_def)
  have le: "?c \<le> blocked_domain_count s"
  proof (cases ?c)
    case (Suc k)
    then have "bd_active (?ds ! k)"
      using scan_down_top [OF Suc [unfolded count_loaded_scan]] by simp
    then show ?thesis using off [of k] le50 Suc by (cases "blocked_domain_count s \<le> k") auto
  qed simp
  have u: "used s2 = take ?c (used s)" using le s2 by (simp add: used_def min_def)
  have "list_all (\<lambda>e. \<not> bd_active e) (drop ?c ?ds)"
    using off' len by (auto simp: list_all_length)
  then show "domains_wf s2"
    using wf le50 s2 u by (auto simp: domains_wf_def take_map [symmetric] MAX_BLOCKED_DOMAINS_def
        dest: in_set_takeD)
  have all: "filter bd_active (take n ?ds) = filter bd_active ?ds"
    if "\<And>i. n \<le> i \<Longrightarrow> i < 50 \<Longrightarrow> \<not> bd_active (?ds ! i)" for n
  proof -
    have "filter bd_active (drop n ?ds) = []"
      using that len by (auto simp: filter_empty_conv in_set_conv_nth)
    then show ?thesis by (metis append_take_drop_id filter_append append_Nil2)
  qed
  show "blocked_names s2 = blocked_names s"
    using all [OF off] all [OF off'] s2 by (simp add: blocked_names_def used_def)
qed

definition domains_on_disk :: "('f \<Rightarrow> nvs_key \<Rightarrow> nvs_value option) \<Rightarrow> domain_filter \<Rightarrow> 'f plat \<Rightarrow> bool" where
  "domains_on_disk dsk s p \<longleftrightarrow>
     dsk (pflash p) (PARAM_NAMESPACE, NVS_KEY_DOMAINS) = Some (NvBlob (domains_bytes (blocked_domains s)))"

definition restart_domains :: "'f nvs_api \<Rightarrow> 'f plat \<Rightarrow> domain_filter" where
  "restart_domains api p = fst (init_domain_filter api domain_boot (p\<lparr>pflash := nvs_reset api (pflash p)\<rparr>))"

context nvs_reliable
begin

lemma save_blocked_domains_disk:
  "domains_on_disk disk s (save_blocked_domains api s p) \<and> domains_on_disk view s (save_blocked_domains api s p)"
proof -
  obtain h f1 where o: "nvs_open api PARAM_NAMESPACE NVS_READWRITE (pflash p) = (ESP_OK, h, f1)"
    and h1: "handles f1 = (handles (pflash p))(h \<mapsto> (PARAM_NAMESPACE, NVS_READWRITE))"
    by (rule open_rwE)
  from h1 have "handles f1 h = Some (PARAM_NAMESPACE, NVS_READWRITE)" by simp
  then obtain f2 where s2: "nvs_set api h NVS_KEY_DOMAINS (NvBlob (domains_bytes (blocked_domains s))) f1 = (ESP_OK, f2)"
    and v2: "view f2 = (view f1)((PARAM_NAMESPACE, NVS_KEY_DOMAINS) \<mapsto> NvBlob (domains_bytes (blocked_domains s)))"
    and h2: "handles f2 = handles f1" by (rule setE)
  from h1 h2 have "handles f2 h = Some (PARAM_NAMESPACE, NVS_READWRITE)" by simp
  then obtain f3 where s3: "nvs_commit api h f2 = (ESP_OK, f3)"
    and v3: "view f3 = view f2" and "handles f3 = handles f2"
    and d3: "\<forall>k. disk f3 (PARAM_NAMESPACE, k) = view f2 (PARAM_NAMESPACE, k)" by (rule commitE)
  show ?thesis
    by (simp add: domains_on_disk_def save_blocked_domains_def o s2 s3 Let_def close d3 v2 v3)
qed

lemma init_from_image:
  assumes wf: "domains_wf s" and d: "domains_on_disk view s p"
  shows "fst (init_domain_filter api s0 p) =
    \<lparr>blocked_domains = blocked_domains s, blocked_domain_count = count_loaded (blocked_domains s)\<rparr>"
proof -
  let ?f = "pflash p" and ?b = "domains_bytes (blocked_domains s)"
  have v: "view ?f (PARAM_NAMESPACE, NVS_KEY_DOMAINS) = Some (NvBlob ?b)"
    using d by (simp add: domains_on_disk_def)
  then have "view ?f (PARAM_NAMESPACE, NVS_KEY_DOMAINS) \<noteq> None" by simp
  then obtain h f1 where o: "nvs_open api PARAM_NAMESPACE NVS_READONLY ?f = (ESP_OK, h, f1)"
    and v1: "view f1 = view ?f"
    and h1: "handles f1 = (handles ?f)(h \<mapsto> (PARAM_NAMESPACE, NVS_READONLY))"
    by (rule open_roE)
  have tab: "list_all entry_wf (blocked_domains s)" "length (blocked_domains s) = MAX_BLOCKED_DOMAINS"
    using wf by (simp_all add: domains_wf_def)
  then have len: "length ?b = DOMAIN_SIZE * MAX_BLOCKED_DOMAINS" by (simp add: length_domains_bytes)
  have h: "handles f1 h = Some (PARAM_NAMESPACE, NVS_READONLY)" using h1 by simp
  have g: "nvs_get api h NVS_KEY_DOMAINS NVS_TYPE_BLOB (DOMAIN_SIZE * MAX_BLOCKED_DOMAINS) f1 = Inr (NvBlob ?b)"
    using get_complete [OF h, of NVS_KEY_DOMAINS "NvBlob ?b"] v v1 len by simp
  have "list_all entry_wf (replicate MAX_BLOCKED_DOMAINS zero_domain)" by (simp add: list_all_length)
  from length_domains_bytes [OF this]
  have "length ?b = length (domains_bytes (replicate MAX_BLOCKED_DOMAINS zero_domain))"
    using len by simp
  then show ?thesis
    by (simp add: init_domain_filter_def Let_def o g overlay_full
        domains_of_domains_bytes [OF tab])
qed

lemma restart_from_image:
  assumes "domains_wf s" and "domains_on_disk disk s p"
  shows "restart_domains api p =
    \<lparr>blocked_domains = blocked_domains s, blocked_domain_count = count_loaded (blocked_domains s)\<rparr>"
  unfolding restart_domains_def using assms by (intro init_from_image) (simp_all add: domains_on_disk_def reset)

lemma restart_keeps_names:
  assumes wf: "domains_wf s" and d: "domains_on_disk disk s p"
  shows "domains_wf (restart_domains api p)" and "blocked_names (restart_domains api p) = blocked_names s"
  using reloaded_table [OF wf restart_from_image [OF assms]] by auto

end

end
