(* ===== verification/Domain_Props.thy ===== *)
theory Domain_Props
  imports Domain_Store
begin

text \<open>
  What the domain block list promises: matching by labels, the operations as set operations,
  persistence, and the three places where the code falls short of it.
\<close>

section \<open>When the operations are defined\<close>

lemma plat_log_text_defined: "is_defined (plat_log d [] p) \<longleftrightarrow> percents_doubled d"
  unfolding c_format_Nil_defined [symmetric]
  by (cases "c_format d []") (simp_all add: plat_log_def add_log_line_def)

lemma is_defined_bindE: "is_defined (bindE r k) \<longleftrightarrow> (\<exists>x. r = Inr x \<and> is_defined (k x))"
  by (cases r) simp_all

lemma bind_log_defined: "is_defined (bindE (plat_log d [] q) (\<lambda>p2. Inr (f p2))) \<longleftrightarrow> percents_doubled d"
  by (cases "plat_log d [] q") (use plat_log_text_defined [of d q] in auto)

lemma add_blocked_domain_defined:
  "is_defined (add_blocked_domain api (Some d) s p) \<longleftrightarrow>
     d = [] \<or> MAX_DOMAIN_LENGTH \<le> length d \<or> find_domain d s \<noteq> None \<or>
     MAX_BLOCKED_DOMAINS \<le> blocked_domain_count s \<or> percents_doubled d"
  by (cases "find_domain d s")
    (auto simp: add_blocked_domain_def find_domain_def used_def Let_def bind_log_defined)

lemma remove_blocked_domain_defined:
  "is_defined (remove_blocked_domain api (Some d) s p) \<longleftrightarrow>
     d = [] \<or> find_domain d s = None \<or> percents_doubled d"
  by (cases "find_domain d s")
    (auto simp: remove_blocked_domain_def find_domain_def used_def Let_def bind_log_defined)

lemma domain_step_defined: "percents_doubled (op_name x) \<Longrightarrow> is_defined (domain_step api x (s, p))"
  using add_blocked_domain_defined [of api "op_name x" s p]
    remove_blocked_domain_defined [of api "op_name x" s p]
  by (cases x) (auto simp: is_defined_iff [of "add_blocked_domain api d s p" for d]
      is_defined_iff [of "remove_blocked_domain api d s p" for d])

lemma domain_run_defined:
  "list_all (\<lambda>x. percents_doubled (op_name x)) ops \<Longrightarrow> is_defined (run_ops (domain_step api) ops (s, p))"
proof (induction ops arbitrary: s p)
  case (Cons x ops)
  then obtain t q where "domain_step api x (s, p) = Inr (t, q)"
    using domain_step_defined [of x api s p] by (auto simp: is_defined_iff)
  then show ?case using Cons by simp
qed simp

text \<open>A list with one entry, for concrete runs.\<close>

definition evil :: string where "evil = ''evil.com''"

lemma evil_facts: "is_cstr evil" "length evil < MAX_DOMAIN_LENGTH" "evil \<noteq> []" "lower evil = evil"
  "percents_doubled evil"
  by (simp_all add: evil_def MAX_DOMAIN_LENGTH_def) code_simp

lemma evil_added:
  obtains s p where "add_blocked_domain ram_api (Some evil) domain_boot
      \<lparr>plog = log_init, pflash = ram_empty\<rparr> = Inr (True, s, p)"
    "domains_wf s" "blocked_names s = {evil}"
proof -
  let ?p = "\<lparr>plog = log_init, pflash = ram_empty\<rparr>"
  have "is_defined (add_blocked_domain ram_api (Some evil) domain_boot ?p)"
    by (simp add: add_blocked_domain_defined evil_facts)
  then obtain ok s p where add: "add_blocked_domain ram_api (Some evil) domain_boot ?p = Inr (ok, s, p)"
    by (auto simp: is_defined_iff)
  then have ok
    by (cases rule: add_blocked_domain_cases)
      (use evil_facts in \<open>auto simp: MAX_BLOCKED_DOMAINS_def domain_boot_def\<close>)
  then show thesis
    using that add add_blocked_domain_names [OF add domains_wf_boot]
    by (simp add: blocked_names_boot evil_facts)
qed

section \<open>Properties\<close>

text \<open>C10: the string comparison decides whether the dot-separated labels of the pattern (those
  after the star of a wildcard pattern) are the last labels of the queried name, whatever the
  case of either; of both texts only the first 127 characters count.\<close>

theorem domain_matches_iff_covers:
  assumes "is_cstr query" and "is_cstr pattern"
  shows "domain_matches query pattern \<longleftrightarrow>
    name_covers (lower (take 127 pattern)) (lower (take 127 query))"
  using assms by (rule domain_matches_covers)

theorem domain_matches_iff_covers_witness:
  "domain_matches ''Ads.Example.COM'' ''*.example.com'' \<and> domain_matches ''Example.com'' ''*.example.com'' \<and>
   \<not> domain_matches ''notexample.com'' ''example.com''"
proof -
  have "name_covers (lower (take 127 ''*.example.com'')) (lower (take 127 ''Ads.Example.COM''))"
    "name_covers (lower (take 127 ''*.example.com'')) (lower (take 127 ''Example.com''))"
    "\<not> name_covers (lower (take 127 ''example.com'')) (lower (take 127 ''notexample.com''))"
    by code_simp+
  then show ?thesis by (simp add: domain_matches_iff_covers)
qed

text \<open>C9: up to fifty additions, mixed with any number of removals, do to the list what
  insertion into and deletion from a set of names would do: the queries blocked afterwards are
  exactly those covered by a name of that set, and the reported count is its size.\<close>

theorem domain_operations_refine_set:
  assumes "run_ops (domain_step api) ops (domain_boot, p) = Inr (s', p')"
    and "list_all op_ok ops" and "additions ops \<le> MAX_BLOCKED_DOMAINS"
    and "is_cstr q" and "q \<noteq> []"
  shows "(is_domain_blocked (Some q) s' \<longleftrightarrow>
      (\<exists>n \<in> fold names_after ops {}. name_covers n (take 127 (lower q)))) \<and>
    get_blocked_domains_count s' = card (fold names_after ops {})"
proof -
  have "domains_wf s' \<and> blocked_names s' = fold names_after ops (blocked_names domain_boot)"
    using assms(1-3) domains_wf_boot by (intro domain_run_names) (simp_all add: domain_boot_def)
  then show ?thesis
    using dom.blocked_iff [OF _ assms(4,5)] get_blocked_domains_count_card
    by (auto simp: blocked_names_boot)
qed

theorem domain_operations_refine_set_witness:
  "\<exists>s' p'. run_ops (domain_step ram_api) [Block ''a.com'', Block ''b.org'', Unblock ''B.ORG'']
       (domain_boot, \<lparr>plog = log_init, pflash = ram_empty\<rparr>) = Inr (s', p') \<and>
     is_domain_blocked (Some ''www.A.com'') s' \<and> get_blocked_domains_count s' = 1"
proof -
  let ?ops = "[Block ''a.com'', Block ''b.org'', Unblock ''B.ORG'']"
  obtain s' p' where run: "run_ops (domain_step ram_api) ?ops
      (domain_boot, \<lparr>plog = log_init, pflash = ram_empty\<rparr>) = Inr (s', p')"
    using domain_run_defined [of ?ops ram_api domain_boot "\<lparr>plog = log_init, pflash = ram_empty\<rparr>"]
    by (auto simp: is_defined_iff)
  have low: "lower ''a.com'' = ''a.com''" "lower ''b.org'' = ''b.org''" "lower ''B.ORG'' = ''b.org''"
    by code_simp+
  have n: "fold names_after ?ops {} = {''a.com''}" unfolding fold.simps names_after.simps low by auto
  have ok: "list_all op_ok ?ops" by (simp add: op_ok_def MAX_DOMAIN_LENGTH_def)
  have m: "additions ?ops \<le> MAX_BLOCKED_DOMAINS" by (simp add: additions_def MAX_BLOCKED_DOMAINS_def)
  have "name_covers ''a.com'' (take 127 (lower ''www.A.com''))" by code_simp
  then show ?thesis
    using domain_operations_refine_set [OF run ok m, of "''www.A.com''"] n run by auto
qed

text \<open>Of a queried name only the first 127 characters are compared: whatever follows them,
  also the domain that is blocked, does not matter, although the DNS server accepts names of up
  to 253 characters.\<close>

theorem domain_block_ignores_tail:
  assumes "domains_wf s" and "is_cstr q" and "is_cstr x" and "127 \<le> length q"
  shows "is_domain_blocked (Some (q @ x)) s = is_domain_blocked (Some q) s"
  using assms by (rule dom.tail_ignored)

theorem domain_block_ignores_tail_witness:
  "\<exists>s p. add_blocked_domain ram_api (Some evil) domain_boot \<lparr>plog = log_init, pflash = ram_empty\<rparr>
       = Inr (True, s, p) \<and> is_domain_blocked (Some (''x.'' @ evil)) s \<and>
     \<not> is_domain_blocked (Some (replicate 127 CHR ''x'' @ ''.'' @ evil)) s"
proof -
  let ?d = evil and ?x = "replicate 127 CHR ''x''"
  obtain s p where add: "add_blocked_domain ram_api (Some ?d) domain_boot
      \<lparr>plog = log_init, pflash = ram_empty\<rparr> = Inr (True, s, p)"
    and s: "domains_wf s" "blocked_names s = {?d}" by (rule evil_added)
  have "name_covers ?d (take 127 (lower (''x.'' @ evil)))" by code_simp
  then have "is_domain_blocked (Some (''x.'' @ evil)) s" using s evil_facts by (simp add: dom.blocked_iff)
  moreover have "\<not> name_covers ?d (take 127 (lower ?x))" by code_simp
  then have "\<not> is_domain_blocked (Some ?x) s" using s by (simp add: dom.blocked_iff is_cstr_def)
  then have "\<not> is_domain_blocked (Some (?x @ (''.'' @ evil))) s"
    using domain_block_ignores_tail [OF s(1), of ?x "''.'' @ evil"] evil_facts(1) by (simp add: is_cstr_def)
  ultimately show ?thesis using add by auto
qed

text \<open>An accepted addition of a name that is not in the table, and any accepted removal,
  is in force after a restart of the chip, along with everything that was in force before.\<close>

theorem domain_changes_survive_restart:
  assumes flash: "nvs_reliable api view disk handles" and wf: "domains_wf s" and d: "is_cstr d"
    and change: "(add_blocked_domain api (Some d) s p = Inr (True, s', p') \<and> find_domain d s = None) \<or>
      remove_blocked_domain api (Some d) s p = Inr (True, s', p')"
  shows "blocked_names (restart_domains api p') = blocked_names s' \<and> domains_wf (restart_domains api p')"
proof -
  have "domains_wf s'" using change add_blocked_domain_names [OF _ wf d] remove_blocked_domain_names [OF _ wf] by blast
  moreover have "\<exists>p2. p' = save_blocked_domains api s' p2"
    using change
    by (elim disjE conjE; (elim add_blocked_domain_cases | elim remove_blocked_domain_cases)) auto
  then have "domains_on_disk disk s' p'" using nvs_reliable.save_blocked_domains_disk [OF flash] by blast
  ultimately show ?thesis
    using nvs_reliable.restart_keeps_names [OF flash] by blast
qed

theorem domain_changes_survive_restart_witness:
  "\<exists>s p. add_blocked_domain ram_api (Some evil) domain_boot \<lparr>plog = log_init, pflash = ram_empty\<rparr>
       = Inr (True, s, p) \<and> blocked_names (restart_domains ram_api p) = {evil}"
proof -
  obtain s p where add: "add_blocked_domain ram_api (Some evil) domain_boot
      \<lparr>plog = log_init, pflash = ram_empty\<rparr> = Inr (True, s, p)" and s: "blocked_names s = {evil}"
    by (rule evil_added)
  have "find_domain evil domain_boot = None" by (simp add: find_domain_None used_def domain_boot_def)
  then have "blocked_names (restart_domains ram_api p) = blocked_names s \<and> domains_wf (restart_domains ram_api p)"
    using domain_changes_survive_restart [OF ram.nvs_reliable_axioms domains_wf_boot evil_facts(1)] add by blast
  then show ?thesis using add s by blast
qed

text \<open>C39: a name that is removed and then added again is blocked at once, but the addition is
  not saved: after the next restart the name is no longer blocked.\<close>

theorem domain_added_again_is_lost:
  assumes flash: "nvs_reliable api view disk handles" and wf: "domains_wf s" and d: "is_cstr d"
    and len: "length d < MAX_DOMAIN_LENGTH"
    and rm: "remove_blocked_domain api (Some d) s p = Inr (True, s1, p1)"
  shows "\<exists>s2. add_blocked_domain api (Some d) s1 p1 = Inr (True, s2, p1) \<and> lower d \<in> blocked_names s2 \<and>
    lower d \<notin> blocked_names (restart_domains api p1)"
proof -
  note w1 = remove_blocked_domain_names [OF rm wf]
  from rm obtain i p2 where d0: "d \<noteq> []" and f: "find_domain d s = Some i"
    and s1: "s1 = s\<lparr>blocked_domains := (blocked_domains s)[i := (blocked_domains s ! i)\<lparr>bd_active := False\<rparr>]\<rparr>"
    and p1: "p1 = save_blocked_domains api s1 p2"
    by (cases rule: remove_blocked_domain_cases) auto
  have "entry_name (blocked_domains s1 ! i) = lower d" "i < length (used s1)"
    using find_domain_Some [OF wf f] domains_wfD [OF wf] domains_wfD [OF w1(1)] s1 by auto
  then have "lower d \<in> set (map entry_name (used s1))"
    using used_nth [OF w1(1)] domains_wfD [OF w1(1)] by (metis length_map nth_map nth_mem)
  then obtain j where j: "find_domain d s1 = Some j" by (cases "find_domain d s1") (auto simp: find_domain_None)
  then obtain s2 where add: "add_blocked_domain api (Some d) s1 p1 = Inr (True, s2, p1)"
    using d0 len by (auto simp: add_blocked_domain_def find_domain_def used_def)
  have "domains_on_disk disk s1 p1" using nvs_reliable.save_blocked_domains_disk [OF flash] p1 by blast
  then have "lower d \<notin> blocked_names (restart_domains api p1)"
    using nvs_reliable.restart_keeps_names [OF flash w1(1)] w1(2) by simp
  then show ?thesis using add add_blocked_domain_names [OF add w1(1) d] by auto
qed

theorem domain_added_again_is_lost_witness:
  "\<exists>s p s1 p1 s2. add_blocked_domain ram_api (Some evil) domain_boot \<lparr>plog = log_init, pflash = ram_empty\<rparr>
       = Inr (True, s, p) \<and> remove_blocked_domain ram_api (Some evil) s p = Inr (True, s1, p1) \<and>
     add_blocked_domain ram_api (Some evil) s1 p1 = Inr (True, s2, p1) \<and>
     lower evil \<notin> blocked_names (restart_domains ram_api p1)"
proof -
  obtain s p where add: "add_blocked_domain ram_api (Some evil) domain_boot
      \<lparr>plog = log_init, pflash = ram_empty\<rparr> = Inr (True, s, p)" and s: "blocked_names s = {evil}"
    and wf: "domains_wf s" by (rule evil_added)
  have "is_defined (remove_blocked_domain ram_api (Some evil) s p)"
    by (simp add: remove_blocked_domain_defined evil_facts)
  then obtain ok s1 p1 where rm: "remove_blocked_domain ram_api (Some evil) s p = Inr (ok, s1, p1)"
    by (auto simp: is_defined_iff)
  have found: "find_domain evil s \<noteq> None" using s blocked_names_found [of evil s] evil_facts by simp
  from rm have ok using found evil_facts by (cases rule: remove_blocked_domain_cases) auto
  with rm have rm': "remove_blocked_domain ram_api (Some evil) s p = Inr (True, s1, p1)" by simp
  show ?thesis
    using add rm' domain_added_again_is_lost [OF ram.nvs_reliable_axioms wf evil_facts(1,2) rm'] by blast
qed

text \<open>Adding a new name has a defined effect exactly when every percent sign in the name is
  doubled: the name itself is used as the format string of a log line.\<close>

theorem domain_add_defined_iff:
  "is_defined (add_blocked_domain api (Some d) s p) \<longleftrightarrow>
     d = [] \<or> MAX_DOMAIN_LENGTH \<le> length d \<or> find_domain d s \<noteq> None \<or>
     MAX_BLOCKED_DOMAINS \<le> blocked_domain_count s \<or> percents_doubled d"
  by (rule add_blocked_domain_defined)

theorem domain_add_defined_iff_witness:
  "is_defined (add_blocked_domain ram_api (Some evil) domain_boot plat0) \<and>
   \<not> is_defined (add_blocked_domain ram_api (Some ''%s.evil.com'') domain_boot plat0)"
proof -
  have "find_domain ''%s.evil.com'' domain_boot = None" by (simp add: find_domain_None used_def domain_boot_def)
  moreover have "\<not> percents_doubled ''%s.evil.com''" by code_simp
  moreover have "\<not> MAX_BLOCKED_DOMAINS \<le> blocked_domain_count domain_boot"
    by (simp add: MAX_BLOCKED_DOMAINS_def domain_boot_def)
  ultimately show ?thesis
    using domain_add_defined_iff [of ram_api evil domain_boot plat0]
      domain_add_defined_iff [of ram_api "''%s.evil.com''" domain_boot plat0]
    by (simp add: evil_facts MAX_DOMAIN_LENGTH_def)
qed

end
