(* ===== verification/Devices.thy ===== *)
theory Devices
  imports Nvs
begin

text \<open>
  The list of devices ever seen and the table of stations connected now
  (\<open>components/cmd_router/router_globals.h\<close>, first part of \<open>main/esp32_nat_router.c\<close>).

  \<open>device_list\<close> has twenty slots of which \<open>device_count\<close> are used, \<open>connected_macs\<close> eight of
  which \<open>connected_count\<close> are used; \<open>connect_count\<close> is a separate 16-bit counter, the one
  the status LED and the status command show. Nothing of this is saved: a restart forgets
  every device and every block.
\<close>

section \<open>Data\<close>

type_synonym mac = "byte list"

definition MAX_DEVICES :: nat where "MAX_DEVICES = 20"
definition MAX_CONNECTED_DEVICES :: nat where "MAX_CONNECTED_DEVICES = 8"

datatype mac_status = PENDING | ALLOWED | BLOCKED

record device =
  dv_mac :: mac
  dv_status :: mac_status

record devices =
  device_list :: "device list"
  device_count :: nat
  connected_macs :: "mac list"
  connected_count :: nat
  connect_count :: u16

definition zero_mac :: mac where "zero_mac = replicate 6 0"

definition devices_boot :: devices where
  "devices_boot = \<lparr>device_list = replicate MAX_DEVICES \<lparr>dv_mac = zero_mac, dv_status = PENDING\<rparr>,
     device_count = 0, connected_macs = replicate MAX_CONNECTED_DEVICES zero_mac,
     connected_count = 0, connect_count = 0\<rparr>"

section \<open>Operations\<close>

definition mac_exists :: "mac \<Rightarrow> devices \<Rightarrow> bool" where
  "mac_exists m d = (first_idx (\<lambda>e. dv_mac e = m) (take (device_count d) (device_list d)) \<noteq> None)"

definition add_device :: "mac \<Rightarrow> devices \<Rightarrow> devices" where
  "add_device m d =
     (if device_count d < MAX_DEVICES \<and> \<not> mac_exists m d
      then d\<lparr>device_list := (device_list d)[device_count d := \<lparr>dv_mac = m, dv_status = PENDING\<rparr>],
             device_count := device_count d + 1\<rparr>
      else d)"

text \<open>The lookup of \<open>is_packet_allowed\<close>: an unknown device is \<open>PENDING\<close>.\<close>

definition device_status :: "mac \<Rightarrow> devices \<Rightarrow> mac_status" where
  "device_status m d =
     (case first_idx (\<lambda>e. dv_mac e = m) (take (device_count d) (device_list d)) of
        Some i \<Rightarrow> dv_status (device_list d ! i) | None \<Rightarrow> PENDING)"

text \<open>The branch of \<open>update_mac_handler\<close> that changes a status, for the text it receives.\<close>

definition set_device_status :: "mac \<Rightarrow> string \<Rightarrow> devices \<Rightarrow> bool \<times> devices" where
  "set_device_status m status_str d =
     (case first_idx (\<lambda>e. dv_mac e = m) (take (device_count d) (device_list d)) of
        Some i \<Rightarrow>
          let new = (if status_str = ''ALLOWED'' then ALLOWED
                     else if status_str = ''BLOCKED'' then BLOCKED
                     else dv_status (device_list d ! i))
          in (True, d\<lparr>device_list := (device_list d)[i := (device_list d ! i)\<lparr>dv_status := new\<rparr>]\<rparr>)
      | None \<Rightarrow> (False, d))"

text \<open>The connected table: append when there is room; remove the first hit and close the gap.\<close>

definition push_connected :: "mac \<Rightarrow> devices \<Rightarrow> devices" where
  "push_connected m d =
     (if connected_count d < MAX_CONNECTED_DEVICES
      then d\<lparr>connected_macs := (connected_macs d)[connected_count d := m],
             connected_count := connected_count d + 1\<rparr>
      else d)"

function shift_down :: "nat \<Rightarrow> nat \<Rightarrow> mac list \<Rightarrow> mac list" where
  "shift_down j n ms = (if j < n then shift_down (j + 1) n (ms[j := ms ! (j + 1)]) else ms)"
  by auto
termination by (relation "measure (\<lambda>(j, n, ms). n - j)") auto

declare shift_down.simps [simp del]

definition drop_connected :: "mac \<Rightarrow> devices \<Rightarrow> devices" where
  "drop_connected m d =
     (case first_idx (\<lambda>c. c = m) (take (connected_count d) (connected_macs d)) of
        Some i \<Rightarrow> d\<lparr>connected_macs := shift_down i (connected_count d - 1) (connected_macs d),
                    connected_count := connected_count d - 1\<rparr>
      | None \<Rightarrow> d)"

section \<open>Invariant\<close>

definition known :: "devices \<Rightarrow> device list" where
  "known d = take (device_count d) (device_list d)"

definition connected :: "devices \<Rightarrow> mac list" where
  "connected d = take (connected_count d) (connected_macs d)"

definition devices_wf :: "devices \<Rightarrow> bool" where
  "devices_wf d \<longleftrightarrow> length (device_list d) = MAX_DEVICES \<and> device_count d \<le> MAX_DEVICES \<and>
     distinct (map dv_mac (known d)) \<and>
     length (connected_macs d) = MAX_CONNECTED_DEVICES \<and> connected_count d \<le> MAX_CONNECTED_DEVICES"

lemma devices_wf_boot: "devices_wf devices_boot"
  by (simp add: devices_wf_def devices_boot_def known_def)

lemma mac_exists_iff: "mac_exists m d \<longleftrightarrow> m \<in> set (map dv_mac (known d))"
  by (auto simp: mac_exists_def known_def first_idx_None)

lemma add_device_known:
  assumes "devices_wf d"
  shows "known (add_device m d) = (if device_count d < MAX_DEVICES \<and> \<not> mac_exists m d
     then known d @ [\<lparr>dv_mac = m, dv_status = PENDING\<rparr>] else known d)"
  using assms by (simp add: add_device_def known_def devices_wf_def take_Suc_conv_app_nth)

lemma add_device_wf [inv_intros]:
  assumes "devices_wf d"
  shows "devices_wf (add_device m d)"
proof (cases "device_count d < MAX_DEVICES \<and> \<not> mac_exists m d")
  case True
  then have "distinct (map dv_mac (known (add_device m d)))"
    using assms unfolding add_device_known [OF assms] by (simp add: devices_wf_def mac_exists_iff)
  then show ?thesis using assms True by (simp add: devices_wf_def add_device_def)
qed (use assms in \<open>auto simp: add_device_def\<close>)

lemma add_device_frame [frame_simps]:
  "connected_macs (add_device m d) = connected_macs d" "connected_count (add_device m d) = connected_count d"
  "connect_count (add_device m d) = connect_count d"
  by (simp_all add: add_device_def)

lemma known_status_update:
  assumes "devices_wf d" and "i < device_count d"
  shows "known (d\<lparr>device_list := (device_list d)[i := (device_list d ! i)\<lparr>dv_status := st\<rparr>]\<rparr>) =
    (known d)[i := (known d ! i)\<lparr>dv_status := st\<rparr>]"
  using assms by (simp add: known_def devices_wf_def take_update_swap)

lemma set_device_status_wf [inv_intros]:
  assumes "set_device_status m t d = (ok, d')" and "devices_wf d"
  shows "devices_wf d'"
proof (cases "first_idx (\<lambda>e. dv_mac e = m) (take (device_count d) (device_list d))")
  case (Some i)
  then have i: "i < device_count d" using first_idx_SomeD(1) by fastforce
  define st where "st = (if t = ''ALLOWED'' then ALLOWED else if t = ''BLOCKED'' then BLOCKED
    else dv_status (device_list d ! i))"
  have d': "d' = d\<lparr>device_list := (device_list d)[i := (device_list d ! i)\<lparr>dv_status := st\<rparr>]\<rparr>"
    using assms(1) Some by (simp add: set_device_status_def st_def Let_def)
  have "map dv_mac (known d') = map dv_mac (known d)"
    unfolding d' known_status_update [OF assms(2) i]
    using i assms(2) by (intro nth_equalityI) (auto simp: nth_list_update known_def devices_wf_def)
  then show ?thesis using assms(2) d' by (simp add: devices_wf_def)
qed (use assms in \<open>simp add: set_device_status_def\<close>)

text \<open>The status lookup reads the first device of that MAC, and there is at most one.\<close>

lemma device_status_iff:
  assumes "devices_wf d" and "st \<noteq> PENDING"
  shows "device_status m d = st \<longleftrightarrow> \<lparr>dv_mac = m, dv_status = st\<rparr> \<in> set (known d)"
proof (cases "first_idx (\<lambda>e. dv_mac e = m) (known d)")
  case None
  then have "device_status m d = PENDING" by (simp add: device_status_def known_def)
  then show ?thesis using None assms(2) by (auto simp: first_idx_None)
next
  case (Some i)
  note i = first_idx_SomeD [OF Some]
  have len: "length (known d) = device_count d" using assms(1) by (simp add: known_def devices_wf_def)
  have st: "device_status m d = dv_status (known d ! i)"
    using Some i(1) by (simp add: device_status_def known_def)
  have "\<lparr>dv_mac = m, dv_status = st\<rparr> \<in> set (known d) \<longleftrightarrow> known d ! i = \<lparr>dv_mac = m, dv_status = st\<rparr>"
  proof
    assume "\<lparr>dv_mac = m, dv_status = st\<rparr> \<in> set (known d)"
    then obtain j where j: "j < length (known d)" "known d ! j = \<lparr>dv_mac = m, dv_status = st\<rparr>"
      by (auto simp: in_set_conv_nth)
    then have "map dv_mac (known d) ! j = map dv_mac (known d) ! i" using i by simp
    then have "j = i" using assms(1) i(1) j(1) by (auto simp: devices_wf_def distinct_conv_nth)
    then show "known d ! i = \<lparr>dv_mac = m, dv_status = st\<rparr>" using j by simp
  qed (metis i(1) nth_mem)
  then show ?thesis using st i(2) by (cases "known d ! i") simp
qed

lemma add_device_status: "devices_wf d \<Longrightarrow> device_status x (add_device m d) = device_status x d"
proof -
  assume wf: "devices_wf d"
  have "device_status x (add_device m d) = st \<longleftrightarrow> device_status x d = st" if "st \<noteq> PENDING" for st
    using that wf by (simp add: device_status_iff add_device_wf add_device_known)
  then show ?thesis by metis
qed

section \<open>The connected table as a list\<close>

lemma shift_down_nth:
  assumes "n < length ms"
  shows "length (shift_down j n ms) = length ms \<and>
    (\<forall>k < length ms. shift_down j n ms ! k = (if j \<le> k \<and> k < n then ms ! (k + 1) else ms ! k))"
  using assms
proof (induction j n ms rule: shift_down.induct)
  case (1 j n ms)
  show ?case
  proof (cases "j < n")
    case True
    then show ?thesis
      using 1 by (subst (1 2) shift_down.simps) (auto simp: nth_list_update, metis le_antisym not_less_eq_eq)
  qed (auto simp: shift_down.simps [of j])
qed

lemma push_connected_list:
  assumes "devices_wf d"
  shows "connected (push_connected m d) =
    (if connected_count d < MAX_CONNECTED_DEVICES then connected d @ [m] else connected d)"
  using assms by (simp add: push_connected_def connected_def devices_wf_def take_Suc_conv_app_nth)

lemma push_connected_wf [inv_intros]: "devices_wf d \<Longrightarrow> devices_wf (push_connected m d)"
  by (simp add: push_connected_def devices_wf_def known_def)

lemma drop_connected_list:
  assumes wf: "devices_wf d"
  shows "connected (drop_connected m d) = remove1 m (connected d)"
proof (cases "first_idx (\<lambda>c. c = m) (connected d)")
  case None
  then have "m \<notin> set (connected d)" by (auto simp: first_idx_None)
  then show ?thesis using None by (simp add: drop_connected_def connected_def remove1_idem)
next
  case (Some i)
  note i = first_idx_SomeD [OF Some]
  let ?c = "connected_count d" and ?ms = "connected_macs d"
  have len: "length (connected d) = ?c" "?c \<le> 8" "length ?ms = 8"
    using wf by (auto simp: connected_def devices_wf_def MAX_CONNECTED_DEVICES_def)
  have ic: "i < ?c" using i(1) len by simp
  have "remove1 m (connected d) = take i (connected d) @ drop (Suc i) (connected d)"
  proof -
    have "connected d = take i (connected d) @ m # drop (Suc i) (connected d)"
      using id_take_nth_drop [OF i(1)] i(2) by simp
    moreover have "m \<notin> set (take i (connected d))"
      using i(3) by (auto simp: in_set_conv_nth)
    ultimately show ?thesis by (metis remove1_append remove1.simps(2))
  qed
  also have "\<dots> = take (?c - 1) (shift_down i (?c - 1) ?ms)"
    using shift_down_nth [of "?c - 1" ?ms i] ic len
    by (intro nth_equalityI) (auto simp: nth_append connected_def min_def)
  finally show ?thesis using Some by (simp add: drop_connected_def connected_def)
qed

lemma drop_connected_wf [inv_intros]:
  assumes "devices_wf d"
  shows "devices_wf (drop_connected m d)"
proof (cases "first_idx (\<lambda>c. c = m) (connected d)")
  case (Some i)
  then have "connected_count d - 1 < length (connected_macs d)"
    using assms by (auto simp: devices_wf_def MAX_CONNECTED_DEVICES_def)
  then show ?thesis using assms Some shift_down_nth [of "connected_count d - 1" "connected_macs d" i]
    by (simp add: devices_wf_def drop_connected_def connected_def known_def)
qed (use assms in \<open>simp add: drop_connected_def connected_def\<close>)

lemma connected_frame [frame_simps]:
  "known (push_connected m d) = known d" "known (drop_connected m d) = known d"
  "connect_count (push_connected m d) = connect_count d" "connect_count (drop_connected m d) = connect_count d"
  "device_status x (push_connected m d) = device_status x d"
  "device_status x (drop_connected m d) = device_status x d"
  by (auto simp: push_connected_def drop_connected_def known_def device_status_def split: option.split)

end
