(* ===== verification/Dns_Server.thy ===== *)
theory Dns_Server
  imports Domain_Store Devices
begin

text \<open>
  The filtering DNS server (\<open>main/dns_server.c\<close>).

  Datagrams are byte lists. The parser of names runs on the whole receive buffer of 512
  bytes, of which a short datagram only overwrites the first part; its loop follows
  compression pointers without a bound, so it is a partial function: \<open>None\<close> is a run that
  never ends, \<open>Some (Inl OOB_read)\<close> a read behind the buffer. The answer of the upstream
  server, and whether the socket calls succeed, are parameters.
\<close>

section \<open>Constants and state\<close>

definition DNS_MAX_PACKET_SIZE :: nat where "DNS_MAX_PACKET_SIZE = 512"
definition DNS_HEADER_SIZE :: nat where "DNS_HEADER_SIZE = 12"
definition DOMAIN_TEXT_SIZE :: nat where "DOMAIN_TEXT_SIZE = 256"
definition MAX_CLIENTS :: nat where "MAX_CLIENTS = 20"
definition MAX_REQUESTS_PER_SECOND :: nat where "MAX_REQUESTS_PER_SECOND = 5"

record mac_rate =
  mr_mac :: mac
  mr_last_reset :: u32
  mr_count :: nat

record rate_state =
  clients :: "mac_rate list"
  num_clients :: nat

record dns_state =
  rx_buffer :: "byte list"
  tx_buffer :: "byte list"
  query_count :: nat

section \<open>The rate limiter\<close>

text \<open>No caller uses it; \<open>now\<close> is the time in seconds.\<close>

definition check_rate_limit_mac :: "u32 \<Rightarrow> mac \<Rightarrow> rate_state \<Rightarrow> bool \<times> rate_state" where
  "check_rate_limit_mac now m r =
     (case first_idx (\<lambda>c. mr_mac c = m) (take (num_clients r) (clients r)) of
        Some i \<Rightarrow>
          let c0 = clients r ! i;
              c1 = (if now - mr_last_reset c0 \<ge> 1 then c0\<lparr>mr_count := 0, mr_last_reset := now\<rparr> else c0);
              c2 = c1\<lparr>mr_count := mr_count c1 + 1\<rparr>;
              r' = r\<lparr>clients := (clients r)[i := c2]\<rparr>
          in if mr_count c2 > MAX_REQUESTS_PER_SECOND then (False, r') else (True, r')
      | None \<Rightarrow>
          if num_clients r < MAX_CLIENTS
          then (True, r\<lparr>clients := (clients r)[num_clients r :=
                          \<lparr>mr_mac = m, mr_last_reset = now, mr_count = 1\<rparr>],
                        num_clients := num_clients r + 1\<rparr>)
          else (False, r))"

section \<open>Parsing a name\<close>

datatype parsed =
    Parsed string nat    \<comment> \<open>the bytes written before the final NUL, and the offset returned\<close>
  | Too_long             \<comment> \<open>the return value -1\<close>

definition is_pointer :: "byte \<Rightarrow> bool" where
  "is_pointer b \<longleftrightarrow> and b 0xC0 = 0xC0"

definition pointer_target :: "byte \<Rightarrow> byte \<Rightarrow> nat" where
  "pointer_target hi lo = or (push_bit 8 (unat (and hi 0x3F))) (unat lo)"

definition append_label :: "string \<Rightarrow> byte list \<Rightarrow> string" where
  "append_label out label = out @ (if out = [] then [] else [dot]) @ map char_of_byte label"

partial_function (option) parse_loop ::
    "nat \<Rightarrow> byte list \<Rightarrow> nat \<Rightarrow> string \<Rightarrow> nat option \<Rightarrow> parsed cres option" where
  "parse_loop max_len buf offset out jump =
     (if length buf \<le> offset then Some (Inl OOB_read)
      else
        let len = unat (buf ! offset)
        in if len = 0 then
             Some (Inr (Parsed out (case jump of Some j \<Rightarrow> j | None \<Rightarrow> offset + 1)))
           else if is_pointer (buf ! offset) then
             (if length buf \<le> offset + 1 then Some (Inl OOB_read)
              else parse_loop max_len buf (pointer_target (buf ! offset) (buf ! (offset + 1))) out
                     (case jump of None \<Rightarrow> Some (offset + 2) | Some j \<Rightarrow> Some j))
           else if max_len \<le> length out + len + 1 then Some (Inr Too_long)
           else if length buf < offset + 1 + len then Some (Inl OOB_read)
           else parse_loop max_len buf (offset + 1 + len)
                  (append_label out (take len (drop (offset + 1) buf))) jump)"

definition parse_domain_name :: "byte list \<Rightarrow> nat \<Rightarrow> nat \<Rightarrow> parsed cres option" where
  "parse_domain_name buf offset max_len = parse_loop max_len buf offset [] None"

section \<open>The blocked answer\<close>

definition header_patch :: "byte list \<Rightarrow> byte list" where
  "header_patch q = take 2 q @ [0x81, 0x80] @ take 2 (drop 4 q) @ [0x00, 0x01, 0, 0, 0, 0] @ drop 12 q"

definition blocked_answer :: "byte list" where
  "blocked_answer = [0xC0, 0x0C, 0x00, 0x01, 0x00, 0x01, 0x00, 0x00, 0x00, 0x3C, 0x00, 0x04,
     0x00, 0x00, 0x00, 0x00]"

text \<open>The bytes written to the start of a response buffer of \<open>cap\<close> bytes.\<close>

definition create_blocked_response :: "byte list \<Rightarrow> nat \<Rightarrow> byte list cres" where
  "create_blocked_response query cap =
     (let r = header_patch query @ blocked_answer
      in guardE (length r \<le> cap) OOB_write (Inr r))"

section \<open>Forwarding\<close>

text \<open>
  The socket calls: whether the socket is created, whether the query is sent, and the
  answer, if any arrives within the two seconds.
\<close>

record upstream =
  up_socket :: bool
  up_send :: "byte list \<Rightarrow> bool"
  up_recv :: "byte list \<Rightarrow> byte list option"

definition forward_dns_query :: "upstream \<Rightarrow> byte list \<Rightarrow> nat \<Rightarrow> byte list option" where
  "forward_dns_query up query max_response_len =
     (if \<not> up_socket up then None
      else if \<not> up_send up query then None
      else map_option (take max_response_len) (up_recv up query))"

section \<open>One datagram\<close>

definition header_is_query :: "byte list \<Rightarrow> bool" where
  "header_is_query b \<longleftrightarrow> and (u16_of (b ! 3) (b ! 2)) 0x8000 = 0 \<and> u16_of (b ! 5) (b ! 4) > 0"

definition dns_receive :: "byte list \<Rightarrow> dns_state \<Rightarrow> dns_state" where
  "dns_receive pkt st = st\<lparr>rx_buffer := overlay (take DNS_MAX_PACKET_SIZE pkt) (rx_buffer st)\<rparr>"

text \<open>
  The body of the server loop for a received datagram: the reply sent, if any, and the new
  state.
\<close>

definition dns_server_step ::
    "upstream \<Rightarrow> domain_filter \<Rightarrow> byte list \<Rightarrow> dns_state \<Rightarrow> 'f plat \<Rightarrow>
     ((byte list option \<times> dns_state \<times> 'f plat) cres) option" where
  "dns_server_step up df pkt st p =
     (let len = min (length pkt) DNS_MAX_PACKET_SIZE;
          st1 = dns_receive pkt st
      in if len < DNS_HEADER_SIZE then Some (Inr (None, st1, p))
         else
           let st2 = st1\<lparr>query_count := query_count st1 + 1\<rparr>;
               rx = rx_buffer st2;
               query = take len rx
           in if \<not> header_is_query rx then Some (Inr (None, st2, p))
              else (case parse_domain_name rx DNS_HEADER_SIZE DOMAIN_TEXT_SIZE of
                None \<Rightarrow> None
              | Some (Inl u) \<Rightarrow> Some (Inl u)
              | Some (Inr Too_long) \<Rightarrow> Some (Inr (None, st2, p))
              | Some (Inr (Parsed out new_offset)) \<Rightarrow>
                  let domain = cstr out
                  in if \<not> (new_offset > 0 \<and> length domain > 0) then Some (Inr (None, st2, p))
                     else if is_domain_blocked (Some domain) df then
                       Some (bindE (c_format ''BLOCKED: %s'' [VStr domain]) (\<lambda>log_msg.
                             bindE (plat_log (take 299 log_msg) [] p) (\<lambda>p1.
                             bindE (create_blocked_response query DNS_MAX_PACKET_SIZE) (\<lambda>resp.
                             Inr (Some resp, st2\<lparr>tx_buffer := overlay resp (tx_buffer st2)\<rparr>, p1)))))
                     else (case forward_dns_query up query DNS_MAX_PACKET_SIZE of
                         None \<Rightarrow> Some (Inr (None, st2, p))
                       | Some resp \<Rightarrow>
                           if length resp > 0
                           then Some (Inr (Some resp, st2\<lparr>tx_buffer := overlay resp (tx_buffer st2)\<rparr>, p))
                           else Some (Inr (None, st2, p)))))"

text \<open>The part of \<open>dns_server_task\<close> before its loop; \<open>True\<close> says that the loop is entered.\<close>

definition dns_server_start :: "bool \<Rightarrow> bool \<Rightarrow> 'f plat \<Rightarrow> (bool \<times> 'f plat) cres" where
  "dns_server_start sock_ok bind_ok p =
     (if \<not> sock_ok
      then bindE (plat_log ''DNS ERROR: Failed to create socket'' [] p) (\<lambda>p1. Inr (False, p1))
      else if \<not> bind_ok
      then bindE (plat_log ''DNS ERROR: Failed to bind port 53'' [] p) (\<lambda>p1. Inr (False, p1))
      else bindE (plat_log ''DNS server running on port 53'' [] p) (\<lambda>p1. Inr (True, p1)))"

end
