(* ===== verification/Dns_Laws.thy ===== *)
theory Dns_Laws
  imports Dns_Server Domain_Props
begin

text \<open>
  Laws of the DNS server: the name parser on well-formed names, its bound on the text, when
  its loop ends; the blocked answer as a resolver reads it; and what one datagram does.
\<close>

section \<open>Steps of the parser\<close>

lemmas parse_unfold = parse_loop.simps

lemma parse_pointer:
  assumes "offset + 1 < length buf" and "is_pointer (buf ! offset)"
  shows "parse_loop m buf offset out jump =
    parse_loop m buf (pointer_target (buf ! offset) (buf ! (offset + 1))) out
      (case jump of None \<Rightarrow> Some (offset + 2) | Some j \<Rightarrow> Some j)"
proof -
  have "unat (buf ! offset) \<noteq> 0" using assms(2) by (auto simp: is_pointer_def unat_eq_zero)
  then show ?thesis using assms by (subst parse_unfold) (simp add: Let_def split: option.split)
qed

lemma parse_label:
  assumes "offset < length buf" and "\<not> is_pointer (buf ! offset)" and "unat (buf ! offset) = n" and "n \<noteq> 0"
    and "length out + n + 1 < m" and "offset + 1 + n \<le> length buf"
  shows "parse_loop m buf offset out jump =
    parse_loop m buf (offset + 1 + n) (append_label out (take n (drop (offset + 1) buf))) jump"
  using assms by (subst parse_unfold) (simp add: Let_def)

lemma parse_end:
  assumes "offset < length buf" and "buf ! offset = 0"
  shows "parse_loop m buf offset out jump =
    Some (Inr (Parsed out (case jump of Some j \<Rightarrow> j | None \<Rightarrow> offset + 1)))"
  using assms by (subst parse_unfold) simp

section \<open>The text stays inside its array\<close>

lemma length_append_label: "length (append_label out l) \<le> length out + length l + 1"
  by (simp add: append_label_def)

lemma parse_loop_bound:
  assumes "parse_loop m buf offset out jump = Some r"
  shows "length out < m \<Longrightarrow> (case r of Inr (Parsed t k) \<Rightarrow> length t < m | _ \<Rightarrow> True)"
proof (induction rule: parse_loop.raw_induct [OF _ assms])
  case (1 parse m buf offset out jump r)
  let ?n = "unat (buf ! offset)"
  consider (stop) "length buf \<le> offset \<or> ?n = 0"
    | (pointer) "offset < length buf" "?n \<noteq> 0" "is_pointer (buf ! offset)"
    | (label) "offset < length buf" "?n \<noteq> 0" "\<not> is_pointer (buf ! offset)"
    by fastforce
  then show ?case
  proof cases
    case stop
    then show ?thesis using "1"(2,3) by (auto split: if_splits)
  next
    case pointer
    then show ?thesis
      using "1"(1) [of m buf _ out _ r] "1"(2,3) by (auto simp: Let_def split: if_splits)
  next
    case label
    let ?l = "take ?n (drop (offset + 1) buf)"
    show ?thesis
    proof (cases "m \<le> length out + ?n + 1 \<or> length buf < offset + 1 + ?n")
      case True
      then show ?thesis using label "1"(2) by (auto simp: Let_def split: if_splits)
    next
      case False
      have "length ?l \<le> ?n" by simp
      then have "length (append_label out ?l) < m" using False length_append_label [of out ?l] by linarith
      then show ?thesis using label False "1"(1) [of m buf _ "append_label out ?l" jump r] "1"(2)
        by (auto simp: Let_def)
    qed
  qed
qed

section \<open>When the loop ends\<close>

definition backward_pointers :: "byte list \<Rightarrow> bool" where
  "backward_pointers buf \<longleftrightarrow> list_all (\<lambda>i. is_pointer (buf ! i) \<longrightarrow>
     pointer_target (buf ! i) (buf ! (i + 1)) < i) [0..<length buf - 1]"

lemma append_label_grows: "l \<noteq> [] \<Longrightarrow> length out < length (append_label out l)"
  by (simp add: append_label_def)

lemma parse_loop_returns:
  assumes "backward_pointers buf"
  shows "\<exists>r. parse_loop m buf offset out jump = Some r"
proof (induction "(m - length out, offset)" arbitrary: offset out jump
    rule: wf_induct_rule [OF wf_lex_prod [OF wf_less_than wf_less_than]])
  case (1 offset out jump)
  show ?case
  proof (cases "length buf \<le> offset \<or> buf ! offset = 0")
    case True
    then show ?thesis by (cases "length buf \<le> offset") (auto simp: parse_unfold [of m buf offset] parse_end)
  next
    case False
    then have n0: "unat (buf ! offset) \<noteq> 0" and off: "offset < length buf" by (auto simp: unat_eq_zero)
    show ?thesis
    proof (cases "is_pointer (buf ! offset)")
      case True
      show ?thesis
      proof (cases "length buf \<le> offset + 1")
        case True
        then show ?thesis using \<open>is_pointer _\<close> n0 off by (simp add: parse_unfold [of m buf offset] Let_def)
      next
        case False
        then have "pointer_target (buf ! offset) (buf ! (offset + 1)) < offset"
          using assms True unfolding backward_pointers_def list_all_iff by auto
        then show ?thesis using False True 1 by (auto simp: parse_pointer)
      qed
    next
      case False
      let ?n = "unat (buf ! offset)" and ?l = "take (unat (buf ! offset)) (drop (offset + 1) buf)"
      show ?thesis
      proof (cases "length out + ?n + 1 < m \<and> offset + 1 + ?n \<le> length buf")
        case True
        then have "?l \<noteq> []" using n0 by auto
        from append_label_grows [OF this, of out] True
        have "m - length (append_label out ?l) < m - length out" by linarith
        then show ?thesis using 1 True False n0 off by (auto simp: parse_label)
      next
        case fits: False
        then show ?thesis using False n0 off by (auto simp: parse_unfold [of m buf offset] Let_def)
      qed
    qed
  qed
qed

lemma parse_loop_diverges:
  assumes "offset + 1 < length buf" and "is_pointer (buf ! offset)"
    and "pointer_target (buf ! offset) (buf ! (offset + 1)) = offset"
  shows "parse_loop m buf offset out jump = None"
proof -
  have nz: "unat (buf ! offset) \<noteq> 0" using assms(2) by (auto simp: is_pointer_def unat_eq_zero)
  have "\<not> (buf' = buf \<and> offset' = offset)" if "parse_loop m buf' offset' out jump = Some r" for buf' offset' r
  proof (induction rule: parse_loop.raw_induct [OF _ that])
    case (1 parse m buf' offset' out jump r)
    show ?case
    proof
      assume "buf' = buf \<and> offset' = offset"
      then show False using "1"(1) [of m buf offset out _ r] "1"(2) assms nz by (auto simp: Let_def)
    qed
  qed
  then show ?thesis by (cases "parse_loop m buf offset out jump") auto
qed

section \<open>Names on the wire\<close>

definition label_ok :: "string \<Rightarrow> bool" where
  "label_ok l \<longleftrightarrow> 1 \<le> length l \<and> length l \<le> 63 \<and> is_cstr l"

definition label_bytes :: "string \<Rightarrow> byte list" where
  "label_bytes l = of_nat (length l) # map byte_of_char l"

definition name_bytes :: "string list \<Rightarrow> byte list" where
  "name_bytes ls = concat (map label_bytes ls) @ [0]"

lemma length_label_bytes [simp]: "length (label_bytes l) = length l + 1"
  by (simp add: label_bytes_def)

lemma unat_label_length: "label_ok l \<Longrightarrow> unat (of_nat (length l) :: byte) = length l"
  by (simp add: label_ok_def unat_of_nat)

lemma label_length_no_pointer:
  assumes "label_ok l"
  shows "\<not> is_pointer (of_nat (length l))"
proof
  assume "is_pointer (of_nat (length l))"
  then have "and (of_nat (length l) :: byte) 0xC0 = 0xC0" by (simp add: is_pointer_def)
  then have "(0xC0 :: byte) \<le> of_nat (length l)" by (metis word_and_le2 and.commute)
  then have "192 \<le> length l" using unat_label_length [OF assms] by (simp add: word_le_nat_alt)
  then show False using assms by (simp add: label_ok_def)
qed

lemma append_label_chars: "append_label out (map byte_of_char l) = out @ (if out = [] then [] else [dot]) @ l"
  by (simp add: append_label_def comp_def)

lemma append_labels_join:
  "list_all label_ok ls \<Longrightarrow> fold (\<lambda>l out. append_label out (map byte_of_char l)) ls out =
     (if out = [] then join_labels ls else if ls = [] then out else out @ dot # join_labels ls)"
proof (induction ls arbitrary: out)
  case (Cons l ls)
  let ?out = "append_label out (map byte_of_char l)"
  have "l \<noteq> []" using Cons.prems by (auto simp: label_ok_def)
  then have "?out \<noteq> []" by (simp add: append_label_chars)
  then have "fold (\<lambda>l out. append_label out (map byte_of_char l)) (l # ls) out =
      (if ls = [] then ?out else ?out @ dot # join_labels ls)"
    using Cons.IH [of ?out] Cons.prems by simp
  then show ?case by (cases ls) (simp_all add: append_label_chars)
qed simp

text \<open>Parsing a name that lies in the buffer at \<open>offset\<close>.\<close>

lemma parse_name:
  assumes "drop offset buf = name_bytes ls @ rest" and "list_all label_ok ls"
    and "length out + length (concat (map label_bytes ls)) < m"
  shows "parse_loop m buf offset out jump =
    Some (Inr (Parsed (fold (\<lambda>l out. append_label out (map byte_of_char l)) ls out)
      (case jump of Some j \<Rightarrow> j | None \<Rightarrow> offset + length (name_bytes ls))))"
  using assms
proof (induction ls arbitrary: offset out)
  case Nil
  then have d: "drop offset buf = 0 # rest" by (simp add: name_bytes_def)
  then have "offset < length buf" by (metis drop_all list.distinct(1) not_le)
  moreover from d this have "buf ! offset = 0" by (metis hd_drop_conv_nth list.sel(1))
  ultimately show ?case by (cases jump) (simp_all add: parse_end name_bytes_def)
next
  case (Cons l ls)
  let ?n = "length l"
  from Cons.prems(1) have d: "drop offset buf = of_nat ?n # map byte_of_char l @ name_bytes ls @ rest"
    by (simp add: name_bytes_def label_bytes_def)
  from Cons.prems(2) have l: "label_ok l" and ls: "list_all label_ok ls" by simp_all
  have off: "offset < length buf" using d by (metis drop_all list.distinct(1) not_le)
  have b: "buf ! offset = of_nat ?n" using d off by (metis hd_drop_conv_nth list.sel(1))
  have d1: "drop (offset + 1) buf = map byte_of_char l @ name_bytes ls @ rest"
    using arg_cong [OF d, of tl] by (simp add: tl_drop drop_Suc)
  have len: "offset + 1 + ?n \<le> length buf"
    using arg_cong [OF d1, of length] by (simp add: name_bytes_def)
  have d2: "drop (offset + 1 + ?n) buf = name_bytes ls @ rest"
    using arg_cong [OF d1, of "drop ?n"] by (simp add: add.commute)
  have t: "take ?n (drop (offset + 1) buf) = map byte_of_char l" using d1 by simp
  have "\<not> is_pointer (buf ! offset)" using b label_length_no_pointer [OF l] by simp
  moreover have "unat (buf ! offset) = ?n" "?n \<noteq> 0"
    using b unat_label_length [OF l] l by (auto simp: label_ok_def)
  moreover have "length out + ?n + 1 < m" using Cons.prems(3) by simp
  ultimately have "parse_loop m buf offset out jump =
      parse_loop m buf (offset + 1 + ?n) (append_label out (map byte_of_char l)) jump"
    using parse_label [of offset buf ?n out m jump] off len t by simp
  moreover have "length (append_label out (map byte_of_char l)) + length (concat (map label_bytes ls)) < m"
    using Cons.prems(3) length_append_label [of out "map byte_of_char l"] by simp
  ultimately show ?case
    using Cons.IH [OF d2 ls] by (cases jump) (simp_all add: name_bytes_def)
qed

lemma parse_domain_name_join:
  assumes "drop offset buf = name_bytes ls @ rest" and "list_all label_ok ls"
    and "length (name_bytes ls) \<le> m"
  shows "parse_domain_name buf offset m = Some (Inr (Parsed (join_labels ls) (offset + length (name_bytes ls))))"
  using parse_name [OF assms(1,2), of "[]" m None] assms(3) append_labels_join [OF assms(2), of "[]"]
  by (simp add: parse_domain_name_def name_bytes_def)

lemma parse_domain_name_pointer:
  assumes "drop target buf = name_bytes ls @ rest" and "list_all label_ok ls" and "length (name_bytes ls) \<le> m"
    and "offset + 1 < length buf" and "is_pointer (buf ! offset)"
    and "pointer_target (buf ! offset) (buf ! (offset + 1)) = target"
  shows "parse_domain_name buf offset m = Some (Inr (Parsed (join_labels ls) (offset + 2)))"
  using parse_name [OF assms(1,2), of "[]" m "Some (offset + 2)"] assms(3-6) append_labels_join [OF assms(2), of "[]"]
  by (simp add: parse_domain_name_def parse_pointer name_bytes_def)

end
