(* ===== verification/Dns_Props.thy ===== *)
theory Dns_Props
  imports Dns_Laws
begin

text \<open>
  What a client of the DNS server gets: the blocked answer as a resolver reads it, and the
  effect of one datagram on a good, a hostile and a malformed query.
\<close>

section \<open>Reading a response\<close>

record rr =
  rr_name :: string
  rr_type :: u16
  rr_class :: u16
  rr_ttl :: "byte list"
  rr_data :: "byte list"

definition read_rr :: "byte list \<Rightarrow> nat \<Rightarrow> rr option" where
  "read_rr buf offset = (case parse_domain_name buf offset DOMAIN_TEXT_SIZE of
     Some (Inr (Parsed nm k)) \<Rightarrow>
       if k + 10 \<le> length buf \<and> k + 10 + unat (u16_of (buf ! (k + 9)) (buf ! (k + 8))) \<le> length buf
       then Some \<lparr>rr_name = nm, rr_type = u16_of (buf ! (k + 1)) (buf ! k),
              rr_class = u16_of (buf ! (k + 3)) (buf ! (k + 2)), rr_ttl = take 4 (drop (k + 4) buf),
              rr_data = take (unat (u16_of (buf ! (k + 9)) (buf ! (k + 8)))) (drop (k + 10) buf)\<rparr>
       else None
   | _ \<Rightarrow> None)"

text \<open>The first record after a single question.\<close>

definition first_answer :: "byte list \<Rightarrow> rr option" where
  "first_answer resp = (case parse_domain_name resp DNS_HEADER_SIZE DOMAIN_TEXT_SIZE of
     Some (Inr (Parsed nm k)) \<Rightarrow> read_rr resp (k + 4) | _ \<Rightarrow> None)"

text \<open>A query for a name: header, the name, and what follows it.\<close>

definition wire_name :: "string list \<Rightarrow> bool" where
  "wire_name ls \<longleftrightarrow> list_all label_ok ls \<and> ls \<noteq> [] \<and> length (name_bytes ls) \<le> 255"

definition patched_header :: "byte list \<Rightarrow> byte list" where
  "patched_header hdr = take 2 hdr @ [0x81, 0x80] @ take 2 (drop 4 hdr) @ [0x00, 0x01, 0, 0, 0, 0]"

lemma header_patch_query:
  "length hdr = 12 \<Longrightarrow> header_patch (hdr @ rest) = patched_header hdr @ rest"
  by (simp add: header_patch_def patched_header_def)

lemma length_patched_header: "length hdr = 12 \<Longrightarrow> length (patched_header hdr) = 12"
  by (simp add: patched_header_def)

lemma response_question:
  assumes "length hdr = 12" and "wire_name ls"
  shows "parse_domain_name (patched_header hdr @ name_bytes ls @ rest) DNS_HEADER_SIZE DOMAIN_TEXT_SIZE =
    Some (Inr (Parsed (join_labels ls) (12 + length (name_bytes ls))))"
  using assms length_patched_header [OF assms(1)]
  by (intro parse_domain_name_join [of _ _ _ rest, THEN trans])
    (simp_all add: wire_name_def DNS_HEADER_SIZE_def DOMAIN_TEXT_SIZE_def)

lemma pointer_to_question: "is_pointer 0xC0" "pointer_target 0xC0 0x0C = 12"
  by (simp_all add: is_pointer_def pointer_target_def)

lemma nth_after: "length xs = n \<Longrightarrow> (xs @ ys) ! (n + k) = ys ! k"
  by (simp add: nth_append)

lemma drop_after: "length xs = n \<Longrightarrow> drop (n + k) (xs @ ys) = drop k ys"
  by simp

lemma read_blocked_answer:
  assumes "length hdr = 12" and "wire_name ls" and "n = 12 + length (name_bytes ls) + length mid"
  shows "read_rr (patched_header hdr @ name_bytes ls @ mid @ blocked_answer) n =
    Some \<lparr>rr_name = join_labels ls, rr_type = 1, rr_class = 1, rr_ttl = [0, 0, 0, 60], rr_data = [0, 0, 0, 0]\<rparr>"
proof -
  let ?pre = "patched_header hdr @ name_bytes ls @ mid"
  let ?r = "patched_header hdr @ name_bytes ls @ mid @ blocked_answer"
  have len: "length ?pre = n" using assms(1,3) by (simp add: length_patched_header)
  have b: "?r ! (n + k) = blocked_answer ! k" for k
    using nth_after [OF len, of blocked_answer k] unfolding append_assoc .
  have d: "drop (n + k) ?r = drop k blocked_answer" for k
    using drop_after [OF len, of k blocked_answer] unfolding append_assoc .
  have b0: "?r ! n = 0xC0" "?r ! (n + 1) = 0x0C" using b [of 0] b [of 1] by (simp_all add: blocked_answer_def)
  have L: "length ?r = n + 16" using len unfolding append_assoc [symmetric] length_append [of _ blocked_answer] by (simp add: blocked_answer_def)
  have q: "drop 12 ?r = name_bytes ls @ mid @ blocked_answer"
    using assms(1) by (simp add: length_patched_header)
  have p: "parse_domain_name ?r n DOMAIN_TEXT_SIZE = Some (Inr (Parsed (join_labels ls) (n + 2)))"
    using assms(2) L b0 pointer_to_question
    by (intro parse_domain_name_pointer [OF q]) (simp_all add: wire_name_def DOMAIN_TEXT_SIZE_def)
  have ends: "n + 2 + 10 \<le> length ?r" using L by simp
  have ix: "n + 2 + k = n + (2 + k)" for k by simp
  have bytes: "?r ! (n + 2) = 0" "?r ! (n + 2 + 1) = 1" "?r ! (n + 2 + 2) = 0" "?r ! (n + 2 + 3) = 1"
    "?r ! (n + 2 + 8) = 0" "?r ! (n + 2 + 9) = 4"
    using b [of 2] unfolding ix b by (simp_all add: blocked_answer_def)
  have drops: "take 4 (drop (n + 2 + 4) ?r) = [0, 0, 0, 60]" "take 4 (drop (n + 2 + 10) ?r) = [0, 0, 0, 0]"
    unfolding ix d by (simp_all add: blocked_answer_def)
  have w: "u16_of 1 0 = 1" "unat (u16_of 4 0) = 4" by (simp_all add: u16_of_def)
  show ?thesis
    unfolding read_rr_def p by (simp only: option.case sum.case parsed.case bytes w) (use L drops in simp)
qed

lemma first_blocked_answer:
  assumes "length hdr = 12" and "wire_name ls" and "length qt = 4"
  shows "first_answer (patched_header hdr @ name_bytes ls @ qt @ blocked_answer) =
    Some \<lparr>rr_name = join_labels ls, rr_type = 1, rr_class = 1, rr_ttl = [0, 0, 0, 60], rr_data = [0, 0, 0, 0]\<rparr>"
  using read_blocked_answer [OF assms(1,2), of "12 + length (name_bytes ls) + 4" qt] assms(3)
  by (simp add: first_answer_def response_question [OF assms(1,2)])

section \<open>One datagram\<close>

definition dns_wf :: "dns_state \<Rightarrow> bool" where
  "dns_wf st \<longleftrightarrow> length (rx_buffer st) = DNS_MAX_PACKET_SIZE \<and> length (tx_buffer st) = DNS_MAX_PACKET_SIZE"

lemma join_labels_facts:
  assumes "wire_name ls"
  shows "is_cstr (join_labels ls)" and "join_labels ls \<noteq> []" and "length (join_labels ls) < length (name_bytes ls)"
proof -
  have "is_cstr (join_labels ls) \<and> (ls \<noteq> [] \<longrightarrow> join_labels ls \<noteq> []) \<and>
      length (join_labels ls) < length (name_bytes ls)" if "list_all label_ok ls"
    using that by (induction ls rule: join_labels.induct) (auto simp: label_ok_def name_bytes_def)
  then show "is_cstr (join_labels ls)" "join_labels ls \<noteq> []" "length (join_labels ls) < length (name_bytes ls)"
    using assms by (auto simp: wire_name_def)
qed

definition is_query_for :: "string list \<Rightarrow> byte list \<Rightarrow> bool" where
  "is_query_for ls pkt \<longleftrightarrow> wire_name ls \<and> header_is_query pkt \<and> length pkt \<le> DNS_MAX_PACKET_SIZE \<and>
     12 + length (name_bytes ls) \<le> length pkt \<and> take (length (name_bytes ls)) (drop 12 pkt) = name_bytes ls"

lemma c_format_blocked: "c_format ''BLOCKED: %s'' [VStr d] = Inr (''BLOCKED: '' @ d)"
  by simp

lemma dns_query_step:
  assumes q: "is_query_for ls pkt" and st: "dns_wf st"
  shows "\<exists>st2. dns_wf st2 \<and> dns_server_step up df pkt st p =
    (if is_domain_blocked (Some (join_labels ls)) df
     then Some (bindE (plat_log (''BLOCKED: '' @ join_labels ls) [] p) (\<lambda>p1.
            bindE (create_blocked_response pkt DNS_MAX_PACKET_SIZE) (\<lambda>resp.
            Inr (Some resp, st2\<lparr>tx_buffer := overlay resp (tx_buffer st2)\<rparr>, p1))))
     else (case forward_dns_query up pkt DNS_MAX_PACKET_SIZE of
         None \<Rightarrow> Some (Inr (None, st2, p))
       | Some resp \<Rightarrow> if length resp > 0
           then Some (Inr (Some resp, st2\<lparr>tx_buffer := overlay resp (tx_buffer st2)\<rparr>, p))
           else Some (Inr (None, st2, p))))"
proof -
  let ?rx = "overlay pkt (rx_buffer st)"
  let ?st2 = "st\<lparr>rx_buffer := ?rx, query_count := query_count st + 1\<rparr>"
  have len: "length pkt \<le> 512" "12 + length (name_bytes ls) \<le> length pkt" and w: "wire_name ls"
    using q by (auto simp: is_query_for_def DNS_MAX_PACKET_SIZE_def)
  have rx: "?rx = pkt @ drop (length pkt) (rx_buffer st)"
    using len st by (simp add: overlay_def dns_wf_def DNS_MAX_PACKET_SIZE_def)
  have recv: "dns_receive pkt st = st\<lparr>rx_buffer := ?rx\<rparr>"
    using len by (simp add: dns_receive_def DNS_MAX_PACKET_SIZE_def)
  have hq: "header_is_query ?rx"
    using q len by (simp add: header_is_query_def is_query_for_def rx nth_append)
  have "drop 12 pkt = name_bytes ls @ drop (12 + length (name_bytes ls)) pkt"
    using q by (metis (no_types, lifting) append_take_drop_id drop_drop add.commute is_query_for_def)
  then have d: "drop 12 ?rx = name_bytes ls @ drop (12 + length (name_bytes ls)) pkt @ drop (length pkt) (rx_buffer st)"
    using len by (simp add: rx)
  have parse: "parse_domain_name ?rx DNS_HEADER_SIZE DOMAIN_TEXT_SIZE =
      Some (Inr (Parsed (join_labels ls) (12 + length (name_bytes ls))))"
    using parse_domain_name_join [OF d] w by (simp add: wire_name_def DNS_HEADER_SIZE_def DOMAIN_TEXT_SIZE_def)
  have c: "cstr (join_labels ls) = join_labels ls" using join_labels_facts(1) [OF w] by (rule cstr_is_cstr)
  have short: "take 299 (''BLOCKED: '' @ join_labels ls) = ''BLOCKED: '' @ join_labels ls"
    using join_labels_facts(3) [OF w] w by (simp add: wire_name_def)
  have tk: "take (min (length pkt) DNS_MAX_PACKET_SIZE) ?rx = pkt"
    using len by (simp add: rx DNS_MAX_PACKET_SIZE_def)
  have big: "\<not> min (length pkt) DNS_MAX_PACKET_SIZE < DNS_HEADER_SIZE"
    using len by (simp add: DNS_MAX_PACKET_SIZE_def DNS_HEADER_SIZE_def)
  have wf2: "dns_wf ?st2" using st by (simp add: dns_wf_def)
  have "dns_server_step up df pkt st p =
    (if is_domain_blocked (Some (join_labels ls)) df
     then Some (bindE (plat_log (''BLOCKED: '' @ join_labels ls) [] p) (\<lambda>p1.
            bindE (create_blocked_response pkt DNS_MAX_PACKET_SIZE) (\<lambda>resp.
            Inr (Some resp, ?st2\<lparr>tx_buffer := overlay resp (tx_buffer ?st2)\<rparr>, p1))))
     else (case forward_dns_query up pkt DNS_MAX_PACKET_SIZE of
         None \<Rightarrow> Some (Inr (None, ?st2, p))
       | Some resp \<Rightarrow> if length resp > 0
           then Some (Inr (Some resp, ?st2\<lparr>tx_buffer := overlay resp (tx_buffer ?st2)\<rparr>, p))
           else Some (Inr (None, ?st2, p))))"
    using big hq parse c short tk join_labels_facts(2) [OF w]
    unfolding dns_server_step_def Let_def recv
    by (simp only: dns_state.simps if_False option.case sum.case parsed.case c_format_blocked bindE_Inr
        simp_thms) (simp split: option.split)
  then show ?thesis using wf2 by blast
qed

lemma length_header_patch: "12 \<le> length q \<Longrightarrow> length (header_patch q) = length q"
  by (simp add: header_patch_def)

lemma create_blocked_response_eq:
  "12 \<le> length q \<Longrightarrow> create_blocked_response q cap =
     (if length q + 16 \<le> cap then Inr (header_patch q @ blocked_answer) else Inl OOB_write)"
  by (simp add: create_blocked_response_def length_header_patch blocked_answer_def guardE_def)

lemma is_query_for_length: "is_query_for ls pkt \<Longrightarrow> 12 \<le> length pkt"
  by (simp add: is_query_for_def)

text \<open>A query for one name, for concrete runs.\<close>

definition sample_query :: "byte list" where
  "sample_query = [0x12, 0x34, 0x01, 0x00, 0x00, 0x01, 0, 0, 0, 0, 0, 0] @ name_bytes [''x'', ''evil'', ''com''] @
     [0, 1, 0, 1]"

definition dns_boot :: dns_state where
  "dns_boot = \<lparr>rx_buffer = replicate 512 0, tx_buffer = replicate 512 0, query_count = 0\<rparr>"

lemma dns_wf_boot: "dns_wf dns_boot"
  by (simp add: dns_wf_def dns_boot_def DNS_MAX_PACKET_SIZE_def)

lemma sample_query_facts:
  "is_query_for [''x'', ''evil'', ''com''] sample_query" "length sample_query = 28"
  "join_labels [''x'', ''evil'', ''com''] = ''x.evil.com''"
  by code_simp+

lemma sample_query_blocked:
  assumes "domains_wf s" and "blocked_names s = {evil}"
  shows "is_domain_blocked (Some ''x.evil.com'') s"
proof -
  have "name_covers evil (take 127 (lower ''x.evil.com''))" by code_simp
  then show ?thesis using assms by (simp add: dom.blocked_iff)
qed

section \<open>Properties\<close>

text \<open>C23: for any name of up to 255 bytes on the wire, made of labels of 1 to 63 bytes, that
  lies in the buffer at some offset, the parser returns its labels joined by dots and the
  offset behind it.\<close>

theorem dns_name_roundtrip:
  assumes "drop offset buf = name_bytes ls @ rest" and "list_all label_ok ls"
    and "length (name_bytes ls) \<le> 255"
  shows "parse_domain_name buf offset DOMAIN_TEXT_SIZE =
    Some (Inr (Parsed (join_labels ls) (offset + length (name_bytes ls))))"
  using assms by (intro parse_domain_name_join) (simp_all add: DOMAIN_TEXT_SIZE_def)

theorem dns_name_roundtrip_witness:
  "parse_domain_name (name_bytes [''www'', ''example'', ''com''] @ [0, 1]) 0 DOMAIN_TEXT_SIZE =
    Some (Inr (Parsed ''www.example.com'' 17))"
proof -
  have "list_all label_ok [''www'', ''example'', ''com'']" "length (name_bytes [''www'', ''example'', ''com'']) = 17"
    "join_labels [''www'', ''example'', ''com''] = ''www.example.com''" by code_simp+
  then show ?thesis
    using dns_name_roundtrip [of 0 "name_bytes [''www'', ''example'', ''com''] @ [0, 1]"
        "[''www'', ''example'', ''com'']" "[0, 1]"] by simp
qed

text \<open>C24: on a buffer whose compression pointers all point backwards the parser ends, from every
  offset; and whenever it ends with a name, in any buffer, the text and its NUL fit the array of
  256 bytes it is written to.\<close>

theorem dns_parse_returns:
  assumes "backward_pointers buf"
  shows "\<exists>r. parse_domain_name buf offset DOMAIN_TEXT_SIZE = Some r \<and>
    (\<forall>t k. r = Inr (Parsed t k) \<longrightarrow> length t + 1 \<le> DOMAIN_TEXT_SIZE)"
proof -
  obtain r where r: "parse_loop DOMAIN_TEXT_SIZE buf offset [] None = Some r"
    using parse_loop_returns [OF assms] by blast
  from parse_loop_bound [OF r] have "\<forall>t k. r = Inr (Parsed t k) \<longrightarrow> length t + 1 \<le> DOMAIN_TEXT_SIZE"
    by (auto simp: DOMAIN_TEXT_SIZE_def)
  then show ?thesis using r by (simp add: parse_domain_name_def)
qed

theorem dns_parse_returns_witness:
  "\<exists>r. parse_domain_name [1, 65, 0xC0, 0x00] 2 DOMAIN_TEXT_SIZE = Some r"
proof -
  have "backward_pointers [1, 65, 0xC0, 0x00]" by code_simp
  then show ?thesis using dns_parse_returns by blast
qed

text \<open>C40: a datagram of at least fourteen bytes that claims to be a query and whose name is a
  compression pointer to itself keeps the server in its loop for ever: no later query is ever
  answered.\<close>

theorem dns_self_pointer_hangs:
  assumes "dns_wf st" and "14 \<le> length pkt" and "header_is_query pkt" and "pkt ! 12 = 0xC0" and "pkt ! 13 = 0x0C"
  shows "dns_server_step up df pkt st p = None"
proof -
  let ?rx = "rx_buffer (dns_receive pkt st)"
  have rx: "?rx ! i = pkt ! i" if "i < 14" for i
    using that assms(1,2)
    by (simp add: dns_receive_def overlay_def dns_wf_def DNS_MAX_PACKET_SIZE_def nth_append)
  have len: "length ?rx = 512" using assms(1) by (simp add: dns_receive_def dns_wf_def DNS_MAX_PACKET_SIZE_def)
  have "header_is_query ?rx" using assms(3) by (simp add: header_is_query_def rx)
  moreover have "parse_domain_name ?rx DNS_HEADER_SIZE DOMAIN_TEXT_SIZE = None"
    unfolding parse_domain_name_def using len rx [of 12] rx [of 13] assms(4,5) pointer_to_question
    by (intro parse_loop_diverges) (simp_all add: DNS_HEADER_SIZE_def)
  moreover have "\<not> min (length pkt) DNS_MAX_PACKET_SIZE < DNS_HEADER_SIZE"
    using assms(2) by (simp add: DNS_MAX_PACKET_SIZE_def DNS_HEADER_SIZE_def)
  ultimately show ?thesis by (simp add: dns_server_step_def Let_def)
qed

theorem dns_self_pointer_hangs_witness:
  "dns_server_step \<lparr>up_socket = True, up_send = (\<lambda>_. True), up_recv = (\<lambda>_. None)\<rparr> domain_boot
     [0, 1, 1, 0, 0, 1, 0, 0, 0, 0, 0, 0, 0xC0, 0x0C] dns_boot plat0 = None"
proof -
  have "header_is_query [0, 1, 1, 0, 0, 1, 0, 0, 0, 0, 0, 0, 0xC0, 0x0C]" by code_simp
  then show ?thesis using dns_wf_boot by (intro dns_self_pointer_hangs) simp_all
qed

text \<open>C25: a query for a blocked name is never sent upstream. It is answered with the query
  itself, its header patched, and the blocking record, exactly when every percent sign in the
  name is doubled and the datagram leaves room for the sixteen bytes of the record; otherwise
  the server runs into undefined behaviour, the name having been used as a format string or
  the response buffer overrun.\<close>

theorem dns_blocked_query:
  assumes "is_query_for ls pkt" and "dns_wf st" and "is_domain_blocked (Some (join_labels ls)) df"
  shows "if percents_doubled (join_labels ls) \<and> length pkt + 16 \<le> DNS_MAX_PACKET_SIZE
    then \<exists>st' p'. dns_wf st' \<and>
      dns_server_step up df pkt st p = Some (Inr (Some (header_patch pkt @ blocked_answer), st', p'))
    else \<exists>u. dns_server_step up df pkt st p = Some (Inl u)"
proof -
  obtain st2 where st2: "dns_wf st2" and step: "dns_server_step up df pkt st p =
      Some (bindE (plat_log (''BLOCKED: '' @ join_labels ls) [] p) (\<lambda>p1.
        bindE (create_blocked_response pkt DNS_MAX_PACKET_SIZE) (\<lambda>resp.
        Inr (Some resp, st2\<lparr>tx_buffer := overlay resp (tx_buffer st2)\<rparr>, p1))))"
    using dns_query_step [OF assms(1,2), of up df p] assms(3) by auto
  have log: "is_defined (plat_log (''BLOCKED: '' @ join_labels ls) [] p) \<longleftrightarrow> percents_doubled (join_labels ls)"
    by (simp add: plat_log_text_defined percents_doubled_append)
  have wf: "dns_wf (st2\<lparr>tx_buffer := overlay resp (tx_buffer st2)\<rparr>)" for resp
    using st2 by (simp add: dns_wf_def)
  show ?thesis
    using log wf create_blocked_response_eq [OF is_query_for_length [OF assms(1)], of DNS_MAX_PACKET_SIZE]
    unfolding step by (cases "plat_log (''BLOCKED: '' @ join_labels ls) [] p") auto
qed

theorem dns_blocked_query_witness:
  "\<exists>s q st' p'. add_blocked_domain ram_api (Some evil) domain_boot \<lparr>plog = log_init, pflash = ram_empty\<rparr> = Inr (True, s, q) \<and>
     dns_server_step \<lparr>up_socket = True, up_send = (\<lambda>_. True), up_recv = (\<lambda>_. None)\<rparr> s sample_query dns_boot q =
       Some (Inr (Some (header_patch sample_query @ blocked_answer), st', p'))"
proof -
  let ?up = "\<lparr>up_socket = True, up_send = (\<lambda>_. True), up_recv = (\<lambda>_. None)\<rparr>"
  obtain s q where add: "add_blocked_domain ram_api (Some evil) domain_boot \<lparr>plog = log_init, pflash = ram_empty\<rparr> = Inr (True, s, q)"
    and s: "domains_wf s" "blocked_names s = {evil}" by (rule evil_added)
  have b: "is_domain_blocked (Some (join_labels [''x'', ''evil'', ''com''])) s"
    unfolding sample_query_facts by (rule sample_query_blocked [OF s])
  have "percents_doubled ''x.evil.com''" by code_simp
  then have "\<exists>st' p'. dns_server_step ?up s sample_query dns_boot q =
      Some (Inr (Some (header_patch sample_query @ blocked_answer), st', p'))"
    using dns_blocked_query [OF sample_query_facts(1) dns_wf_boot b, of ?up q]
    unfolding sample_query_facts by (auto simp: DNS_MAX_PACKET_SIZE_def)
  then show ?thesis using add by blast
qed

text \<open>A query for a name that is not blocked gets the upstream server's answer, cut to 512
  bytes, and no answer when the socket fails, nothing arrives or the answer is empty; the log
  stays as it is.\<close>

theorem dns_allowed_query:
  assumes "is_query_for ls pkt" and "dns_wf st" and "\<not> is_domain_blocked (Some (join_labels ls)) df"
  shows "\<exists>st'. dns_wf st' \<and> dns_server_step up df pkt st p = Some (Inr
    (if up_socket up \<and> up_send up pkt \<and> up_recv up pkt \<notin> {None, Some []}
     then Some (take 512 (the (up_recv up pkt))) else None, st', p))"
proof -
  obtain st2 where st2: "dns_wf st2" and step: "dns_server_step up df pkt st p =
      (case forward_dns_query up pkt DNS_MAX_PACKET_SIZE of
         None \<Rightarrow> Some (Inr (None, st2, p))
       | Some resp \<Rightarrow> if length resp > 0
           then Some (Inr (Some resp, st2\<lparr>tx_buffer := overlay resp (tx_buffer st2)\<rparr>, p))
           else Some (Inr (None, st2, p)))"
    using dns_query_step [OF assms(1,2), of up df p] assms(3) by auto
  have wf: "dns_wf (st2\<lparr>tx_buffer := overlay resp (tx_buffer st2)\<rparr>)" for resp
    using st2 by (simp add: dns_wf_def)
  show ?thesis
    unfolding step using st2 wf
    by (auto simp: forward_dns_query_def DNS_MAX_PACKET_SIZE_def split: option.split)
qed

theorem dns_allowed_query_witness:
  "\<exists>st'. dns_server_step \<lparr>up_socket = True, up_send = (\<lambda>_. True), up_recv = (\<lambda>_. Some [1, 2])\<rparr> domain_boot
     sample_query dns_boot plat0 = Some (Inr (Some [1, 2], st', plat0))"
proof -
  have "\<not> is_domain_blocked (Some (join_labels [''x'', ''evil'', ''com''])) domain_boot"
    by (simp add: is_domain_blocked_def domain_boot_def)
  from dns_allowed_query [OF sample_query_facts(1) dns_wf_boot this,
      of "\<lparr>up_socket = True, up_send = (\<lambda>_. True), up_recv = (\<lambda>_. Some [1, 2])\<rparr>" plat0]
  show ?thesis by auto
qed

text \<open>C26: the blocked answer to a query that ends with its question is a response with the
  query's id, no error and one answer, and a resolver that reads it finds, for the very name of
  the question, an address record of class IN with 60 seconds to live and address 0.0.0.0.\<close>

theorem dns_blocked_answer_reads_back:
  assumes "pkt = hdr @ name_bytes ls @ qt" and "length hdr = 12" and "wire_name ls" and "length qt = 4"
  shows "\<exists>resp. create_blocked_response pkt DNS_MAX_PACKET_SIZE = Inr resp \<and>
    take 2 resp = take 2 pkt \<and> u16_of (resp ! 3) (resp ! 2) = 0x8180 \<and> u16_of (resp ! 7) (resp ! 6) = 1 \<and>
    first_answer resp = Some \<lparr>rr_name = join_labels ls, rr_type = 1, rr_class = 1,
      rr_ttl = [0, 0, 0, 60], rr_data = [0, 0, 0, 0]\<rparr>"
proof -
  let ?resp = "patched_header hdr @ name_bytes ls @ qt @ blocked_answer"
  have len: "length pkt + 16 \<le> DNS_MAX_PACKET_SIZE" "12 \<le> length pkt"
    using assms by (simp_all add: wire_name_def DNS_MAX_PACKET_SIZE_def)
  have "create_blocked_response pkt DNS_MAX_PACKET_SIZE = Inr ?resp"
    using create_blocked_response_eq [OF len(2)] len(1) header_patch_query [OF assms(2)] assms(1) by simp
  moreover have "take 2 ?resp = take 2 pkt" using assms(1,2) by (simp add: patched_header_def)
  moreover have "u16_of (?resp ! 3) (?resp ! 2) = 0x8180" "u16_of (?resp ! 7) (?resp ! 6) = 1"
    using assms(2) by (simp_all add: patched_header_def nth_append u16_of_def)
  ultimately show ?thesis using first_blocked_answer [OF assms(2-4)] by blast
qed

theorem dns_blocked_answer_reads_back_witness:
  "\<exists>resp. create_blocked_response sample_query DNS_MAX_PACKET_SIZE = Inr resp \<and>
     first_answer resp = Some \<lparr>rr_name = ''x.evil.com'', rr_type = 1, rr_class = 1,
       rr_ttl = [0, 0, 0, 60], rr_data = [0, 0, 0, 0]\<rparr>"
proof -
  have "wire_name [''x'', ''evil'', ''com'']" by code_simp
  from dns_blocked_answer_reads_back [OF sample_query_def _ this] show ?thesis
    unfolding sample_query_facts by auto
qed

text \<open>When the query carries an EDNS record behind its question, as the queries of current
  resolvers do, the blocking record is appended behind that: the header announces one answer,
  and the record a resolver finds in its place is the EDNS record, type 41, of the root name,
  without an address.\<close>

theorem dns_blocked_answer_misplaced:
  assumes "pkt = hdr @ name_bytes ls @ qt @ [0, 0, 41, c1, c0, t3, t2, t1, t0, 0, 0]" and "length hdr = 12"
    and "wire_name ls" and "length qt = 4"
  shows "\<exists>resp. create_blocked_response pkt DNS_MAX_PACKET_SIZE = Inr resp \<and>
    u16_of (resp ! 7) (resp ! 6) = 1 \<and> u16_of (resp ! 11) (resp ! 10) = 0 \<and>
    first_answer resp = Some \<lparr>rr_name = [], rr_type = 41, rr_class = u16_of c0 c1,
      rr_ttl = [t3, t2, t1, t0], rr_data = []\<rparr>"
proof -
  let ?opt = "[0, 0, 41, c1, c0, t3, t2, t1, t0, 0, 0]"
  let ?resp = "patched_header hdr @ name_bytes ls @ qt @ ?opt @ blocked_answer"
  let ?pre = "patched_header hdr @ name_bytes ls @ qt"
  define n where "n = 12 + length (name_bytes ls) + 4"
  have len: "length pkt + 16 \<le> DNS_MAX_PACKET_SIZE" "12 \<le> length pkt"
    using assms by (simp_all add: wire_name_def DNS_MAX_PACKET_SIZE_def)
  have made: "create_blocked_response pkt DNS_MAX_PACKET_SIZE = Inr ?resp"
    using create_blocked_response_eq [OF len(2)] len(1) header_patch_query [OF assms(2)] assms(1) by simp
  have pre: "length ?pre = n" using assms(2,4) by (simp add: length_patched_header n_def)
  have b: "?resp ! (n + k) = (?opt @ blocked_answer) ! k" for k
    using nth_after [OF pre, of "?opt @ blocked_answer" k] unfolding append_assoc .
  have d: "drop (n + k) ?resp = drop k (?opt @ blocked_answer)" for k
    using drop_after [OF pre, of k "?opt @ blocked_answer"] unfolding append_assoc .
  have L: "length ?resp = n + 27"
    using arg_cong [OF d [of 0], of length] pre by (simp add: blocked_answer_def)
  have p: "parse_domain_name ?resp n DOMAIN_TEXT_SIZE = Some (Inr (Parsed [] (n + 1)))"
    unfolding parse_domain_name_def using L b [of 0] by (simp add: parse_end)
  have ix: "n + 1 + k = n + (1 + k)" for k by simp
  have bytes: "?resp ! (n + 1) = 0" "?resp ! (n + 1 + 1) = 41" "?resp ! (n + 1 + 2) = c1" "?resp ! (n + 1 + 3) = c0"
    "?resp ! (n + 1 + 8) = 0" "?resp ! (n + 1 + 9) = 0"
    using b [of 1] unfolding ix b by simp_all
  have ttl: "take 4 (drop (n + 1 + 4) ?resp) = [t3, t2, t1, t0]" unfolding ix d by simp
  have w: "u16_of 41 0 = 41" "unat (u16_of 0 0) = 0" by (simp_all add: u16_of_def)
  have "read_rr ?resp n = Some \<lparr>rr_name = [], rr_type = 41, rr_class = u16_of c0 c1,
      rr_ttl = [t3, t2, t1, t0], rr_data = []\<rparr>"
    unfolding read_rr_def p by (simp only: option.case sum.case parsed.case bytes w ttl) (use L in simp)
  then have "first_answer ?resp = Some \<lparr>rr_name = [], rr_type = 41, rr_class = u16_of c0 c1,
      rr_ttl = [t3, t2, t1, t0], rr_data = []\<rparr>"
    unfolding first_answer_def response_question [OF assms(2,3)] by (simp add: n_def)
  moreover have "u16_of (?resp ! 7) (?resp ! 6) = 1" "u16_of (?resp ! 11) (?resp ! 10) = 0"
    using assms(2) by (simp_all add: patched_header_def nth_append u16_of_def)
  ultimately show ?thesis using made by blast
qed

theorem dns_blocked_answer_misplaced_witness:
  "\<exists>resp. create_blocked_response (sample_query @ [0, 0, 41, 0x10, 0, 0, 0, 0, 0, 0, 0]) DNS_MAX_PACKET_SIZE = Inr resp \<and>
     first_answer resp = Some \<lparr>rr_name = [], rr_type = 41, rr_class = u16_of 0 0x10,
       rr_ttl = [0, 0, 0, 0], rr_data = []\<rparr>"
proof -
  have w: "wire_name [''x'', ''evil'', ''com'']" by code_simp
  have "sample_query @ [0, 0, 41, 0x10, 0, 0, 0, 0, 0, 0, 0] =
      [0x12, 0x34, 0x01, 0x00, 0x00, 0x01, 0, 0, 0, 0, 0, 0] @ name_bytes [''x'', ''evil'', ''com''] @
        [0, 1, 0, 1] @ [0, 0, 41, 0x10, 0, 0, 0, 0, 0, 0, 0]"
    by (simp add: sample_query_def)
  from dns_blocked_answer_misplaced [OF this _ w] show ?thesis by auto
qed

end
