(* ===== verification/Rate_Limit.thy ===== *)
theory Rate_Limit
  imports Dns_Server
begin

text \<open>
  The rate limiter of the DNS server (\<open>check_rate_limit_mac\<close>): a table of twenty clients, each
  with the second its counter was last reset in. Nothing calls it, so it limits nothing; what
  it would do is proved here for its own sake.
\<close>

section \<open>The rate limiter\<close>

text \<open>The answers to a sequence of calls in one second.\<close>

fun rate_run :: "u32 \<Rightarrow> mac list \<Rightarrow> rate_state \<Rightarrow> bool list \<times> rate_state" where
  "rate_run now [] r = ([], r)"
| "rate_run now (m # ms) r =
     (let (ok, r1) = check_rate_limit_mac now m r; (oks, r2) = rate_run now ms r1 in (ok # oks, r2))"

definition rate_wf :: "rate_state \<Rightarrow> bool" where
  "rate_wf r \<longleftrightarrow> length (clients r) = MAX_CLIENTS \<and> num_clients r \<le> MAX_CLIENTS"

definition granted :: "mac \<Rightarrow> mac list \<Rightarrow> bool list \<Rightarrow> nat" where
  "granted m ms oks = length (filter (\<lambda>(x, ok). x = m \<and> ok) (zip ms oks))"

text \<open>What a client may still be granted in the second \<open>now\<close>.\<close>

definition budget :: "u32 \<Rightarrow> mac \<Rightarrow> rate_state \<Rightarrow> nat" where
  "budget now m r =
     (case first_idx (\<lambda>c. mr_mac c = m) (take (num_clients r) (clients r)) of
        None \<Rightarrow> MAX_REQUESTS_PER_SECOND
      | Some i \<Rightarrow> if now - mr_last_reset (clients r ! i) \<ge> 1 then MAX_REQUESTS_PER_SECOND
                   else MAX_REQUESTS_PER_SECOND - mr_count (clients r ! i))"


lemma rate_wf_step: "rate_wf r \<Longrightarrow> check_rate_limit_mac now x r = (ok, r') \<Longrightarrow> rate_wf r'"
  by (auto simp: check_rate_limit_mac_def rate_wf_def Let_def split: option.splits if_splits)

lemma first_idx_append_miss: "\<not> P e \<Longrightarrow> first_idx P (xs @ [e]) = first_idx P xs"
  by (induction xs) auto

lemma first_idx_same_key:
  assumes "\<And>j. j < length xs \<Longrightarrow> P (ys ! j) = P (xs ! j)" and "length ys = length xs"
  shows "first_idx P ys = first_idx P xs"
  using assms
proof (induction xs arbitrary: ys)
  case (Cons x xs)
  then obtain y ys' where ys: "ys = y # ys'" by (cases ys) auto
  have "P y = P x" using Cons.prems(1) [of 0] ys by simp
  moreover have "first_idx P ys' = first_idx P xs"
    using Cons.IH [of ys'] Cons.prems(1) [of "Suc _"] Cons.prems(2) ys by fastforce
  ultimately show ?case using ys by simp
qed simp

text \<open>One call: the caller pays from its own budget, nobody else does.\<close>

lemma budget_step:
  assumes wf: "rate_wf r" and step: "check_rate_limit_mac now x r = (ok, r')"
  shows "budget now m r' + (if x = m \<and> ok then 1 else 0) \<le> budget now m r"
proof (cases "first_idx (\<lambda>c. mr_mac c = x) (take (num_clients r) (clients r))")
  case (Some i)
  note i = first_idx_SomeD [OF Some]
  let ?c = "clients r ! i"
  have ci: "i < num_clients r" "i < length (clients r)" using i(1) by simp_all
  have mac: "mr_mac ?c = x" using i(2) ci by simp
  obtain c' where r': "r' = r\<lparr>clients := (clients r)[i := c']\<rparr>"
    and c': "mr_mac c' = x" "ok \<longleftrightarrow> mr_count c' \<le> MAX_REQUESTS_PER_SECOND"
      "mr_last_reset c' = (if now - mr_last_reset ?c \<ge> 1 then now else mr_last_reset ?c)"
      "mr_count c' = (if now - mr_last_reset ?c \<ge> 1 then 1 else mr_count ?c + 1)"
    using step Some mac by (auto simp: check_rate_limit_mac_def Let_def split: if_splits)
  have key: "first_idx (\<lambda>c. mr_mac c = m) (take (num_clients r) ((clients r)[i := c'])) =
      first_idx (\<lambda>c. mr_mac c = m) (take (num_clients r) (clients r))" for m
    using c'(1) mac ci by (intro first_idx_same_key) (auto simp: nth_list_update)
  show ?thesis
  proof (cases "x = m")
    case True
    have f: "first_idx (\<lambda>c. mr_mac c = m) (take (num_clients r) (clients r)) = Some i" using Some True by simp
    show ?thesis
      using c' ci True by (auto simp: budget_def r' key f MAX_REQUESTS_PER_SECOND_def)
  next
    case False
    have "i \<noteq> k" if "first_idx (\<lambda>c. mr_mac c = m) (take (num_clients r) (clients r)) = Some k" for k
      using first_idx_SomeD(2) [OF that] first_idx_SomeD(1) [OF that] mac False by auto
    then show ?thesis using False
      by (auto simp: budget_def r' key split: option.split)
  qed
next
  case None
  show ?thesis
  proof (cases "num_clients r < MAX_CLIENTS")
    case False
    then show ?thesis using step None by (auto simp: check_rate_limit_mac_def)
  next
    case True
    let ?e = "\<lparr>mr_mac = x, mr_last_reset = now, mr_count = Suc 0\<rparr>"
    have r': "r' = r\<lparr>clients := (clients r)[num_clients r := ?e], num_clients := Suc (num_clients r)\<rparr>" and ok
      using step None True by (auto simp: check_rate_limit_mac_def)
    have tk: "take (Suc (num_clients r)) ((clients r)[num_clients r := ?e]) = take (num_clients r) (clients r) @ [?e]"
      using True wf by (simp add: rate_wf_def take_Suc_conv_app_nth)
    have nl: "num_clients r < length (clients r)" using True wf by (simp add: rate_wf_def)
    have none: "\<forall>j < num_clients r. mr_mac (clients r ! j) \<noteq> x"
      using None nl by (simp add: first_idx_None) (metis in_set_conv_nth length_take min.absorb4 nth_take)
    show ?thesis
    proof (cases "x = m")
      case True
      have "first_idx (\<lambda>c. mr_mac c = x) (take (num_clients r) (clients r) @ [?e]) = Some (num_clients r)"
        using none nl by (auto simp: first_idx_Some_iff nth_append)
      then have "budget now m r' = MAX_REQUESTS_PER_SECOND - 1"
        using True nl by (simp add: budget_def r' tk [unfolded True])
      then show ?thesis using None True by (simp add: budget_def MAX_REQUESTS_PER_SECOND_def)
    next
      case False
      have "first_idx (\<lambda>c. mr_mac c = m) (take (num_clients r) (clients r) @ [?e]) =
          first_idx (\<lambda>c. mr_mac c = m) (take (num_clients r) (clients r))"
        using False by (intro first_idx_append_miss) simp
      moreover have "k \<noteq> num_clients r" if "first_idx (\<lambda>c. mr_mac c = m) (take (num_clients r) (clients r)) = Some k" for k
        using first_idx_SomeD(1) [OF that] by auto
      ultimately show ?thesis using False by (auto simp: budget_def r' tk split: option.split)
    qed
  qed
qed

lemma rate_run_budget:
  "rate_wf r \<Longrightarrow> rate_run now ms r = (oks, r') \<Longrightarrow> granted m ms oks + budget now m r' \<le> budget now m r"
proof (induction ms arbitrary: r oks)
  case (Cons x ms)
  obtain ok r1 where step: "check_rate_limit_mac now x r = (ok, r1)" by fastforce
  obtain oks1 where run: "rate_run now ms r1 = (oks1, r')" and oks: "oks = ok # oks1"
    using Cons.prems(2) step by (auto split: prod.splits)
  have "granted m ms oks1 + budget now m r' \<le> budget now m r1"
    using Cons.IH [OF rate_wf_step [OF Cons.prems(1) step] run] .
  moreover have "granted m (x # ms) oks = (if x = m \<and> ok then 1 else 0) + granted m ms oks1"
    by (simp add: granted_def oks)
  ultimately show ?case using budget_step [OF Cons.prems(1) step, of m] by simp
qed (simp add: granted_def)

section \<open>Property\<close>

text \<open>Within one second, whatever calls are made for whatever clients, the rate limiter would
  grant no client more than five of them.\<close>

theorem rate_limit_per_second:
  assumes "rate_wf r" and "rate_run now ms r = (oks, r')"
  shows "granted m ms oks \<le> MAX_REQUESTS_PER_SECOND"
proof -
  have "budget now m r \<le> MAX_REQUESTS_PER_SECOND" by (simp add: budget_def split: option.split)
  then show ?thesis using rate_run_budget [OF assms, of m] by linarith
qed

definition rate_boot :: rate_state where
  "rate_boot = \<lparr>clients = replicate MAX_CLIENTS \<lparr>mr_mac = zero_mac, mr_last_reset = 0, mr_count = 0\<rparr>,
     num_clients = 0\<rparr>"

theorem rate_limit_per_second_witness:
  "\<exists>oks r'. rate_run 7 (replicate 9 [1, 2, 3, 4, 5, 6]) rate_boot = (oks, r') \<and>
     granted [1, 2, 3, 4, 5, 6] (replicate 9 [1, 2, 3, 4, 5, 6]) oks \<le> MAX_REQUESTS_PER_SECOND"
proof -
  obtain oks r' where run: "rate_run 7 (replicate 9 [1, 2, 3, 4, 5, 6]) rate_boot = (oks, r')" by fastforce
  have "rate_wf rate_boot" by (simp add: rate_wf_def rate_boot_def)
  then show ?thesis using run rate_limit_per_second [OF _ run] by blast
qed

end
