(* ===== verification/Portmap.thy ===== *)
theory Portmap
  imports Nvs
begin

text \<open>
  The port mapping table (\<open>portmap_tab\<close> in \<open>main/esp32_nat_router.c\<close>), kept in NVS and
  mirrored in the NAPT table of the IP stack.

  The number of slots, \<open>IP_PORTMAP_MAX\<close>, belongs to the IP stack: it is the length of the
  list. Calls into the IP stack and the radio are recorded in a trace, oldest first; what
  they do to the stack is the locale \<open>napt_driver\<close>. An entry is twelve bytes in memory, two
  of them padding, which the code never writes but does save.
\<close>

section \<open>Data\<close>

record portmap_entry =
  pm_daddr :: u32
  pm_mport :: u16
  pm_dport :: u16
  pm_proto :: byte
  pm_valid :: byte
  pm_pad :: "byte list"

datatype net_call =
    Ip_portmap_add byte u32 u16 u32 u16
  | Ip_portmap_remove byte u16
  | Wifi_connect
  | Wifi_deauth byte
  | Set_connected_bit
  | Clear_connected_bit

record net =
  portmap_tab :: "portmap_entry list"
  my_ip :: u32
  ap_connect :: bool
  net_calls :: "net_call list"

definition zero_entry :: portmap_entry where
  "zero_entry = \<lparr>pm_daddr = 0, pm_mport = 0, pm_dport = 0, pm_proto = 0, pm_valid = 0, pm_pad = [0, 0]\<rparr>"

definition net_boot :: "nat \<Rightarrow> net" where
  "net_boot n = \<lparr>portmap_tab = replicate n zero_entry, my_ip = 0, ap_connect = False, net_calls = []\<rparr>"

definition call :: "net_call \<Rightarrow> net \<Rightarrow> net" where
  "call c s = s\<lparr>net_calls := net_calls s @ [c]\<rparr>"

section \<open>Mirroring the table\<close>

definition apply_portmap_tab :: "net \<Rightarrow> net" where
  "apply_portmap_tab s = fold (\<lambda>e s. if pm_valid e \<noteq> 0
       then call (Ip_portmap_add (pm_proto e) (my_ip s) (pm_mport e) (pm_daddr e) (pm_dport e)) s else s)
     (portmap_tab s) s"

definition delete_portmap_tab :: "net \<Rightarrow> net" where
  "delete_portmap_tab s = fold (\<lambda>e s. if pm_valid e \<noteq> 0
       then call (Ip_portmap_remove (pm_proto e) (pm_mport e)) s else s) (portmap_tab s) s"

section \<open>Printing\<close>

text \<open>\<open>IPSTR\<close> and \<open>IP2STR\<close>: the four bytes of an address in memory order.\<close>

definition ip_string :: "u32 \<Rightarrow> string" where
  "ip_string a = (case map (\<lambda>b. dec_of_nat (unat b)) (le32 a) of
     [w, x, y, z] \<Rightarrow> w @ ''.'' @ x @ ''.'' @ y @ ''.'' @ z | _ \<Rightarrow> [])"

definition PROTO_TCP :: byte where "PROTO_TCP = 6"
definition PROTO_UDP :: byte where "PROTO_UDP = 17"

definition print_portmap_tab :: "net \<Rightarrow> string" where
  "print_portmap_tab s = concat (map (\<lambda>e. if pm_valid e \<noteq> 0
     then (if pm_proto e = PROTO_TCP then ''TCP '' else ''UDP '') @
       ip_string (my_ip s) @ '':'' @ dec_of_nat (unat (pm_mport e)) @ '' -> '' @
       ip_string (pm_daddr e) @ '':'' @ dec_of_nat (unat (pm_dport e)) @ [newline]
     else []) (portmap_tab s))"

section \<open>Saving and loading\<close>

definition ENTRY_SIZE :: nat where "ENTRY_SIZE = 12"

definition entry_bytes :: "portmap_entry \<Rightarrow> byte list" where
  "entry_bytes e = le32 (pm_daddr e) @ le16 (pm_mport e) @ le16 (pm_dport e) @
     [pm_proto e, pm_valid e] @ pm_pad e"

definition entry_of_bytes :: "byte list \<Rightarrow> portmap_entry" where
  "entry_of_bytes b = \<lparr>pm_daddr = u32_of (b ! 0) (b ! 1) (b ! 2) (b ! 3), pm_mport = u16_of (b ! 4) (b ! 5),
     pm_dport = u16_of (b ! 6) (b ! 7), pm_proto = b ! 8, pm_valid = b ! 9, pm_pad = drop 10 b\<rparr>"

definition tab_bytes :: "portmap_entry list \<Rightarrow> byte list" where
  "tab_bytes es = concat (map entry_bytes es)"

definition tab_of_bytes :: "nat \<Rightarrow> byte list \<Rightarrow> portmap_entry list" where
  "tab_of_bytes n b = decode_array ENTRY_SIZE entry_of_bytes n b"

definition NVS_KEY_PORTMAP :: string where "NVS_KEY_PORTMAP = ''portmap_tab''"

definition get_portmap_tab :: "'f nvs_api \<Rightarrow> net \<Rightarrow> 'f plat \<Rightarrow> esp_err \<times> net \<times> 'f plat" where
  "get_portmap_tab api s p =
     (case nvs_open api PARAM_NAMESPACE NVS_READWRITE (pflash p) of (err, nvs, f1) \<Rightarrow>
        if err \<noteq> ESP_OK then (err, s, p\<lparr>pflash := f1\<rparr>)
        else
          let size = ENTRY_SIZE * length (portmap_tab s);
              done = p\<lparr>pflash := nvs_close api nvs f1\<rparr>
          in (case nvs_len api nvs NVS_KEY_PORTMAP NVS_TYPE_BLOB f1 of
                Inl e \<Rightarrow> (e, s, done)
              | Inr len \<Rightarrow>
                  if len \<noteq> size then (ESP_ERR_NVS_INVALID_LENGTH, s, done)
                  else (case nvs_get api nvs NVS_KEY_PORTMAP NVS_TYPE_BLOB len f1 of
                      Inr (NvBlob b) \<Rightarrow>
                        (ESP_OK, s\<lparr>portmap_tab := tab_of_bytes (length (portmap_tab s))
                            (overlay b (tab_bytes (portmap_tab s)))\<rparr>, done)
                    | Inr _ \<Rightarrow> (ESP_OK, s, done)
                    | Inl e \<Rightarrow> (e, s\<lparr>portmap_tab := replicate (length (portmap_tab s)) zero_entry\<rparr>, done))))"

text \<open>The block that saves the table; \<open>ok\<close> is the action after a successful commit.\<close>

definition store_portmap ::
    "'f nvs_api \<Rightarrow> ('f plat \<Rightarrow> 'f plat cres) \<Rightarrow> net \<Rightarrow> 'f plat \<Rightarrow> (esp_err \<times> 'f plat) cres" where
  "store_portmap api ok s p =
     (case nvs_open api PARAM_NAMESPACE NVS_READWRITE (pflash p) of (err, nvs, f1) \<Rightarrow>
        if err \<noteq> ESP_OK then Inr (err, p\<lparr>pflash := f1\<rparr>)
        else (case nvs_set api nvs NVS_KEY_PORTMAP (NvBlob (tab_bytes (portmap_tab s))) f1 of (err1, f2) \<Rightarrow>
          bindE (if err1 = ESP_OK
                 then (case nvs_commit api nvs f2 of (err2, f3) \<Rightarrow>
                         if err2 = ESP_OK then ok (p\<lparr>pflash := f3\<rparr>) else Inr (p\<lparr>pflash := f3\<rparr>))
                 else Inr (p\<lparr>pflash := f2\<rparr>))
            (\<lambda>p1. Inr (ESP_OK, p1\<lparr>pflash := nvs_close api nvs (pflash p1)\<rparr>))))"

section \<open>Operations\<close>

definition add_portmap ::
    "'f nvs_api \<Rightarrow> byte \<Rightarrow> u16 \<Rightarrow> u32 \<Rightarrow> u16 \<Rightarrow> net \<Rightarrow> 'f plat \<Rightarrow> (esp_err \<times> net \<times> 'f plat) cres" where
  "add_portmap api proto mport daddr dport s p =
     (case first_idx (\<lambda>e. pm_valid e = 0) (portmap_tab s) of
        Some i \<Rightarrow>
          let s1 = s\<lparr>portmap_tab := (portmap_tab s)[i := (portmap_tab s ! i)
                      \<lparr>pm_proto := proto, pm_mport := mport, pm_daddr := daddr, pm_dport := dport, pm_valid := 1\<rparr>]\<rparr>
          in bindE (store_portmap api (plat_log ''New portmap table stored'' []) s1 p) (\<lambda>(err, p1).
             if err \<noteq> ESP_OK then Inr (err, s1, p1)
             else Inr (ESP_OK, call (Ip_portmap_add proto (my_ip s1) mport daddr dport) s1, p1))
      | None \<Rightarrow> Inr (ESP_ERR_NO_MEM, s, p))"

definition del_portmap ::
    "'f nvs_api \<Rightarrow> byte \<Rightarrow> u16 \<Rightarrow> net \<Rightarrow> 'f plat \<Rightarrow> (esp_err \<times> net \<times> 'f plat) cres" where
  "del_portmap api proto mport s p =
     (case first_idx (\<lambda>e. pm_valid e \<noteq> 0 \<and> pm_mport e = mport \<and> pm_proto e = proto) (portmap_tab s) of
        Some i \<Rightarrow>
          let s1 = s\<lparr>portmap_tab := (portmap_tab s)[i := (portmap_tab s ! i)\<lparr>pm_valid := 0\<rparr>]\<rparr>
          in bindE (store_portmap api Inr s1 p) (\<lambda>(err, p1).
             if err \<noteq> ESP_OK then Inr (err, s1, p1)
             else Inr (ESP_OK, call (Ip_portmap_remove proto mport) s1, p1))
      | None \<Rightarrow> Inr (ESP_OK, s, p))"

end
