(* ===== verification/Wifi.thy ===== *)
theory Wifi
  imports Devices Portmap "HOL-Library.Multiset"
begin

text \<open>
  The event handler of the radio, the status LED and the radio configuration
  (\<open>wifi_event_handler\<close>, \<open>led_status_thread\<close> and \<open>wifi_init\<close> in \<open>main/esp32_nat_router.c\<close>).

  An event carries the data the handler reads from it; what \<open>esp_wifi_deauth_sta\<close> and
  \<open>esp_netif_get_dns_info\<close> answer is a parameter, as is \<open>esp_ip4addr_aton\<close>.
\<close>

section \<open>Events\<close>

datatype wifi_event =
    STA_START
  | STA_DISCONNECTED
  | STA_GOT_IP u32
  | AP_STACONNECTED mac byte
  | AP_STADISCONNECTED mac
  | OTHER_EVENT

record wifi =
  w_net :: net
  w_dev :: devices

definition log_mac :: "mac \<Rightarrow> 'f plat \<Rightarrow> 'f plat cres" where
  "log_mac m p = plat_log (mac_string m) [] p"

definition on_got_ip :: "esp_err \<Rightarrow> u32 \<Rightarrow> wifi \<Rightarrow> 'f plat \<Rightarrow> (wifi \<times> 'f plat) cres" where
  "on_got_ip dns_info ip w p =
     bindE (plat_log ''got ip'' [] p) (\<lambda>p1.
       let n1 = (w_net w)\<lparr>ap_connect := True, my_ip := ip\<rparr>;
           n2 = apply_portmap_tab (delete_portmap_tab n1)
       in bindE (if dns_info = ESP_OK
                 then plat_log ''Upstream DNS learned. Not applying to AP to preserve filtering.'' [] p1
                 else Inr p1) (\<lambda>p2.
          Inr (w\<lparr>w_net := call Set_connected_bit n2\<rparr>, p2)))"

definition on_ap_connected :: "(byte \<Rightarrow> esp_err) \<Rightarrow> mac \<Rightarrow> byte \<Rightarrow> wifi \<Rightarrow> 'f plat \<Rightarrow> (wifi \<times> 'f plat) cres" where
  "on_ap_connected deauth m aid w p =
     (if device_status m (w_dev w) = BLOCKED then
        bindE (plat_log ''Blocked device attempting connection'' [] p) (\<lambda>p1.
          let err = deauth aid; w1 = w\<lparr>w_net := call (Wifi_deauth aid) (w_net w)\<rparr>
          in if err = ESP_OK
             then bindE (plat_log ''Blocked MAC:'' [] p1) (\<lambda>p2. bindE (log_mac m p2) (\<lambda>p3. Inr (w1, p3)))
             else Inr (w1, p1))
      else
        let d1 = push_connected m (w_dev w);
            d2 = d1\<lparr>connect_count := connect_count d1 + 1\<rparr>;
            d3 = add_device m d2
        in bindE (plat_log ''Device connected'' [] p) (\<lambda>p1.
           bindE (plat_log ''MAC:'' [] p1) (\<lambda>p2.
           bindE (log_mac m p2) (\<lambda>p3. Inr (w\<lparr>w_dev := d3\<rparr>, p3)))))"

definition on_ap_disconnected :: "mac \<Rightarrow> wifi \<Rightarrow> 'f plat \<Rightarrow> (wifi \<times> 'f plat) cres" where
  "on_ap_disconnected m w p =
     (let d1 = drop_connected m (w_dev w);
          d2 = d1\<lparr>connect_count := connect_count d1 - 1\<rparr>
      in bindE (plat_log ''Device disconnected'' [] p) (\<lambda>p1.
         bindE (plat_log ''MAC:'' [] p1) (\<lambda>p2.
         bindE (log_mac m p2) (\<lambda>p3. Inr (w\<lparr>w_dev := d2\<rparr>, p3)))))"

fun wifi_event_handler ::
    "(byte \<Rightarrow> esp_err) \<Rightarrow> esp_err \<Rightarrow> wifi_event \<Rightarrow> wifi \<Rightarrow> 'f plat \<Rightarrow> (wifi \<times> 'f plat) cres" where
  "wifi_event_handler deauth dns_info STA_START w p = Inr (w\<lparr>w_net := call Wifi_connect (w_net w)\<rparr>, p)"
| "wifi_event_handler deauth dns_info STA_DISCONNECTED w p =
     bindE (plat_log ''disconnected - retrying to connect to the AP'' [] p) (\<lambda>p1.
       Inr (w\<lparr>w_net := call Clear_connected_bit (call Wifi_connect ((w_net w)\<lparr>ap_connect := False\<rparr>))\<rparr>, p1))"
| "wifi_event_handler deauth dns_info (STA_GOT_IP ip) w p = on_got_ip dns_info ip w p"
| "wifi_event_handler deauth dns_info (AP_STACONNECTED m aid) w p = on_ap_connected deauth m aid w p"
| "wifi_event_handler deauth dns_info (AP_STADISCONNECTED m) w p = on_ap_disconnected m w p"
| "wifi_event_handler deauth dns_info OTHER_EVENT w p = Inr (w, p)"

section \<open>The status LED\<close>

text \<open>The levels written to the LED in one round of \<open>led_status_thread\<close>.\<close>

definition led_round :: "bool \<Rightarrow> u16 \<Rightarrow> bool list" where
  "led_round apc n = apc # concat (map (\<lambda>_. [\<not> apc, apc]) [0..<unat n])"

section \<open>Configuration\<close>

datatype wifi_mode = WIFI_MODE_AP | WIFI_MODE_APSTA

record enterprise =
  en_identity :: string
  en_username :: string
  en_password :: string

record wifi_params =
  wp_mac :: "mac option"
  wp_ssid :: string
  wp_ent_username :: string
  wp_ent_identity :: string
  wp_passwd :: string
  wp_static_ip :: string
  wp_subnet_mask :: string
  wp_gateway_addr :: string
  wp_ap_mac :: "mac option"
  wp_ap_ssid :: string
  wp_ap_passwd :: string
  wp_ap_ip :: string

record wifi_setup =
  ws_mode :: wifi_mode
  ws_static :: "(u32 \<times> u32 \<times> u32) option"   \<comment> \<open>address, gateway, netmask; DHCP client stopped\<close>
  ws_sta_ssid :: string
  ws_sta_password :: string
  ws_enterprise :: "enterprise option"
  ws_sta_mac :: "mac option"
  ws_ap_ssid :: string
  ws_ap_password :: string
  ws_ap_open :: bool
  ws_ap_mac :: "mac option"
  ws_ap_ip :: u32
  ws_dns :: u32                                \<comment> \<open>the DNS server the access point announces\<close>

definition has_static :: "wifi_params \<Rightarrow> bool" where
  "has_static c \<longleftrightarrow> 0 < length (wp_ssid c) \<and> 0 < length (wp_static_ip c) \<and>
     0 < length (wp_subnet_mask c) \<and> 0 < length (wp_gateway_addr c)"

definition wifi_setup_of :: "(string \<Rightarrow> u32) \<Rightarrow> wifi_params \<Rightarrow> wifi_setup" where
  "wifi_setup_of aton c =
     (let sta = 0 < length (wp_ssid c);
          ent = length (wp_ent_username c) \<noteq> 0 \<and> length (wp_ent_identity c) \<noteq> 0
      in \<lparr>ws_mode = (if sta then WIFI_MODE_APSTA else WIFI_MODE_AP),
          ws_static = (if has_static c
             then Some (aton (wp_static_ip c), aton (wp_gateway_addr c), aton (wp_subnet_mask c)) else None),
          ws_sta_ssid = (if sta then strlcpy 32 (wp_ssid c) else []),
          ws_sta_password = (if sta \<and> length (wp_ent_username c) = 0 then strlcpy 64 (wp_passwd c) else []),
          ws_enterprise = (if sta \<and> ent then Some
             \<lparr>en_identity = (if length (wp_ent_username c) \<noteq> 0 \<and> length (wp_ent_identity c) \<noteq> 0
                             then wp_ent_identity c else wp_ent_username c),
              en_username = wp_ent_username c, en_password = wp_passwd c\<rparr> else None),
          ws_sta_mac = (if sta then wp_mac c else None),
          ws_ap_ssid = strlcpy 32 (wp_ap_ssid c),
          ws_ap_password = (if length (wp_ap_passwd c) < 8 then [] else strlcpy 64 (wp_ap_passwd c)),
          ws_ap_open = (length (wp_ap_passwd c) < 8),
          ws_ap_mac = wp_ap_mac c,
          ws_ap_ip = aton (wp_ap_ip c),
          ws_dns = aton (wp_ap_ip c)\<rparr>)"

definition wifi_init ::
    "(string \<Rightarrow> u32) \<Rightarrow> wifi_params \<Rightarrow> net \<Rightarrow> 'f plat \<Rightarrow> (wifi_setup \<times> net \<times> 'f plat) cres" where
  "wifi_init aton c n p =
     (let cfg = wifi_setup_of aton c;
          n1 = (if has_static c then apply_portmap_tab n else n);
          sta = 0 < length (wp_ssid c)
      in bindE (if sta \<and> length (wp_ent_username c) = 0
                then plat_log ''STA regular connection'' [] p else Inr p) (\<lambda>p1.
         bindE (if sta \<and> length (wp_ent_username c) \<noteq> 0 \<and> length (wp_ent_identity c) \<noteq> 0
                then plat_log ''STA enterprise connection'' [] p1 else Inr p1) (\<lambda>p2.
         bindE (plat_log ''DNS filtering enabled'' [] p2) (\<lambda>p3.
         if sta
         then bindE (plat_log ''wifi_init_apsta finished.'' [] p3) (\<lambda>p4.
              bindE (plat_log ''connect to ap SSID %s'' [VStr (wp_ssid c)] p4) (\<lambda>p5. Inr (cfg, n1, p5)))
         else Inr (cfg, n1, p3)))))"

section \<open>The handler always ends\<close>

lemma log_mac_eq [simp]: "log_mac m p = Inr (p\<lparr>plog := put_line (mac_string m) (plog p)\<rparr>)"
  using mac_string_chars [of m] by (simp add: log_mac_def)

lemma connected_event:
  "\<exists>n' p'. wifi_event_handler deauth di (AP_STACONNECTED m aid) w p =
     Inr (w\<lparr>w_net := n', w_dev := (if device_status m (w_dev w) = BLOCKED then w_dev w
       else add_device m ((push_connected m (w_dev w))\<lparr>connect_count := connect_count (w_dev w) + 1\<rparr>))\<rparr>, p')"
  by (cases w) (auto simp: on_ap_connected_def Let_def frame_simps)

lemma disconnected_event:
  "\<exists>p'. wifi_event_handler deauth di (AP_STADISCONNECTED m) w p =
     Inr (w\<lparr>w_dev := (drop_connected m (w_dev w))\<lparr>connect_count := connect_count (w_dev w) - 1\<rparr>\<rparr>, p')"
  by (simp add: on_ap_disconnected_def Let_def frame_simps)

lemma handler_runs: "\<exists>w' p'. wifi_event_handler deauth di ev w p = Inr (w', p')"
proof (cases ev)
  case (AP_STACONNECTED m aid)
  then show ?thesis using connected_event by blast
next
  case (AP_STADISCONNECTED m)
  then show ?thesis using disconnected_event by blast
qed (simp_all add: on_got_ip_def Let_def)

section \<open>The radio as a machine\<close>

text \<open>
  The stations associated with the radio (at most eight, \<open>max_connection\<close>), the state of the
  firmware and the platform. A station that is refused is associated until its
  deauthentication is through and its disconnect event is delivered like any other.
  \<open>blocking\<close> says whether the administrator may set devices to \<open>BLOCKED\<close>.
\<close>

type_synonym 'f radio = "mac list \<times> wifi \<times> 'f plat"

inductive radio_step :: "(byte \<Rightarrow> esp_err) \<Rightarrow> bool \<Rightarrow> 'f radio \<Rightarrow> 'f radio \<Rightarrow> bool" for deauth blocking where
  associate: "m \<notin> set A \<Longrightarrow> length A < 8 \<Longrightarrow>
     wifi_event_handler deauth di (AP_STACONNECTED m aid) w p = Inr (w', p') \<Longrightarrow>
     radio_step deauth blocking (A, w, p) (m # A, w', p')"
| leave: "m \<in> set A \<Longrightarrow> wifi_event_handler deauth di (AP_STADISCONNECTED m) w p = Inr (w', p') \<Longrightarrow>
     radio_step deauth blocking (A, w, p) (remove1 m A, w', p')"
| uplink: "ev \<in> {STA_START, STA_DISCONNECTED, STA_GOT_IP ip, OTHER_EVENT} \<Longrightarrow>
     wifi_event_handler deauth di ev w p = Inr (w', p') \<Longrightarrow>
     radio_step deauth blocking (A, w, p) (A, w', p')"
| administer: "blocking \<or> t \<noteq> ''BLOCKED'' \<Longrightarrow> set_device_status m t (w_dev w) = (ok, d') \<Longrightarrow>
     radio_step deauth blocking (A, w, p) (A, w\<lparr>w_dev := d'\<rparr>, p)"

inductive_cases radio_stepE: "radio_step deauth blocking (A, w, p) s'"

definition radio_reachable :: "(byte \<Rightarrow> esp_err) \<Rightarrow> bool \<Rightarrow> nat \<Rightarrow> 'f plat \<Rightarrow> 'f radio \<Rightarrow> bool" where
  "radio_reachable deauth blocking n p s \<longleftrightarrow>
     (radio_step deauth blocking)\<^sup>*\<^sup>* ([], \<lparr>w_net = net_boot n, w_dev = devices_boot\<rparr>, p) s"

end
