(* ===== verification/Packet_Filter.thy ===== *)
theory Packet_Filter
  imports Devices Service_Laws
begin

text \<open>
  The packet filter (\<open>main/packet_filter.c\<close>) and the hook that feeds it every frame a station
  sends (\<open>main/netif_hook.c\<close>).

  A received buffer is the payload of its first segment (\<open>p->len\<close> bytes), or \<open>None\<close> for a
  null pointer; a read behind its end is undefined behaviour. \<open>Pass\<close> hands the frame to the
  original input function of the interface, \<open>Drop\<close> frees it.
\<close>

section \<open>The decision\<close>

definition admin_mac :: mac where "admin_mac = [0x8C, 0x1D, 0x96, 0x5F, 0x7D, 0xA5]"

definition IP_PROTO_TCP :: byte where "IP_PROTO_TCP = 6"
definition IP_PROTO_UDP :: byte where "IP_PROTO_UDP = 17"

definition init_packet_filter :: "'f plat \<Rightarrow> 'f plat cres" where
  "init_packet_filter p = plat_log ''Packet filter initialized'' [] p"

definition is_packet_allowed ::
    "mac \<Rightarrow> byte \<Rightarrow> u16 \<Rightarrow> u16 \<Rightarrow> devices \<Rightarrow> service_filter \<Rightarrow> 'f plat \<Rightarrow> (bool \<times> 'f plat) cres" where
  "is_packet_allowed src_mac protocol src_port dst_port d s p =
     (if src_mac = admin_mac then Inr (True, p)
      else
        let status = device_status src_mac d
        in if status = BLOCKED then Inr (False, p)
           else if (protocol = IP_PROTO_TCP \<or> protocol = IP_PROTO_UDP) \<and>
                   \<not> service_is_port_allowed protocol dst_port s
           then bindE (plat_log ''Service BLOCK proto=%d port=%d''
                         [VInt (uint protocol), VInt (uint dst_port)] p) (\<lambda>p1. Inr (False, p1))
           else Inr (True, p))"

section \<open>The hook\<close>

datatype verdict = Pass | Drop

definition rd :: "nat \<Rightarrow> byte list \<Rightarrow> byte cres" where
  "rd i b = guardE (i < length b) OOB_read (Inr (b ! i))"

definition rd16 :: "nat \<Rightarrow> byte list \<Rightarrow> u16 cres" where
  "rd16 i b = bindE (rd i b) (\<lambda>hi. bindE (rd (i + 1) b) (\<lambda>lo. Inr (u16_of lo hi)))"

definition ap_netif_input_hook ::
    "byte list option \<Rightarrow> devices \<Rightarrow> service_filter \<Rightarrow> 'f plat \<Rightarrow> (verdict \<times> 'f plat) cres" where
  "ap_netif_input_hook pb d s p = (case pb of
       None \<Rightarrow> Inr (Pass, p)
     | Some frame \<Rightarrow>
         if length frame < 34 then Inr (Pass, p)
         else
           let src_mac = take 6 (drop 6 frame)
           in if frame ! 12 \<noteq> 0x08 \<or> frame ! 13 \<noteq> 0x00 then Inr (Pass, p)
              else
                let proto = frame ! 23;
                    ip_hl = unat (and (frame ! 14) 0x0F);
                    l4 = 14 + ip_hl * 4
                in bindE (if proto = IP_PROTO_TCP \<or> proto = IP_PROTO_UDP
                          then bindE (rd16 l4 frame) (\<lambda>src. bindE (rd16 (l4 + 2) frame) (\<lambda>dst. Inr (src, dst)))
                          else Inr (0, 0)) (\<lambda>(src_port, dst_port).
                   bindE (is_packet_allowed src_mac proto src_port dst_port d s p) (\<lambda>(ok, p1).
                   Inr (if ok then Pass else Drop, p1))))"

text \<open>
  \<open>init_netif_firewall\<close> swaps the input function of the access point's interface for the
  hook, when the interface exists; before that every frame passes.
\<close>

datatype input_fn = Original_input | Input_hook

definition init_netif_firewall :: "bool \<Rightarrow> bool \<Rightarrow> input_fn \<Rightarrow> input_fn" where
  "init_netif_firewall have_handle have_netif inp =
     (if \<not> have_handle then inp else if \<not> have_netif then inp else Input_hook)"

definition netif_input ::
    "input_fn \<Rightarrow> byte list option \<Rightarrow> devices \<Rightarrow> service_filter \<Rightarrow> 'f plat \<Rightarrow> (verdict \<times> 'f plat) cres" where
  "netif_input inp pb d s p = (case inp of
       Original_input \<Rightarrow> Inr (Pass, p)
     | Input_hook \<Rightarrow> ap_netif_input_hook pb d s p)"

end
