(* ===== verification/Packet_Laws.thy ===== *)
theory Packet_Laws
  imports Packet_Filter Service_Store
begin

text \<open>
  What the packet filter decides: the layers of the source's comments as a first-match rule
  list, the contract \<open>port_policy\<close> between it and the port filter, and when the hook reads
  inside the frame it is given.
\<close>

section \<open>A first-match rule list\<close>

record packet =
  pk_src :: mac
  pk_proto :: byte
  pk_dport :: u16

fun first_match :: "(('a \<Rightarrow> bool) \<times> bool) list \<Rightarrow> bool \<Rightarrow> 'a \<Rightarrow> bool" where
  "first_match [] dflt x = dflt"
| "first_match ((m, act) # rs) dflt x = (if m x then act else first_match rs dflt x)"

definition layers :: "(mac \<Rightarrow> mac_status) \<Rightarrow> (byte \<Rightarrow> u16 \<Rightarrow> bool) \<Rightarrow> ((packet \<Rightarrow> bool) \<times> bool) list" where
  "layers status allowed =
     [(\<lambda>k. pk_src k = admin_mac, True),
      (\<lambda>k. status (pk_src k) = BLOCKED, False),
      (\<lambda>k. pk_proto k \<in> {IP_PROTO_TCP, IP_PROTO_UDP} \<and> \<not> allowed (pk_proto k) (pk_dport k), False)]"

definition permitted :: "(mac \<Rightarrow> mac_status) \<Rightarrow> (byte \<Rightarrow> u16 \<Rightarrow> bool) \<Rightarrow> packet \<Rightarrow> bool" where
  "permitted status allowed k = first_match (layers status allowed) True k"

lemma permitted_iff:
  "permitted status allowed k \<longleftrightarrow> pk_src k = admin_mac \<or> (status (pk_src k) \<noteq> BLOCKED \<and>
     (pk_proto k \<in> {IP_PROTO_TCP, IP_PROTO_UDP} \<longrightarrow> allowed (pk_proto k) (pk_dport k)))"
  by (auto simp: permitted_def layers_def)

text \<open>The decision of the component states at hand.\<close>

definition port_ok :: "service_filter \<Rightarrow> byte \<Rightarrow> u16 \<Rightarrow> bool" where
  "port_ok s q port = service_is_port_allowed q port s"

definition permits :: "devices \<Rightarrow> service_filter \<Rightarrow> packet \<Rightarrow> bool" where
  "permits d s k = permitted (\<lambda>m. device_status m d) (port_ok s) k"

lemma is_packet_allowed_permits:
  "\<exists>p'. is_packet_allowed src proto sport dport d s p =
     Inr (permits d s \<lparr>pk_src = src, pk_proto = proto, pk_dport = dport\<rparr>, p') \<and> pflash p' = pflash p"
proof -
  have "c_format ''Service BLOCK proto=%d port=%d'' [VInt a, VInt b] =
      Inr (''Service BLOCK proto='' @ dec_of_int a @ '' port='' @ dec_of_int b)" for a b
    by simp
  note log = plat_log_format [OF this]
  show ?thesis
    by (auto simp: is_packet_allowed_def Let_def permits_def permitted_iff port_ok_def log)
qed

section \<open>The contract with the port filter\<close>

text \<open>
  A policy on ports that can be told to block or allow a port for a protocol: the order
  binds at once and touches no other port. What the packet filter makes of it is proved
  from the contract alone.
\<close>

locale port_policy =
  fixes allowed :: "'s \<Rightarrow> byte \<Rightarrow> u16 \<Rightarrow> bool"
    and ordered :: "u16 \<Rightarrow> byte \<Rightarrow> bool \<Rightarrow> 's \<Rightarrow> 's \<Rightarrow> bool"
    and inv :: "'s \<Rightarrow> bool"
  assumes order_binds: "inv s \<Longrightarrow> ordered port proto blocked s s' \<Longrightarrow> proto_matches proto q \<Longrightarrow>
      allowed s' q port = (\<not> blocked)"
    and order_frame: "inv s \<Longrightarrow> ordered port proto blocked s s' \<Longrightarrow> dst \<noteq> port \<Longrightarrow>
      allowed s' q dst = allowed s q dst"
begin

lemma order_decides_packets:
  assumes "inv s" and "ordered (pk_dport k) proto blocked s s'" and "proto_matches proto (pk_proto k)"
    and "pk_proto k \<in> {IP_PROTO_TCP, IP_PROTO_UDP}"
  shows "permitted status (allowed s') k \<longleftrightarrow>
    pk_src k = admin_mac \<or> (status (pk_src k) \<noteq> BLOCKED \<and> \<not> blocked)"
  using assms order_binds by (simp add: permitted_iff)

lemma order_leaves_packets:
  assumes "inv s" and "ordered port proto blocked s s'" and "pk_dport k \<noteq> port"
  shows "permitted status (allowed s') k = permitted status (allowed s) k"
  using order_frame [OF assms(1,2,3)] by (simp add: permitted_iff)

end

interpretation svc_policy: port_policy port_ok
    "\<lambda>port proto b s s'. \<exists>(api::'f nvs_api) name p p'. service_add_custom api name port proto b s p = Inr (True, s', p')"
    sf_wf
  by unfold_locales (auto simp: port_ok_def add_custom_decides add_custom_frame)

section \<open>What the hook reads\<close>

definition is_ipv4 :: "byte list \<Rightarrow> bool" where
  "is_ipv4 f \<longleftrightarrow> f ! 12 = 0x08 \<and> f ! 13 = 0x00"

definition l4_offset :: "byte list \<Rightarrow> nat" where
  "l4_offset f = 14 + unat (and (f ! 14) 0x0F) * 4"

definition has_ports :: "byte list \<Rightarrow> bool" where
  "has_ports f \<longleftrightarrow> f ! 23 = IP_PROTO_TCP \<or> f ! 23 = IP_PROTO_UDP"

definition inspected :: "byte list \<Rightarrow> bool" where
  "inspected f \<longleftrightarrow> 34 \<le> length f \<and> is_ipv4 f"

definition frame_packet :: "byte list \<Rightarrow> packet" where
  "frame_packet f = \<lparr>pk_src = take 6 (drop 6 f), pk_proto = f ! 23,
     pk_dport = (if has_ports f then u16_of (f ! (l4_offset f + 3)) (f ! (l4_offset f + 2)) else 0)\<rparr>"

lemma rd16_eq: "rd16 i b = (if i + 1 < length b then Inr (u16_of (b ! (i + 1)) (b ! i)) else Inl OOB_read)"
  by (auto simp: rd16_def rd_def guardE_def)

lemma hook_uninspected: "\<not> inspected f \<Longrightarrow> ap_netif_input_hook (Some f) d s p = Inr (Pass, p)"
  by (auto simp: ap_netif_input_hook_def inspected_def is_ipv4_def Let_def)

lemma hook_inspected:
  assumes "inspected f"
  shows "ap_netif_input_hook (Some f) d s p =
    (if has_ports f \<and> length f < l4_offset f + 4 then Inl OOB_read
     else bindE (is_packet_allowed (take 6 (drop 6 f)) (f ! 23)
         (if has_ports f then u16_of (f ! (l4_offset f + 1)) (f ! l4_offset f) else 0)
         (pk_dport (frame_packet f)) d s p) (\<lambda>(ok, p1). Inr (if ok then Pass else Drop, p1)))"
proof -
  let ?o = "l4_offset f"
  have o: "14 + unat (and (f ! 14) 0x0F) * 4 = ?o" by (simp add: l4_offset_def)
  have hp: "(f ! 23 = IP_PROTO_TCP \<or> f ! 23 = IP_PROTO_UDP) = has_ports f" by (simp add: has_ports_def)
  show ?thesis
  proof (cases "has_ports f")
    case True
    show ?thesis
      using assms True
      by (simp add: ap_netif_input_hook_def inspected_def is_ipv4_def Let_def o hp rd16_eq
          frame_packet_def) (auto simp: numeral_3_eq_3)
  next
    case False
    then show ?thesis
      using assms by (simp add: ap_netif_input_hook_def inspected_def is_ipv4_def Let_def o hp frame_packet_def)
  qed
qed

lemma hook_verdict:
  assumes "inspected f" and "\<not> (has_ports f \<and> length f < l4_offset f + 4)"
  shows "\<exists>p'. ap_netif_input_hook (Some f) d s p =
    Inr (if permits d s (frame_packet f) then Pass else Drop, p') \<and> pflash p' = pflash p"
proof -
  have k: "\<lparr>pk_src = take 6 (drop 6 f), pk_proto = f ! 23, pk_dport = pk_dport (frame_packet f)\<rparr> = frame_packet f"
    by (simp add: frame_packet_def)
  obtain p' where "is_packet_allowed (take 6 (drop 6 f)) (f ! 23)
      (if has_ports f then u16_of (f ! (l4_offset f + 1)) (f ! l4_offset f) else 0)
      (pk_dport (frame_packet f)) d s p = Inr (permits d s (frame_packet f), p')" "pflash p' = pflash p"
    using is_packet_allowed_permits [of "take 6 (drop 6 f)" "f ! 23" _ "pk_dport (frame_packet f)" d s p]
    unfolding k by blast
  then show ?thesis using assms by (simp add: hook_inspected)
qed

section \<open>Properties\<close>


text \<open>C12: the hook stays inside the frame it is given exactly when the frame is not inspected
  (shorter than 34 bytes or not IPv4), or carries neither TCP nor UDP, or is long enough for the
  first four bytes behind an IP header of the length the header itself claims. Any station can
  send a frame that is not, and the hook then reads behind its end.\<close>

theorem hook_defined_iff:
  "is_defined (ap_netif_input_hook (Some f) d s p) \<longleftrightarrow>
     \<not> (34 \<le> length f \<and> f ! 12 = 0x08 \<and> f ! 13 = 0x00 \<and> (f ! 23 = IP_PROTO_TCP \<or> f ! 23 = IP_PROTO_UDP) \<and>
        length f < 14 + unat (and (f ! 14) 0x0F) * 4 + 4)"
proof (cases "inspected f")
  case False
  then show ?thesis by (auto simp: hook_uninspected inspected_def is_ipv4_def)
next
  case True
  then show ?thesis
    using hook_verdict [OF True, of d s p]
    by (cases "has_ports f \<and> length f < l4_offset f + 4")
      (auto simp: hook_inspected True inspected_def is_ipv4_def has_ports_def l4_offset_def)
qed

text \<open>C11: on a well-formed Ethernet/IPv4/TCP or UDP frame, with IP options or without, the hook
  decides by the sender's MAC, the protocol and the two ports that are in the frame.\<close>

theorem hook_decodes_frames:
  assumes "length dmac = 6" and "length smac = 6" and "5 \<le> ihl" and "length iph = 4 * ihl"
    and "unat (and (iph ! 0) 0x0F) = ihl" and "iph ! 9 \<in> {IP_PROTO_TCP, IP_PROTO_UDP}"
  shows "ap_netif_input_hook (Some (dmac @ smac @ [0x08, 0x00] @ iph @ be16 sport @ be16 dport @ rest)) d s p =
    bindE (is_packet_allowed smac (iph ! 9) sport dport d s p)
      (\<lambda>(ok, p1). Inr (if ok then Pass else Drop, p1))"
proof -
  let ?f = "dmac @ smac @ [0x08, 0x00] @ iph @ be16 sport @ be16 dport @ rest"
  let ?l4 = "be16 sport @ be16 dport @ rest"
  have iph: "?f ! (14 + k) = iph ! k" if "k < length iph" for k
    using that assms(1,2) by (simp add: nth_append)
  have l4: "?f ! (14 + 4 * ihl + k) = ?l4 ! k" for k
    using assms(1,2,4) by (simp add: nth_append)
  have f14: "?f ! 14 = iph ! 0" and f23: "?f ! 23 = iph ! 9"
    using iph [of 0] iph [of 9] assms(3,4) by simp_all
  have off: "l4_offset ?f = 14 + 4 * ihl" using f14 assms(5) by (simp add: l4_offset_def)
  have ports: "has_ports ?f" using f23 assms(6) by (simp add: has_ports_def)
  have insp: "inspected ?f" using assms(1-4) by (simp add: inspected_def is_ipv4_def nth_append)
  have "u16_of (?f ! (14 + 4 * ihl + 1)) (?f ! (14 + 4 * ihl)) = sport"
    "u16_of (?f ! (14 + 4 * ihl + 3)) (?f ! (14 + 4 * ihl + 2)) = dport"
    using l4 [of 0] l4 [of 1] l4 [of 2] l4 [of 3] by (simp_all add: be16_def)
  moreover have "take 6 (drop 6 ?f) = smac" using assms(1,2) by simp
  moreover have "\<not> length ?f < l4_offset ?f + 4" using off assms(1,2,4) by simp
  ultimately show ?thesis
    using hook_inspected [OF insp, of d s p] off ports f23 by (simp add: frame_packet_def)
qed

definition sample_frame :: "u16 \<Rightarrow> byte list" where
  "sample_frame port = [1, 1, 1, 1, 1, 1] @ [2, 2, 2, 2, 2, 2] @ [0x08, 0x00] @
     [0x45, 0, 0, 0, 0, 0, 0, 0, 0, 6, 0, 0, 0, 0, 0, 0, 0, 0, 0, 0] @ be16 50000 @ be16 port @
     [0, 0, 0, 0]"

lemma sample_frame_facts:
  "inspected (sample_frame port)" "has_ports (sample_frame port)" "l4_offset (sample_frame port) = 34"
  "length (sample_frame port) = 42"
  "frame_packet (sample_frame port) = \<lparr>pk_src = [2, 2, 2, 2, 2, 2], pk_proto = 6, pk_dport = port\<rparr>"
  by (simp_all add: sample_frame_def inspected_def is_ipv4_def has_ports_def l4_offset_def be16_def
      frame_packet_def IP_PROTO_TCP_def)

theorem hook_decodes_frames_witness:
  "ap_netif_input_hook (Some (sample_frame 80)) devices_boot service_boot plat0 = Inr (Pass, plat0)"
proof -
  have "service_is_port_allowed 6 80 service_boot" by code_simp
  moreover have "device_status [2, 2, 2, 2, 2, 2] devices_boot = PENDING" by code_simp
  moreover have "[2, 2, 2, 2, 2, 2] \<noteq> admin_mac" by code_simp
  ultimately have "is_packet_allowed [2, 2, 2, 2, 2, 2] 6 50000 80 devices_boot service_boot plat0 = Inr (True, plat0)"
    by (simp add: is_packet_allowed_def Let_def)
  moreover have "length ([1, 1, 1, 1, 1, 1::byte]) = 6" "length ([2, 2, 2, 2, 2, 2::byte]) = 6" "(5::nat) \<le> 5"
    "length ([0x45, 0, 0, 0, 0, 0, 0, 0, 0, 6, 0, 0, 0, 0, 0, 0, 0, 0, 0, 0::byte]) = 4 * 5"
    "unat (and (([0x45, 0, 0, 0, 0, 0, 0, 0, 0, 6, 0, 0, 0, 0, 0, 0, 0, 0, 0, 0::byte]) ! 0) 0x0F) = 5"
    "([0x45, 0, 0, 0, 0, 0, 0, 0, 0, 6, 0, 0, 0, 0, 0, 0, 0, 0, 0, 0::byte]) ! 9 = 6"
    by simp_all
  ultimately show ?thesis
    using hook_decodes_frames [of "[1, 1, 1, 1, 1, 1]" "[2, 2, 2, 2, 2, 2]" 5 "[0x45, 0, 0, 0, 0, 0, 0, 0, 0, 6, 0, 0, 0, 0, 0, 0, 0, 0, 0, 0]"
        50000 80 "[0, 0, 0, 0]" devices_boot service_boot plat0]
    unfolding sample_frame_def by (simp add: IP_PROTO_TCP_def)
qed

text \<open>After a custom rule that blocks a port has been accepted, every complete TCP or UDP
  frame to that port and of a protocol the rule covers is dropped, whatever its source, unless
  it comes from the administrator; frames to other ports fare as before.\<close>

theorem blocked_port_drops_frames:
  fixes api :: "'f nvs_api" and q q' :: "'f plat"
  assumes "service_add_custom api name port proto True s q = Inr (True, s', q')" and "sf_wf s"
    and "inspected f" and "has_ports f" and "l4_offset f + 4 \<le> length f"
    and "take 6 (drop 6 f) \<noteq> admin_mac"
  shows "(pk_dport (frame_packet f) = port \<and> proto_matches proto (f ! 23) \<longrightarrow>
      (\<exists>p'. ap_netif_input_hook (Some f) d s' p = Inr (Drop, p'))) \<and>
    (pk_dport (frame_packet f) \<noteq> port \<longrightarrow>
      ap_netif_input_hook (Some f) d s' p = ap_netif_input_hook (Some f) d s p)"
proof -
  let ?k = "frame_packet f"
  have k: "pk_src ?k = take 6 (drop 6 f)" "pk_proto ?k = f ! 23" "pk_proto ?k \<in> {IP_PROTO_TCP, IP_PROTO_UDP}"
    using assms(4) by (auto simp: frame_packet_def has_ports_def)
  have ord: "\<exists>(api::'f nvs_api) name p p'. service_add_custom api name port proto True s p = Inr (True, s', p')"
    using assms(1) by blast
  have "\<not> permits d s' ?k" if "pk_dport ?k = port" "proto_matches proto (f ! 23)"
    using svc_policy.order_decides_packets [of s ?k proto True s' "\<lambda>m. device_status m d"] assms(2,6) that k ord
    by (simp add: permits_def)
  moreover have "is_packet_allowed src q sp (pk_dport ?k) d s' p = is_packet_allowed src q sp (pk_dport ?k) d s p"
    if "pk_dport ?k \<noteq> port" for src q sp
    using svc_policy.order_frame [OF assms(2) ord that, of q]
    by (simp add: is_packet_allowed_def port_ok_def Let_def)
  ultimately show ?thesis
    using hook_verdict [OF assms(3), of d s' p] assms(3,5) by (auto simp: hook_inspected)
qed

theorem blocked_port_drops_frames_witness:
  "\<exists>s' q' p'. service_add_custom ram_api (Some ''web'') 8080 SVC_PROTO_TCP True service_boot
       \<lparr>plog = log_init, pflash = ram_empty\<rparr> = Inr (True, s', q') \<and>
     ap_netif_input_hook (Some (sample_frame 8080)) devices_boot s' q' = Inr (Drop, p')"
proof -
  let ?p = "\<lparr>plog = log_init, pflash = ram_empty\<rparr>"
  obtain s' q' where add: "service_add_custom ram_api (Some ''web'') 8080 SVC_PROTO_TCP True service_boot ?p = Inr (True, s', q')"
    by (rule boot_add [of 8080]) simp
  have "proto_matches SVC_PROTO_TCP 6" "[2, 2, 2, 2, 2, 2] \<noteq> admin_mac" by code_simp+
  then have "\<exists>p'. ap_netif_input_hook (Some (sample_frame 8080)) devices_boot s' q' = Inr (Drop, p')"
    using blocked_port_drops_frames [OF add sf_wf_boot, of "sample_frame 8080" devices_boot q']
      sample_frame_facts [of 8080]
    by (simp add: frame_packet_def)
  then show ?thesis using add by blast
qed

text \<open>Of the frames of a blocked device the hook lets pass exactly those it does not
  inspect: the short ones and all that are not plain IPv4, ARP, IPv6 and VLAN-tagged frames
  among them.\<close>

theorem blocked_device_frames:
  assumes "device_status (take 6 (drop 6 f)) d = BLOCKED" and "take 6 (drop 6 f) \<noteq> admin_mac"
  shows "(\<exists>p'. ap_netif_input_hook (Some f) d s p = Inr (Pass, p')) \<longleftrightarrow>
    \<not> (34 \<le> length f \<and> f ! 12 = 0x08 \<and> f ! 13 = 0x00)"
proof (cases "inspected f")
  case False
  then show ?thesis using hook_uninspected [OF False] by (auto simp: inspected_def is_ipv4_def)
next
  case True
  have "\<not> permits d s (frame_packet f)"
    using assms by (simp add: permits_def permitted_iff frame_packet_def)
  then have "ap_netif_input_hook (Some f) d s p \<noteq> Inr (Pass, p')" for p'
    using hook_verdict [OF True, of d s p] hook_inspected [OF True, of d s p]
    by (cases "has_ports f \<and> length f < l4_offset f + 4") auto
  then show ?thesis using True by (auto simp: inspected_def is_ipv4_def)
qed

theorem blocked_device_frames_witness:
  "\<exists>d. device_status [2, 2, 2, 2, 2, 2] d = BLOCKED \<and>
     \<not> (\<exists>p'. ap_netif_input_hook (Some (sample_frame 80)) d service_boot plat0 = Inr (Pass, p')) \<and>
     (\<exists>p'. ap_netif_input_hook (Some ([1, 1, 1, 1, 1, 1] @ [2, 2, 2, 2, 2, 2] @ [0x86, 0xDD] @ replicate 20 0)) d
        service_boot plat0 = Inr (Pass, p'))"
proof -
  let ?d = "snd (set_device_status [2, 2, 2, 2, 2, 2] ''BLOCKED'' (add_device [2, 2, 2, 2, 2, 2] devices_boot))"
  have st: "device_status [2, 2, 2, 2, 2, 2] ?d = BLOCKED" by code_simp
  have ne: "[2, 2, 2, 2, 2, 2] \<noteq> admin_mac" by code_simp
  have f: "take 6 (drop 6 (sample_frame 80)) = [2, 2, 2, 2, 2, 2]" "34 \<le> length (sample_frame 80)"
    "sample_frame 80 ! 12 = 0x08" "sample_frame 80 ! 13 = 0x00"
    by (simp_all add: sample_frame_def be16_def)
  let ?v6 = "[1, 1, 1, 1, 1, 1] @ [2, 2, 2, 2, 2, 2] @ [0x86, 0xDD] @ replicate 20 0"
  have v6: "take 6 (drop 6 ?v6) = [2, 2, 2, 2, 2, 2::byte]" "?v6 ! 12 \<noteq> (0x08::byte)" by simp_all
  show ?thesis
    using blocked_device_frames [of "sample_frame 80" ?d service_boot plat0]
      blocked_device_frames [of ?v6 ?d service_boot plat0] st ne f v6
    by (intro exI [of _ ?d]) (simp only: simp_thms)
qed

end
