(* ===== verification/Portmap_Laws.thy ===== *)
theory Portmap_Laws
  imports Portmap
begin

text \<open>
  The port mapping table as a finite map, mirrored in the NAPT table of the IP stack, and
  its life across a restart.

  What the two calls do to the stack's table is the contract \<open>napt_driver\<close>; \<open>napt_run\<close> is a
  table that meets it. \<open>mirrored\<close> says that all calls made so far have brought the stack's
  table to what \<open>portmap_tab\<close> says.
\<close>

section \<open>The table as a map\<close>

type_synonym napt_key = "byte \<times> u16"
type_synonym napt_target = "u32 \<times> u32 \<times> u16"

definition key_of :: "portmap_entry \<Rightarrow> napt_key" where
  "key_of e = (pm_proto e, pm_mport e)"

definition live :: "portmap_entry list \<Rightarrow> portmap_entry list" where
  "live es = filter (\<lambda>e. pm_valid e \<noteq> 0) es"

definition unique_keys :: "portmap_entry list \<Rightarrow> bool" where
  "unique_keys es \<longleftrightarrow> distinct (map key_of (live es))"

text \<open>A later entry overrides an earlier one with the same key, as in the stack.\<close>

definition table_view :: "u32 \<Rightarrow> portmap_entry list \<Rightarrow> napt_key \<Rightarrow> napt_target option" where
  "table_view ip es = fold (\<lambda>e m. m(key_of e \<mapsto> (ip, pm_daddr e, pm_dport e))) (live es) Map.empty"

definition net_view :: "net \<Rightarrow> napt_key \<Rightarrow> napt_target option" where
  "net_view s = table_view (my_ip s) (portmap_tab s)"

section \<open>The contract of the IP stack\<close>

locale napt_driver =
  fixes run :: "net_call \<Rightarrow> 'n \<Rightarrow> 'n"
    and napt :: "'n \<Rightarrow> napt_key \<Rightarrow> napt_target option"
  assumes napt_add: "napt (run (Ip_portmap_add proto ip mport daddr dport) n) =
      (napt n)((proto, mport) \<mapsto> (ip, daddr, dport))"
    and napt_remove: "napt (run (Ip_portmap_remove proto mport) n) = (napt n)((proto, mport) := None)"
begin

lemma napt_applied:
  "napt (fold run (map (\<lambda>e. Ip_portmap_add (pm_proto e) ip (pm_mport e) (pm_daddr e) (pm_dport e)) es) n) =
     fold (\<lambda>e m. m(key_of e \<mapsto> (ip, pm_daddr e, pm_dport e))) es (napt n)"
  by (induction es arbitrary: n) (simp_all add: napt_add key_of_def)

lemma napt_deleted:
  "napt (fold run (map (\<lambda>e. Ip_portmap_remove (pm_proto e) (pm_mport e)) es) n) k =
     (if k \<in> key_of ` set es then None else napt n k)"
  by (induction es arbitrary: n) (auto simp: napt_remove key_of_def)

end

fun napt_run :: "net_call \<Rightarrow> (napt_key \<Rightarrow> napt_target option) \<Rightarrow> napt_key \<Rightarrow> napt_target option" where
  "napt_run (Ip_portmap_add proto ip mport daddr dport) n = n((proto, mport) \<mapsto> (ip, daddr, dport))"
| "napt_run (Ip_portmap_remove proto mport) n = n((proto, mport) := None)"
| "napt_run _ n = n"

interpretation reference_napt: napt_driver napt_run "\<lambda>n. n"
  by unfold_locales auto

definition mirrored :: "(net_call \<Rightarrow> 'n \<Rightarrow> 'n) \<Rightarrow> ('n \<Rightarrow> napt_key \<Rightarrow> napt_target option) \<Rightarrow> 'n \<Rightarrow> net \<Rightarrow> bool" where
  "mirrored run napt n0 s \<longleftrightarrow> napt (fold run (net_calls s) n0) = net_view s"

section \<open>The calls of the operations\<close>

lemma call_simps [simp]:
  "portmap_tab (call c s) = portmap_tab s" "my_ip (call c s) = my_ip s"
  "net_calls (call c s) = net_calls s @ [c]" "ap_connect (call c s) = ap_connect s"
  by (simp_all add: call_def)

lemma fold_calls:
  "fold (\<lambda>e s. if pm_valid e \<noteq> 0 then call (f e (my_ip s)) s else s) es s =
     s\<lparr>net_calls := net_calls s @ map (\<lambda>e. f e (my_ip s)) (live es)\<rparr>"
  by (induction es arbitrary: s) (simp_all add: live_def call_def)

lemma apply_portmap_tab_calls:
  "apply_portmap_tab s = s\<lparr>net_calls := net_calls s @
     map (\<lambda>e. Ip_portmap_add (pm_proto e) (my_ip s) (pm_mport e) (pm_daddr e) (pm_dport e)) (live (portmap_tab s))\<rparr>"
  using fold_calls [of "\<lambda>e ip. Ip_portmap_add (pm_proto e) ip (pm_mport e) (pm_daddr e) (pm_dport e)"
      "portmap_tab s" s]
  by (simp add: apply_portmap_tab_def)

lemma delete_portmap_tab_calls:
  "delete_portmap_tab s = s\<lparr>net_calls := net_calls s @
     map (\<lambda>e. Ip_portmap_remove (pm_proto e) (pm_mport e)) (live (portmap_tab s))\<rparr>"
  using fold_calls [of "\<lambda>e ip. Ip_portmap_remove (pm_proto e) (pm_mport e)" "portmap_tab s" s]
  by (simp add: delete_portmap_tab_def)

section \<open>The view of an updated table\<close>

lemma fold_upd_notin: "k \<notin> key_of ` set es \<Longrightarrow>
    fold (\<lambda>e m. m(key_of e \<mapsto> (ip, pm_daddr e, pm_dport e))) es m k = m k"
  by (induction es arbitrary: m) auto

lemma table_view_None: "table_view ip es k = None \<longleftrightarrow> k \<notin> key_of ` set (live es)"
proof -
  have "fold (\<lambda>e m. m(key_of e \<mapsto> (ip, pm_daddr e, pm_dport e))) xs m k = None \<longleftrightarrow>
      k \<notin> key_of ` set xs \<and> m k = None" for xs m
    by (induction xs arbitrary: m) auto
  then show ?thesis by (simp add: table_view_def)
qed

lemma fold_upd_unique:
  assumes "distinct (map key_of es)" and "e \<in> set es"
  shows "fold (\<lambda>e m. m(key_of e \<mapsto> (ip, pm_daddr e, pm_dport e))) es m (key_of e) = Some (ip, pm_daddr e, pm_dport e)"
  using assms by (induction es arbitrary: m) (auto simp: fold_upd_notin)

lemma table_view_unique:
  assumes "unique_keys es"
  shows "table_view ip es k = Some t \<longleftrightarrow>
    (\<exists>e \<in> set (live es). key_of e = k \<and> t = (ip, pm_daddr e, pm_dport e))"
proof
  assume v: "table_view ip es k = Some t"
  then obtain e where e: "e \<in> set (live es)" "key_of e = k"
    using table_view_None [of ip es k] by (auto simp: image_iff)
  then have "table_view ip es k = Some (ip, pm_daddr e, pm_dport e)"
    using fold_upd_unique [of "live es" e ip] assms by (simp add: table_view_def unique_keys_def)
  then show "\<exists>e \<in> set (live es). key_of e = k \<and> t = (ip, pm_daddr e, pm_dport e)"
    using e v by auto
next
  assume "\<exists>e \<in> set (live es). key_of e = k \<and> t = (ip, pm_daddr e, pm_dport e)"
  then show "table_view ip es k = Some t"
    using fold_upd_unique [of "live es" _ ip] assms by (auto simp: table_view_def unique_keys_def)
qed

lemma map_eqI: "(\<And>k t. m k = Some t \<longleftrightarrow> m' k = Some t) \<Longrightarrow> m = m'"
  by (intro ext) (metis option.exhaust)

text \<open>Filling a free slot, and freeing a slot.\<close>

lemma live_split:
  assumes "i < length es"
  shows "live es = live (take i es) @ (if pm_valid (es ! i) \<noteq> 0 then [es ! i] else []) @ live (drop (Suc i) es)"
  using arg_cong [OF id_take_nth_drop [OF assms], of live] by (simp add: live_def)

lemma live_update:
  assumes "i < length es"
  shows "live (es[i := e]) = live (take i es) @ (if pm_valid e \<noteq> 0 then [e] else []) @ live (drop (Suc i) es)"
  using assms by (simp add: upd_conv_take_nth_drop live_def)

lemma fill_slot:
  assumes u: "unique_keys es" and i: "i < length es" "pm_valid (es ! i) = 0"
    and fresh: "key_of e \<notin> key_of ` set (live es)" and e: "pm_valid e \<noteq> 0"
  shows "unique_keys (es[i := e])"
    and "table_view ip (es[i := e]) = (table_view ip es)(key_of e \<mapsto> (ip, pm_daddr e, pm_dport e))"
proof -
  show u': "unique_keys (es[i := e])"
    using u fresh e i(2) live_split [OF i(1)] by (auto simp: unique_keys_def live_update [OF i(1)])
  have old: "x \<in> set (live es) \<longleftrightarrow> x \<in> set (live (take i es)) \<or> x \<in> set (live (drop (Suc i) es))" for x
    using live_split [OF i(1)] i(2) by auto
  have new: "x \<in> set (live (es[i := e])) \<longleftrightarrow> x = e \<or> x \<in> set (live es)" for x
    using e by (auto simp: old live_update [OF i(1)])
  show "table_view ip (es[i := e]) = (table_view ip es)(key_of e \<mapsto> (ip, pm_daddr e, pm_dport e))"
  proof (rule map_eqI)
    fix k t
    show "table_view ip (es[i := e]) k = Some t \<longleftrightarrow>
        ((table_view ip es)(key_of e \<mapsto> (ip, pm_daddr e, pm_dport e))) k = Some t"
      unfolding table_view_unique [OF u'] using new fresh
      by (cases "k = key_of e") (auto simp: table_view_unique [OF u] image_iff, metis+)
  qed
qed

lemma free_slot:
  assumes u: "unique_keys es" and i: "i < length es" "pm_valid (es ! i) \<noteq> 0" and e: "pm_valid e = 0"
  shows "unique_keys (es[i := e])"
    and "table_view ip (es[i := e]) = (table_view ip es)(key_of (es ! i) := None)"
proof -
  show u': "unique_keys (es[i := e])"
    using u e i(2) live_split [OF i(1)] by (auto simp: unique_keys_def live_update [OF i(1)])
  let ?l = "live (take i es)" and ?r = "live (drop (Suc i) es)"
  have parts: "live es = ?l @ es ! i # ?r" "live (es[i := e]) = ?l @ ?r"
    using live_split [OF i(1)] i(2) e by (simp_all add: live_update [OF i(1)])
  have "key_of (es ! i) \<notin> key_of ` set ?l" "key_of (es ! i) \<notin> key_of ` set ?r"
    using u by (auto simp: unique_keys_def parts)
  then have new: "x \<in> set (live (es[i := e])) \<longleftrightarrow> x \<in> set (live es) \<and> key_of x \<noteq> key_of (es ! i)" for x
    unfolding parts by (auto simp: image_iff)
  show "table_view ip (es[i := e]) = (table_view ip es)(key_of (es ! i) := None)"
  proof (rule map_eqI)
    fix k t
    show "table_view ip (es[i := e]) k = Some t \<longleftrightarrow> ((table_view ip es)(key_of (es ! i) := None)) k = Some t"
      unfolding table_view_unique [OF u'] using new
      by (cases "k = key_of (es ! i)") (auto simp: table_view_unique [OF u])
  qed
qed

section \<open>Storing the table\<close>

definition tab_wf :: "portmap_entry list \<Rightarrow> bool" where
  "tab_wf es \<longleftrightarrow> list_all (\<lambda>e. length (pm_pad e) = 2) es"

lemma store_portmap_Inr:
  assumes "store_portmap api (\<lambda>p. Inr (g p)) s p = Inr (e, p')" and "\<And>q. pflash (g q) = pflash q"
  shows "(e = ESP_OK \<longleftrightarrow> fst (nvs_open api PARAM_NAMESPACE NVS_READWRITE (pflash p)) = ESP_OK)"
  using assms by (auto simp: store_portmap_def cres_simps split: prod.splits if_splits)

lemma store_log [simp]:
  "plat_log ''New portmap table stored'' [] = (\<lambda>p. Inr (p\<lparr>plog := put_line ''New portmap table stored'' (plog p)\<rparr>))"
  by (rule ext) simp

lemma store_portmap_ex: "\<exists>e p'. store_portmap api (\<lambda>p. Inr (g p)) s p = Inr (e, p')"
  by (auto simp: store_portmap_def split: prod.splits)

lemma length_entry_bytes: "length (pm_pad e) = 2 \<Longrightarrow> length (entry_bytes e) = ENTRY_SIZE"
  by (simp add: entry_bytes_def ENTRY_SIZE_def)

lemma entry_of_entry_bytes: "length (pm_pad e) = 2 \<Longrightarrow> entry_of_bytes (entry_bytes e) = e"
  by (simp add: entry_bytes_def entry_of_bytes_def le32_def le16_def)

lemma tab_of_tab_bytes: "tab_wf es \<Longrightarrow> tab_of_bytes (length es) (tab_bytes es) = es"
  unfolding tab_of_bytes_def tab_bytes_def
  by (intro decode_array_concat) (auto simp: tab_wf_def list_all_iff length_entry_bytes entry_of_entry_bytes)

lemma length_tab_bytes: "tab_wf es \<Longrightarrow> length (tab_bytes es) = ENTRY_SIZE * length es"
  unfolding tab_bytes_def
  by (subst length_concat_enc [of _ _ ENTRY_SIZE]) (auto simp: tab_wf_def list_all_iff length_entry_bytes)

definition portmap_on_disk :: "('f \<Rightarrow> nvs_key \<Rightarrow> nvs_value option) \<Rightarrow> net \<Rightarrow> 'f plat \<Rightarrow> bool" where
  "portmap_on_disk dsk s p \<longleftrightarrow>
     dsk (pflash p) (PARAM_NAMESPACE, NVS_KEY_PORTMAP) = Some (NvBlob (tab_bytes (portmap_tab s)))"

context nvs_reliable
begin

lemma store_portmap_disk:
  assumes "store_portmap api (\<lambda>p. Inr (g p)) s p = Inr (e, p')" and g: "\<And>q. pflash (g q) = pflash q"
  shows "e = ESP_OK" and "portmap_on_disk disk s p' \<and> portmap_on_disk view s p'"
proof -
  obtain h f1 where o: "nvs_open api PARAM_NAMESPACE NVS_READWRITE (pflash p) = (ESP_OK, h, f1)"
    and h1: "handles f1 = (handles (pflash p))(h \<mapsto> (PARAM_NAMESPACE, NVS_READWRITE))"
    by (rule open_rwE)
  from h1 have "handles f1 h = Some (PARAM_NAMESPACE, NVS_READWRITE)" by simp
  then obtain f2 where s2: "nvs_set api h NVS_KEY_PORTMAP (NvBlob (tab_bytes (portmap_tab s))) f1 = (ESP_OK, f2)"
    and v2: "view f2 = (view f1)((PARAM_NAMESPACE, NVS_KEY_PORTMAP) \<mapsto> NvBlob (tab_bytes (portmap_tab s)))"
    and h2: "handles f2 = handles f1" by (rule setE)
  from h1 h2 have "handles f2 h = Some (PARAM_NAMESPACE, NVS_READWRITE)" by simp
  then obtain f3 where s3: "nvs_commit api h f2 = (ESP_OK, f3)" and v3: "view f3 = view f2"
    and d3: "\<forall>k. disk f3 (PARAM_NAMESPACE, k) = view f2 (PARAM_NAMESPACE, k)" by (rule commitE)
  have "e = ESP_OK \<and> pflash p' = nvs_close api h f3"
    using assms by (auto simp: store_portmap_def o s2 s3)
  then show "e = ESP_OK" and "portmap_on_disk disk s p' \<and> portmap_on_disk view s p'"
    by (auto simp: portmap_on_disk_def close d3 v3 v2)
qed

lemma get_portmap_view:
  assumes v: "view (pflash p) (PARAM_NAMESPACE, NVS_KEY_PORTMAP) = Some (NvBlob (tab_bytes es))"
    and wf: "tab_wf es" "tab_wf (portmap_tab s)" and len: "length es = length (portmap_tab s)"
  shows "\<exists>p'. get_portmap_tab api s p = (ESP_OK, s\<lparr>portmap_tab := es\<rparr>, p')"
proof -
  obtain h f1 where o: "nvs_open api PARAM_NAMESPACE NVS_READWRITE (pflash p) = (ESP_OK, h, f1)"
    and v1: "view f1 = view (pflash p)"
    and h1: "handles f1 = (handles (pflash p))(h \<mapsto> (PARAM_NAMESPACE, NVS_READWRITE))"
    by (rule open_rwE)
  have h: "handles f1 h = Some (PARAM_NAMESPACE, NVS_READWRITE)" using h1 by simp
  have l: "nvs_len api h NVS_KEY_PORTMAP NVS_TYPE_BLOB f1 = Inr (ENTRY_SIZE * length (portmap_tab s))"
    using len_complete [OF h, of NVS_KEY_PORTMAP "NvBlob (tab_bytes es)"] v v1 length_tab_bytes [OF wf(1)] len by simp
  have g: "nvs_get api h NVS_KEY_PORTMAP NVS_TYPE_BLOB (ENTRY_SIZE * length (portmap_tab s)) f1 = Inr (NvBlob (tab_bytes es))"
    using get_complete [OF h, of NVS_KEY_PORTMAP "NvBlob (tab_bytes es)"] v v1 length_tab_bytes [OF wf(1)] len by simp
  have "overlay (tab_bytes es) (tab_bytes (portmap_tab s)) = tab_bytes es"
    using length_tab_bytes [OF wf(1)] length_tab_bytes [OF wf(2)] len by (simp add: overlay_full)
  then show ?thesis
    using tab_of_tab_bytes [OF wf(1)] len by (simp add: get_portmap_tab_def o l g Let_def)
qed

end

section \<open>The operations\<close>

definition add_entry :: "byte \<Rightarrow> u16 \<Rightarrow> u32 \<Rightarrow> u16 \<Rightarrow> portmap_entry \<Rightarrow> portmap_entry" where
  "add_entry proto mport daddr dport e =
     e\<lparr>pm_proto := proto, pm_mport := mport, pm_daddr := daddr, pm_dport := dport, pm_valid := 1\<rparr>"

lemma add_portmap_ok:
  assumes "add_portmap api proto mport daddr dport s p = Inr (ESP_OK, s', p')"
  obtains i p1 where "first_idx (\<lambda>e. pm_valid e = 0) (portmap_tab s) = Some i"
    "s' = call (Ip_portmap_add proto (my_ip s) mport daddr dport)
       (s\<lparr>portmap_tab := (portmap_tab s)[i := add_entry proto mport daddr dport (portmap_tab s ! i)]\<rparr>)"
    "store_portmap api (plat_log ''New portmap table stored'' [])
       (s\<lparr>portmap_tab := (portmap_tab s)[i := add_entry proto mport daddr dport (portmap_tab s ! i)]\<rparr>) p = Inr (ESP_OK, p')"
  using assms
  by (auto simp: add_portmap_def add_entry_def Let_def bindE_eq_Inr simp del: store_log
      split: option.splits prod.splits if_splits)

lemma del_portmap_ok:
  assumes "del_portmap api proto mport s p = Inr (ESP_OK, s', p')"
  obtains
    (absent) "s' = s" "p' = p" "(proto, mport) \<notin> key_of ` set (live (portmap_tab s))"
  | (freed) i where "i < length (portmap_tab s)" "pm_valid (portmap_tab s ! i) \<noteq> 0"
      "key_of (portmap_tab s ! i) = (proto, mport)"
      "first_idx (\<lambda>e. pm_valid e \<noteq> 0 \<and> pm_mport e = mport \<and> pm_proto e = proto) (portmap_tab s) = Some i"
      "s' = call (Ip_portmap_remove proto mport)
         (s\<lparr>portmap_tab := (portmap_tab s)[i := (portmap_tab s ! i)\<lparr>pm_valid := 0\<rparr>]\<rparr>)"
      "store_portmap api Inr
         (s\<lparr>portmap_tab := (portmap_tab s)[i := (portmap_tab s ! i)\<lparr>pm_valid := 0\<rparr>]\<rparr>) p = Inr (ESP_OK, p')"
proof (cases "first_idx (\<lambda>e. pm_valid e \<noteq> 0 \<and> pm_mport e = mport \<and> pm_proto e = proto) (portmap_tab s)")
  case None
  then have "(proto, mport) \<notin> key_of ` set (live (portmap_tab s))"
    by (auto simp: first_idx_None live_def key_of_def)
  then show thesis using assms None absent by (simp add: del_portmap_def)
next
  case (Some i)
  note i = first_idx_SomeD [OF Some]
  have k: "key_of (portmap_tab s ! i) = (proto, mport)" using i(2) by (simp add: key_of_def)
  have "s' = call (Ip_portmap_remove proto mport)
         (s\<lparr>portmap_tab := (portmap_tab s)[i := (portmap_tab s ! i)\<lparr>pm_valid := 0\<rparr>]\<rparr>) \<and>
      store_portmap api Inr
         (s\<lparr>portmap_tab := (portmap_tab s)[i := (portmap_tab s ! i)\<lparr>pm_valid := 0\<rparr>]\<rparr>) p = Inr (ESP_OK, p')"
    using assms Some
    by (auto simp: del_portmap_def Let_def bindE_eq_Inr split: prod.splits if_splits)
  then show thesis using freed [OF i(1) _ k Some] i(2) by blast
qed

lemma net_view_call [simp]: "net_view (call c s) = net_view s"
  by (simp add: net_view_def)

context napt_driver
begin

lemma add_mirrored:
  assumes "mirrored run napt n0 s" and u: "unique_keys (portmap_tab s)"
    and fresh: "(proto, mport) \<notin> key_of ` set (live (portmap_tab s))"
    and add: "add_portmap api proto mport daddr dport s p = Inr (ESP_OK, s', p')"
  shows "mirrored run napt n0 s'" and "unique_keys (portmap_tab s')"
    and "net_view s' = (net_view s)((proto, mport) \<mapsto> (my_ip s, daddr, dport))"
proof -
  from add obtain i where i: "first_idx (\<lambda>e. pm_valid e = 0) (portmap_tab s) = Some i"
    and s': "s' = call (Ip_portmap_add proto (my_ip s) mport daddr dport)
       (s\<lparr>portmap_tab := (portmap_tab s)[i := add_entry proto mport daddr dport (portmap_tab s ! i)]\<rparr>)"
    by (rule add_portmap_ok)
  let ?e = "add_entry proto mport daddr dport (portmap_tab s ! i)"
  have e: "key_of ?e = (proto, mport)" "pm_valid ?e \<noteq> 0" "pm_daddr ?e = daddr" "pm_dport ?e = dport"
    by (simp_all add: add_entry_def key_of_def)
  note f = fill_slot [OF u first_idx_SomeD(1,2) [OF i], of ?e, unfolded e, OF fresh]
  show "unique_keys (portmap_tab s')" using f(1) e(2) s' by simp
  show v: "net_view s' = (net_view s)((proto, mport) \<mapsto> (my_ip s, daddr, dport))"
    using f(2) e(2) s' by (simp add: net_view_def)
  show "mirrored run napt n0 s'" using assms(1) v s' by (simp add: mirrored_def napt_add)
qed

lemma del_mirrored:
  assumes m: "mirrored run napt n0 s" and u: "unique_keys (portmap_tab s)"
    and del: "del_portmap api proto mport s p = Inr (ESP_OK, s', p')"
  shows "mirrored run napt n0 s'" and "unique_keys (portmap_tab s')"
    and "net_view s' = (net_view s)((proto, mport) := None)"
proof -
  from del have "mirrored run napt n0 s' \<and> unique_keys (portmap_tab s') \<and>
      net_view s' = (net_view s)((proto, mport) := None)"
  proof (cases rule: del_portmap_ok)
    case absent
    then have "net_view s (proto, mport) = None" by (simp add: net_view_def table_view_None)
    then show ?thesis using absent m u by (simp add: fun_upd_idem)
  next
    case (freed i)
    let ?e = "(portmap_tab s ! i)\<lparr>pm_valid := 0\<rparr>"
    note f = free_slot [OF u freed(1,2), of ?e, unfolded freed(3)]
    have v: "net_view s' = (net_view s)((proto, mport) := None)"
      using f(2) freed(5) by (simp add: net_view_def)
    then show ?thesis using f(1) freed(5) m by (simp add: mirrored_def napt_remove)
  qed
  then show "mirrored run napt n0 s'" and "unique_keys (portmap_tab s')"
    and "net_view s' = (net_view s)((proto, mport) := None)" by blast+
qed

text \<open>A new address: everything is removed and entered again with it.\<close>

lemma refresh_mirrored:
  assumes "mirrored run napt n0 s"
  shows "mirrored run napt n0 (apply_portmap_tab (delete_portmap_tab (s\<lparr>my_ip := ip\<rparr>)))"
proof -
  let ?l = "live (portmap_tab s)" and ?n = "fold run (net_calls s) n0"
  let ?d = "fold run (map (\<lambda>e. Ip_portmap_remove (pm_proto e) (pm_mport e)) ?l) ?n"
  have "napt ?n k = None" if "k \<notin> key_of ` set ?l" for k
    using assms that table_view_None [of "my_ip s" "portmap_tab s" k] by (simp add: mirrored_def net_view_def)
  then have "napt ?d = Map.empty" by (auto simp: napt_deleted)
  then show ?thesis
    by (simp add: mirrored_def apply_portmap_tab_calls delete_portmap_tab_calls napt_applied
        net_view_def table_view_def)
qed

end

end
