(* ===== verification/Portmap_Props.thy ===== *)
theory Portmap_Props
  imports Portmap_Laws
begin

text \<open>
  What the port mapping table promises: its operations keep the NAPT table of the IP stack in
  step with it, it survives a restart, and what happens to a mapping that was added twice.
\<close>

section \<open>Storing always ends\<close>

lemma add_portmap_runs: "\<exists>e s' p'. add_portmap api proto mport daddr dport s p = Inr (e, s', p')"
proof (cases "first_idx (\<lambda>e. pm_valid e = 0) (portmap_tab s)")
  case (Some i)
  let ?t = "s\<lparr>portmap_tab := (portmap_tab s)[i := (portmap_tab s ! i)
    \<lparr>pm_proto := proto, pm_mport := mport, pm_daddr := daddr, pm_dport := dport, pm_valid := 1\<rparr>]\<rparr>"
  obtain e p' where "store_portmap api (plat_log ''New portmap table stored'' []) ?t p = Inr (e, p')"
    using store_portmap_ex [of api "\<lambda>p. p\<lparr>plog := put_line ''New portmap table stored'' (plog p)\<rparr>" ?t p]
    unfolding store_log by auto
  then show ?thesis
    using Some by (cases "e = ESP_OK") (simp_all add: add_portmap_def Let_def del: store_log)
qed (simp add: add_portmap_def)

lemma del_portmap_runs: "\<exists>e s' p'. del_portmap api proto mport s p = Inr (e, s', p')"
proof (cases "first_idx (\<lambda>e. pm_valid e \<noteq> 0 \<and> pm_mport e = mport \<and> pm_proto e = proto) (portmap_tab s)")
  case (Some i)
  let ?t = "s\<lparr>portmap_tab := (portmap_tab s)[i := (portmap_tab s ! i)\<lparr>pm_valid := 0\<rparr>]\<rparr>"
  obtain e p' where "store_portmap api Inr ?t p = Inr (e, p')"
    using store_portmap_ex [of api "\<lambda>p. p" ?t p] by auto
  then show ?thesis using Some by (cases "e = ESP_OK") (simp_all add: del_portmap_def Let_def)
qed (simp add: del_portmap_def)

context nvs_reliable
begin

lemma add_portmap_stored:
  assumes "add_portmap api proto mport daddr dport s p = Inr (e, s', p')" and "e \<noteq> ESP_ERR_NO_MEM"
  shows "e = ESP_OK" and "portmap_on_disk disk s' p'" and "portmap_on_disk view s' p'"
proof -
  from assms obtain i where "first_idx (\<lambda>e. pm_valid e = 0) (portmap_tab s) = Some i"
    by (cases "first_idx (\<lambda>e. pm_valid e = 0) (portmap_tab s)") (auto simp: add_portmap_def)
  with assms(1) obtain t err where st: "store_portmap api (plat_log ''New portmap table stored'' []) t p = Inr (err, p')"
    and r: "e = err" "portmap_tab s' = portmap_tab t"
    by (auto simp: add_portmap_def Let_def bindE_eq_Inr split: if_splits simp del: store_log)
  from st have "err = ESP_OK \<and> portmap_on_disk disk t p' \<and> portmap_on_disk view t p'"
    unfolding store_log by (auto dest: store_portmap_disk)
  then show "e = ESP_OK" and "portmap_on_disk disk s' p'" and "portmap_on_disk view s' p'"
    using r by (simp_all add: portmap_on_disk_def)
qed

lemma restart_portmap:
  assumes "portmap_on_disk disk s p" and "tab_wf (portmap_tab s)"
  shows "\<exists>p'. get_portmap_tab api (net_boot (length (portmap_tab s))) (p\<lparr>pflash := nvs_reset api (pflash p)\<rparr>) =
    (ESP_OK, (net_boot (length (portmap_tab s)))\<lparr>portmap_tab := portmap_tab s\<rparr>, p')"
  using assms
  by (intro get_portmap_view)
    (simp_all add: portmap_on_disk_def reset net_boot_def tab_wf_def list_all_length zero_entry_def)

end

lemma tab_wf_add:
  assumes "add_portmap api proto mport daddr dport s p = Inr (ESP_OK, s', p')" and "tab_wf (portmap_tab s)"
  shows "tab_wf (portmap_tab s')" and "length (portmap_tab s') = length (portmap_tab s)"
proof -
  from assms(1) obtain i where i: "first_idx (\<lambda>e. pm_valid e = 0) (portmap_tab s) = Some i"
    and s': "portmap_tab s' = (portmap_tab s)[i := add_entry proto mport daddr dport (portmap_tab s ! i)]"
    by (rule add_portmap_ok) simp
  have "length (pm_pad (portmap_tab s ! i)) = 2"
    using first_idx_SomeD(1) [OF i] assms(2) by (simp add: tab_wf_def list_all_length)
  then show "tab_wf (portmap_tab s')" "length (portmap_tab s') = length (portmap_tab s)"
    using assms(2) s' by (simp_all add: tab_wf_def list_all_update add_entry_def)
qed

section \<open>Properties\<close>


lemma net_boot_facts:
  "mirrored napt_run (\<lambda>n. n) Map.empty (net_boot n)" "unique_keys (portmap_tab (net_boot n))"
  "live (portmap_tab (net_boot n)) = []" "tab_wf (portmap_tab (net_boot n))"
  by (simp_all add: mirrored_def net_boot_def net_view_def table_view_def unique_keys_def live_def zero_entry_def
      tab_wf_def list_all_length)

text \<open>The first addition after start-up, for concrete runs.\<close>

lemma first_portmap:
  assumes "0 < n"
  obtains s' p' where "add_portmap ram_api proto mport daddr dport (net_boot n) plat0 = Inr (ESP_OK, s', p')"
proof -
  obtain e s' p' where add: "add_portmap ram_api proto mport daddr dport (net_boot n) plat0 = Inr (e, s', p')"
    using add_portmap_runs by blast
  have "first_idx (\<lambda>e. pm_valid e = 0) (portmap_tab (net_boot n)) = Some 0"
    using assms by (simp add: first_idx_Some_iff net_boot_def zero_entry_def)
  then have "e \<noteq> ESP_ERR_NO_MEM"
    using add by (auto simp: add_portmap_def store_portmap_def Let_def bindE_eq_Inr ram_simps
        split: prod.splits if_splits option.splits)
  then have "e = ESP_OK" using ram.add_portmap_stored(1) [OF add] by simp
  then show thesis using add that by blast
qed


text \<open>On a flash that does not fail, the table after an addition that found a free slot is the
  table that is loaded after a restart.\<close>

theorem portmap_survives_restart:
  assumes "nvs_reliable api view disk handles" and "tab_wf (portmap_tab s)"
    and "add_portmap api proto mport daddr dport s p = Inr (e, s', p')" and "e \<noteq> ESP_ERR_NO_MEM"
  shows "e = ESP_OK \<and> (\<exists>p2. get_portmap_tab api (net_boot (length (portmap_tab s)))
      (p'\<lparr>pflash := nvs_reset api (pflash p')\<rparr>) =
    (ESP_OK, (net_boot (length (portmap_tab s)))\<lparr>portmap_tab := portmap_tab s'\<rparr>, p2))"
proof -
  note d = nvs_reliable.add_portmap_stored [OF assms(1,3,4)]
  have ok: "add_portmap api proto mport daddr dport s p = Inr (ESP_OK, s', p')" using assms(3) d(1) by simp
  from nvs_reliable.restart_portmap [OF assms(1) d(2)] tab_wf_add [OF ok assms(2)] d(1)
  show ?thesis by simp
qed

theorem portmap_survives_restart_witness:
  "\<exists>s' p' p2. add_portmap ram_api 6 8080 0x0201A8C0 80 (net_boot 32) plat0 = Inr (ESP_OK, s', p') \<and>
     get_portmap_tab ram_api (net_boot 32) (p'\<lparr>pflash := nvs_reset ram_api (pflash p')\<rparr>) =
       (ESP_OK, (net_boot 32)\<lparr>portmap_tab := portmap_tab s'\<rparr>, p2)"
proof -
  obtain s' p' where add: "add_portmap ram_api 6 8080 0x0201A8C0 80 (net_boot 32) plat0 = Inr (ESP_OK, s', p')"
    by (rule first_portmap [of 32]) simp
  have "length (portmap_tab (net_boot 32)) = 32" by (simp add: net_boot_def)
  then show ?thesis
    using add portmap_survives_restart [OF ram.nvs_reliable_axioms net_boot_facts(4) add] by auto
qed

text \<open>Nothing keeps the same pair from being added twice; a deletion then frees only one of the
  entries while the IP stack forgets the mapping, so the deleted mapping is back after the next
  change of address.\<close>

theorem portmap_added_twice_comes_back:
  assumes "napt_driver run napt" and "mirrored run napt n0 s" and "unique_keys (portmap_tab s)"
    and "add_portmap api proto mport a1 d1 s p = Inr (ESP_OK, s1, p1)"
    and "add_portmap api proto mport a2 d2 s1 p1 = Inr (ESP_OK, s2, p2)"
    and "del_portmap api proto mport s2 p2 = Inr (ESP_OK, s3, p3)"
    and "(proto, mport) \<notin> key_of ` set (live (portmap_tab s))"
  shows "napt (fold run (net_calls s3) n0) (proto, mport) = None \<and>
    napt (fold run (net_calls (apply_portmap_tab (delete_portmap_tab (s3\<lparr>my_ip := ip\<rparr>)))) n0) (proto, mport) \<noteq> None"
proof -
  let ?k = "(proto, mport)"
  from assms(4) obtain i where i: "first_idx (\<lambda>e. pm_valid e = 0) (portmap_tab s) = Some i"
    and s1: "portmap_tab s1 = (portmap_tab s)[i := add_entry proto mport a1 d1 (portmap_tab s ! i)]"
    by (rule add_portmap_ok) simp
  from assms(5) obtain j where j: "first_idx (\<lambda>e. pm_valid e = 0) (portmap_tab s1) = Some j"
    and s2: "portmap_tab s2 = (portmap_tab s1)[j := add_entry proto mport a2 d2 (portmap_tab s1 ! j)]"
    by (rule add_portmap_ok) simp
  note I = first_idx_SomeD [OF i] and J = first_idx_SomeD [OF j]
  have ne: "j \<noteq> i" using I(1) J(2) s1 by (auto simp: add_entry_def)
  have e: "key_of (portmap_tab s2 ! i) = ?k" "key_of (portmap_tab s2 ! j) = ?k"
    "pm_valid (portmap_tab s2 ! i) \<noteq> 0" "pm_valid (portmap_tab s2 ! j) \<noteq> 0"
    "i < length (portmap_tab s2)" "j < length (portmap_tab s2)"
    using s1 s2 I(1) J(1) ne by (auto simp: add_entry_def key_of_def)
  from assms(6) show ?thesis
  proof (cases rule: del_portmap_ok)
    case absent
    have "portmap_tab s2 ! i \<in> set (live (portmap_tab s2))" using e by (simp add: live_def)
    then show ?thesis using absent(3) e(1) by (metis imageI)
  next
    case (freed k)
    obtain l where l: "l \<noteq> k" "l < length (portmap_tab s2)" "key_of (portmap_tab s2 ! l) = ?k"
      "pm_valid (portmap_tab s2 ! l) \<noteq> 0" using e ne by metis
    have "portmap_tab s3 ! l = portmap_tab s2 ! l" "l < length (portmap_tab s3)" using freed(5) l by simp_all
    then have "portmap_tab s3 ! l \<in> set (live (portmap_tab s3))"
      using l nth_mem [of l "portmap_tab s3"] by (simp add: live_def)
    then have in3: "?k \<in> key_of ` set (live (portmap_tab s3))"
      using l(3) \<open>portmap_tab s3 ! l = portmap_tab s2 ! l\<close> by (metis imageI)
    have "napt (fold run (net_calls s3) n0) ?k = None"
      using freed(5) by (simp add: napt_driver.napt_remove [OF assms(1)])
    moreover have "fold (\<lambda>e m. m(key_of e \<mapsto> (ip, pm_daddr e, pm_dport e))) (live (portmap_tab s3)) m ?k \<noteq> None" for m
    proof -
      have "fold (\<lambda>e m. m(key_of e \<mapsto> (ip, pm_daddr e, pm_dport e))) xs m ?k = None \<longleftrightarrow>
          ?k \<notin> key_of ` set xs \<and> m ?k = None" for xs m
        by (induction xs arbitrary: m) auto
      then show ?thesis using in3 by blast
    qed
    ultimately show ?thesis
      by (simp add: apply_portmap_tab_calls delete_portmap_tab_calls napt_driver.napt_applied [OF assms(1)])
  qed
qed

theorem portmap_added_twice_comes_back_witness:
  "\<exists>s1 p1 s2 p2 s3 p3. add_portmap ram_api 6 80 1 81 (net_boot 32) plat0 = Inr (ESP_OK, s1, p1) \<and>
     add_portmap ram_api 6 80 2 82 s1 p1 = Inr (ESP_OK, s2, p2) \<and>
     del_portmap ram_api 6 80 s2 p2 = Inr (ESP_OK, s3, p3) \<and>
     fold napt_run (net_calls (apply_portmap_tab (delete_portmap_tab (s3\<lparr>my_ip := 9\<rparr>)))) Map.empty (6, 80) \<noteq> None"
proof -
  obtain s1 p1 where 1: "add_portmap ram_api 6 80 1 81 (net_boot 32) plat0 = Inr (ESP_OK, s1, p1)"
    by (rule first_portmap [of 32]) simp
  obtain e2 s2 p2 where 2: "add_portmap ram_api 6 80 2 82 s1 p1 = Inr (e2, s2, p2)"
    using add_portmap_runs by blast
  from 1 obtain i where "first_idx (\<lambda>e. pm_valid e = 0) (portmap_tab (net_boot 32)) = Some i"
    and s1: "portmap_tab s1 = (portmap_tab (net_boot 32))[i := add_entry 6 80 1 81 (portmap_tab (net_boot 32) ! i)]"
    by (rule add_portmap_ok) simp
  then have "i = 0" using first_idx_SomeD(3) [of _ _ i 0] by (fastforce simp: net_boot_def zero_entry_def)
  then have "portmap_tab s1 ! 1 = zero_entry" "1 < length (portmap_tab s1)"
    using s1 by (simp_all add: net_boot_def)
  then have "first_idx (\<lambda>e. pm_valid e = 0) (portmap_tab s1) \<noteq> None"
    unfolding first_idx_None using nth_mem [of 1 "portmap_tab s1"] by (metis (mono_tags, lifting) portmap_entry.select_convs(5) zero_entry_def)
  then have "e2 \<noteq> ESP_ERR_NO_MEM"
    using 2 by (auto simp: add_portmap_def store_portmap_def Let_def bindE_eq_Inr ram_simps
        split: prod.splits if_splits option.splits)
  then have e2: "e2 = ESP_OK" using ram.add_portmap_stored(1) [OF 2] by simp
  obtain e3 s3 p3 where 3: "del_portmap ram_api 6 80 s2 p2 = Inr (e3, s3, p3)"
    using del_portmap_runs by blast
  have "e3 = ESP_OK"
    using 3 by (auto simp: del_portmap_def store_portmap_def Let_def bindE_eq_Inr ram_simps
        split: prod.splits if_splits option.splits)
  then show ?thesis
    using 1 2 3 e2 portmap_added_twice_comes_back [OF reference_napt.napt_driver_axioms net_boot_facts(1,2) 1, of 2 82]
      net_boot_facts(3) [of 32] by fastforce
qed

end
