(* ===== verification/Wifi_Laws.thy ===== *)
theory Wifi_Laws
  imports Wifi Packet_Laws Portmap_Props
begin

text \<open>
  Invariants of the radio: the device table, the table of connected stations and the counter,
  over all reachable states; and the configuration \<open>wifi_init\<close> computes.
\<close>

section \<open>Events and the device table\<close>

lemma uplink_devices:
  assumes "ev \<in> {STA_START, STA_DISCONNECTED, STA_GOT_IP ip, OTHER_EVENT}"
    and "wifi_event_handler deauth di ev w p = Inr (w', p')"
  shows "w_dev w' = w_dev w"
  using assms by (auto simp: on_got_ip_def Let_def bindE_eq_Inr)

lemma devices_wf_count [simp]: "devices_wf (d\<lparr>connect_count := c\<rparr>) = devices_wf d"
  by (simp add: devices_wf_def known_def)

lemma device_count_frame [simp]:
  "known (d\<lparr>connect_count := c\<rparr>) = known d" "connected (d\<lparr>connect_count := c\<rparr>) = connected d"
  "device_status m (d\<lparr>connect_count := c\<rparr>) = device_status m d"
  "connected (add_device m d) = connected d"
  by (simp_all add: known_def connected_def device_status_def frame_simps split: option.split)

lemma connected_length: "devices_wf d \<Longrightarrow> length (connected d) = connected_count d"
  by (simp add: connected_def devices_wf_def)

lemma set_status_connected:
  "set_device_status m t d = (ok, d') \<Longrightarrow> connected d' = connected d \<and> connect_count d' = connect_count d"
  by (auto simp: set_device_status_def connected_def Let_def split: option.splits)

definition nobody_blocked :: "devices \<Rightarrow> bool" where
  "nobody_blocked d \<longleftrightarrow> (\<forall>e \<in> set (known d). dv_status e \<noteq> BLOCKED)"

lemma nobody_blocked_status: "devices_wf d \<Longrightarrow> nobody_blocked d \<Longrightarrow> device_status m d \<noteq> BLOCKED"
  using device_status_iff [of d BLOCKED m] by (auto simp: nobody_blocked_def)

lemma nobody_blocked_set:
  assumes "nobody_blocked d" and "devices_wf d" and "t \<noteq> ''BLOCKED''" and "set_device_status m t d = (ok, d')"
  shows "nobody_blocked d'"
proof (cases "first_idx (\<lambda>e. dv_mac e = m) (take (device_count d) (device_list d))")
  case (Some i)
  then have i: "i < device_count d" using first_idx_SomeD(1) by fastforce
  define st where "st = (if t = ''ALLOWED'' then ALLOWED else if t = ''BLOCKED'' then BLOCKED
    else dv_status (device_list d ! i))"
  have d': "d' = d\<lparr>device_list := (device_list d)[i := (device_list d ! i)\<lparr>dv_status := st\<rparr>]\<rparr>"
    using assms(4) Some by (simp add: set_device_status_def st_def Let_def)
  have len: "i < length (known d)" using i assms(2) by (simp add: known_def devices_wf_def)
  have "st \<noteq> BLOCKED"
    using assms(1,3) len i nth_mem [OF len] by (auto simp: st_def nobody_blocked_def known_def)
  then show ?thesis
    using assms(1) unfolding d' nobody_blocked_def known_status_update [OF assms(2) i]
    by (auto dest!: set_update_subset_insert [THEN subsetD])
qed (use assms in \<open>simp add: set_device_status_def\<close>)

section \<open>Reachable states\<close>

text \<open>The invariant that always holds.\<close>

definition radio_inv :: "'f radio \<Rightarrow> bool" where
  "radio_inv s = (case s of (A, w, p) \<Rightarrow> distinct A \<and> length A \<le> 8 \<and> devices_wf (w_dev w) \<and>
     distinct (connected (w_dev w)) \<and> set (connected (w_dev w)) \<subseteq> set A)"

lemma radio_step_inv:
  assumes "radio_step deauth blocking s s'" and "radio_inv s"
  shows "radio_inv s'"
  using assms
proof (cases rule: radio_step.cases)
  case (associate m A di aid w p w' p')
  obtain n' p2 where h: "wifi_event_handler deauth di (AP_STACONNECTED m aid) w p =
     Inr (w\<lparr>w_net := n', w_dev := (if device_status m (w_dev w) = BLOCKED then w_dev w
       else add_device m ((push_connected m (w_dev w))\<lparr>connect_count := connect_count (w_dev w) + 1\<rparr>))\<rparr>, p2)"
    using connected_event by blast
  have wf: "devices_wf (w_dev w)" using assms(2) associate by (simp add: radio_inv_def)
  have "m \<notin> set (connected (w_dev w))" using assms(2) associate by (auto simp: radio_inv_def)
  then show ?thesis
    using assms(2) associate h wf
    by (auto simp: radio_inv_def push_connected_list add_device_wf push_connected_wf split: if_splits)
next
  case (leave m A di w p w' p')
  have wf: "devices_wf (w_dev w)" using assms(2) leave by (simp add: radio_inv_def)
  obtain p2 where "wifi_event_handler deauth di (AP_STADISCONNECTED m) w p =
     Inr (w\<lparr>w_dev := (drop_connected m (w_dev w))\<lparr>connect_count := connect_count (w_dev w) - 1\<rparr>\<rparr>, p2)"
    using disconnected_event by blast
  then show ?thesis
    using assms(2) leave drop_connected_list [OF wf, of m] drop_connected_wf [OF wf, of m]
    by (auto simp: radio_inv_def set_remove1_eq length_remove1)
next
  case (uplink ev ip di w p w' p' A)
  then show ?thesis using assms(2) uplink_devices by (fastforce simp: radio_inv_def)
next
  case (administer t m w ok d' A p)
  then show ?thesis
    using assms(2) set_status_connected [OF administer(4)] set_device_status_wf [OF administer(4)]
    by (simp add: radio_inv_def)
qed

lemma radio_boot_inv: "radio_inv ([], \<lparr>w_net = net_boot n, w_dev = devices_boot\<rparr>, p)"
  using devices_wf_boot by (simp add: radio_inv_def connected_def devices_boot_def)

lemma radio_reachable_inv: "radio_reachable deauth blocking n p s \<Longrightarrow> radio_inv s"
  unfolding radio_reachable_def
  by (induction rule: rtranclp_induct) (auto intro: radio_boot_inv radio_step_inv)

text \<open>The invariant of a router that never blocks anybody.\<close>

definition counting_inv :: "'f radio \<Rightarrow> bool" where
  "counting_inv s = (case s of (A, w, p) \<Rightarrow> nobody_blocked (w_dev w) \<and>
     mset (connected (w_dev w)) = mset A \<and> connect_count (w_dev w) = of_nat (length A))"

lemma nobody_blocked_add:
  assumes "devices_wf d" and "nobody_blocked d"
  shows "nobody_blocked (add_device m d)"
  using assms by (auto simp: nobody_blocked_def add_device_known)

lemma radio_step_counting:
  assumes "radio_step deauth False s s'" and inv: "radio_inv s" and "counting_inv s"
  shows "counting_inv s'"
  using assms
proof (cases rule: radio_step.cases)
  case (associate m A di aid w p w' p')
  let ?d = "w_dev w"
  have wf: "devices_wf ?d" and A: "length A < 8" and nb: "nobody_blocked ?d"
    using inv associate assms(3) by (simp_all add: radio_inv_def counting_inv_def)
  obtain n' p2 where h: "wifi_event_handler deauth di (AP_STACONNECTED m aid) w p =
     Inr (w\<lparr>w_net := n', w_dev := (if device_status m ?d = BLOCKED then ?d
       else add_device m ((push_connected m ?d)\<lparr>connect_count := connect_count ?d + 1\<rparr>))\<rparr>, p2)"
    using connected_event by blast
  have w': "w_dev w' = add_device m ((push_connected m ?d)\<lparr>connect_count := connect_count ?d + 1\<rparr>)"
    using h associate(5) nobody_blocked_status [OF wf nb, of m] by auto
  have "length (connected ?d) = length A"
    using assms(3) associate by (auto simp: counting_inv_def dest: mset_eq_length)
  then have room: "connected_count ?d < MAX_CONNECTED_DEVICES"
    using connected_length [OF wf] A by (simp add: MAX_CONNECTED_DEVICES_def)
  have "nobody_blocked (add_device m ((push_connected m ?d)\<lparr>connect_count := connect_count ?d + 1\<rparr>))"
    using nb wf by (intro nobody_blocked_add) (simp_all add: push_connected_wf nobody_blocked_def frame_simps)
  then show ?thesis
    using assms(3) associate(1,2) room
    by (simp add: counting_inv_def w' push_connected_list [OF wf] add_device_frame)
next
  case (leave m A di w p w' p')
  let ?d = "w_dev w"
  have wf: "devices_wf ?d" using inv leave by (simp add: radio_inv_def)
  obtain p2 where h: "wifi_event_handler deauth di (AP_STADISCONNECTED m) w p =
     Inr (w\<lparr>w_dev := (drop_connected m ?d)\<lparr>connect_count := connect_count ?d - 1\<rparr>\<rparr>, p2)"
    using disconnected_event by blast
  obtain k where k: "length A = Suc k" "length (remove1 m A) = k"
    using leave(3) by (cases "length A") (auto simp: length_remove1)
  then show ?thesis
    using assms(3) leave(1,2,4) h drop_connected_list [OF wf, of m]
    by (auto simp: counting_inv_def nobody_blocked_def frame_simps k)
next
  case (uplink ev ip di w p w' p' A)
  then show ?thesis using assms(3) uplink_devices by (fastforce simp: counting_inv_def)
next
  case (administer t m w ok d' A p)
  then have "nobody_blocked (w_dev w)" "devices_wf (w_dev w)"
    using inv assms(3) by (simp_all add: radio_inv_def counting_inv_def)
  then have "nobody_blocked d'" using administer(3,4) nobody_blocked_set by blast
  then show ?thesis
    using assms(3) administer set_status_connected [OF administer(4)] by (simp add: counting_inv_def)
qed

lemma radio_boot_counting: "counting_inv ([], \<lparr>w_net = net_boot n, w_dev = devices_boot\<rparr>, p)"
  by (simp add: counting_inv_def connected_def devices_boot_def nobody_blocked_def known_def)

lemma radio_reachable_counting:
  assumes "radio_reachable deauth False n p s"
  shows "counting_inv s"
  using assms unfolding radio_reachable_def
proof (induction rule: rtranclp_induct)
  case base
  show ?case by (rule radio_boot_counting)
next
  case (step y z)
  then have "radio_inv y" using radio_reachable_inv unfolding radio_reachable_def by blast
  then show ?case using step radio_step_counting by blast
qed

section \<open>Properties\<close>

text \<open>C28: in every reachable state the list of devices has room for its entries and no MAC twice,
  and the table of connected stations holds, once each, only stations that are associated.\<close>

theorem radio_tables_sound:
  assumes "radio_reachable deauth blocking n p (A, w, q)"
  shows "device_count (w_dev w) \<le> MAX_DEVICES \<and> distinct (map dv_mac (known (w_dev w))) \<and>
    distinct (connected (w_dev w)) \<and> set (connected (w_dev w)) \<subseteq> set A"
  using radio_reachable_inv [OF assms] by (simp add: radio_inv_def devices_wf_def)

text \<open>As long as nobody has been blocked, the counter of connected stations is exact and the
  table lists exactly the associated stations.\<close>

theorem connect_count_exact:
  assumes "radio_reachable deauth False n p (A, w, q)"
  shows "unat (connect_count (w_dev w)) = length A \<and> mset (connected (w_dev w)) = mset A"
proof -
  have "length A \<le> 8" using radio_reachable_inv [OF assms] by (simp add: radio_inv_def)
  then show ?thesis
    using radio_reachable_counting [OF assms] by (simp add: counting_inv_def unat_of_nat)
qed

text \<open>One station comes; the run the witnesses and the counterexample below start with.\<close>

abbreviation mac1 :: mac where "mac1 \<equiv> [2, 0, 0, 0, 0, 1]"

lemma one_station:
  obtains w q where "radio_reachable deauth blocking n p ([mac1], w, q)" "connect_count (w_dev w) = 1"
    "known (w_dev w) = [\<lparr>dv_mac = mac1, dv_status = PENDING\<rparr>]"
proof -
  let ?w0 = "\<lparr>w_net = net_boot n, w_dev = devices_boot\<rparr>"
  have st: "device_status mac1 devices_boot = PENDING" by code_simp
  let ?d = "add_device mac1 ((push_connected mac1 devices_boot)\<lparr>connect_count := 1\<rparr>)"
  obtain n' p2 where h: "wifi_event_handler deauth ESP_OK (AP_STACONNECTED mac1 1) ?w0 p =
     Inr (?w0\<lparr>w_net := n', w_dev := ?d\<rparr>, p2)"
    using connected_event [of deauth ESP_OK mac1 1 ?w0 p] st by (auto simp: devices_boot_def)
  have "radio_step deauth blocking ([], ?w0, p) ([mac1], ?w0\<lparr>w_net := n', w_dev := ?d\<rparr>, p2)"
    by (rule radio_step.associate [OF _ _ h]) simp_all
  then have r: "radio_reachable deauth blocking n p ([mac1], ?w0\<lparr>w_net := n', w_dev := ?d\<rparr>, p2)"
    by (simp add: radio_reachable_def)
  have "devices_wf ((push_connected mac1 devices_boot)\<lparr>connect_count := 1\<rparr>)"
    by (simp add: push_connected_wf devices_wf_boot)
  moreover have "known (push_connected mac1 devices_boot) = []" "device_count (push_connected mac1 devices_boot) = 0"
    by (simp_all add: frame_simps) (simp_all add: known_def devices_boot_def push_connected_def)
  ultimately have "known ?d = [\<lparr>dv_mac = mac1, dv_status = PENDING\<rparr>]"
    by (simp add: add_device_known mac_exists_iff MAX_DEVICES_def)
  then show thesis using that [OF r] by (simp add: add_device_frame)
qed

theorem radio_tables_sound_witness:
  "\<exists>w q. radio_reachable (\<lambda>_. ESP_OK) True 32 plat0 ([mac1], w, q) \<and> device_count (w_dev w) \<le> MAX_DEVICES"
  by (rule one_station [of "\<lambda>_. ESP_OK" True 32 plat0]) (use radio_tables_sound in blast)

theorem connect_count_exact_witness:
  "\<exists>w q. radio_reachable (\<lambda>_. ESP_OK) False 32 plat0 ([mac1], w, q) \<and> unat (connect_count (w_dev w)) = 1"
proof -
  obtain w q where r: "radio_reachable (\<lambda>_. ESP_OK) False 32 plat0 ([mac1], w, q)"
    by (rule one_station [of "\<lambda>_. ESP_OK" False 32 plat0])
  then show ?thesis using connect_count_exact [OF r] by auto
qed

text \<open>A blocked device that tries to connect is never counted in but is counted out when its
  deauthentication ends the association: with no station left the counter stands at 65535, and
  one round of the status LED then takes as many blinks.\<close>

theorem connect_count_underflows:
  "\<exists>w q. radio_reachable deauth True n p ([], w, q) \<and> connect_count (w_dev w) = 65535 \<and>
     length (led_round apc (connect_count (w_dev w))) = 131071"
proof -
  obtain w1 q1 where r1: "radio_reachable deauth True n p ([mac1], w1, q1)" and c1: "connect_count (w_dev w1) = 1"
    and k1: "known (w_dev w1) = [\<lparr>dv_mac = mac1, dv_status = PENDING\<rparr>]" by (rule one_station)
  have wf1: "devices_wf (w_dev w1)" using radio_reachable_inv [OF r1] by (simp add: radio_inv_def)
  obtain q2 where h2: "wifi_event_handler deauth ESP_OK (AP_STADISCONNECTED mac1) w1 q1 =
     Inr (w1\<lparr>w_dev := (drop_connected mac1 (w_dev w1))\<lparr>connect_count := connect_count (w_dev w1) - 1\<rparr>\<rparr>, q2)"
    using disconnected_event by blast
  define w2 where "w2 = w1\<lparr>w_dev := (drop_connected mac1 (w_dev w1))\<lparr>connect_count := connect_count (w_dev w1) - 1\<rparr>\<rparr>"
  have s2: "radio_step deauth True ([mac1], w1, q1) ([], w2, q2)"
    using radio_step.leave [OF _ h2, of "[mac1]" True] by (simp add: w2_def)
  have r2: "radio_reachable deauth True n p ([], w2, q2)"
    using r1 s2 unfolding radio_reachable_def by (rule rtranclp.rtrancl_into_rtrancl)
  have wf2: "devices_wf (w_dev w2)" using radio_reachable_inv [OF r2] by (simp add: radio_inv_def)
  have d2: "connect_count (w_dev w2) = 0" "known (w_dev w2) = [\<lparr>dv_mac = mac1, dv_status = PENDING\<rparr>]"
    using c1 k1 by (simp_all add: w2_def frame_simps)
  obtain ok d3 where set3: "set_device_status mac1 ''BLOCKED'' (w_dev w2) = (ok, d3)" by fastforce
  have first: "first_idx (\<lambda>e. dv_mac e = mac1) (take (device_count (w_dev w2)) (device_list (w_dev w2))) = Some 0"
    using d2(2) by (simp add: known_def)
  have len2: "device_count (w_dev w2) = 1"
    using arg_cong [OF d2(2), of length] wf2 by (simp add: known_def devices_wf_def MAX_DEVICES_def min_def split: if_splits)
  have wf3: "devices_wf d3" using set_device_status_wf [OF set3 wf2] .
  have e0: "device_list (w_dev w2) ! 0 = \<lparr>dv_mac = mac1, dv_status = PENDING\<rparr>"
    using d2(2) len2 by (cases "device_list (w_dev w2)") (simp_all add: known_def)
  have "known d3 = [\<lparr>dv_mac = mac1, dv_status = BLOCKED\<rparr>]"
    using set3 first e0 known_status_update [OF wf2, of 0 BLOCKED] d2(2) len2
    by (auto simp: set_device_status_def Let_def)
  then have b3: "device_status mac1 d3 = BLOCKED" using device_status_iff [OF wf3, of BLOCKED mac1] by simp
  define w3 where "w3 = w2\<lparr>w_dev := d3\<rparr>"
  have s3: "radio_step deauth True ([], w2, q2) ([], w3, q2)"
    unfolding w3_def by (rule radio_step.administer [OF _ set3]) simp
  have c3: "connect_count d3 = 0" using set_status_connected [OF set3] d2(1) by simp
  obtain w4 q4 where h4: "wifi_event_handler deauth ESP_OK (AP_STACONNECTED mac1 1) w3 q2 = Inr (w4, q4)"
    and d4: "w_dev w4 = d3"
    using connected_event [of deauth ESP_OK mac1 1 w3 q2] b3 by (auto simp: w3_def)
  have s4: "radio_step deauth True ([], w3, q2) ([mac1], w4, q4)"
    by (rule radio_step.associate [OF _ _ h4]) simp_all
  let ?w5 = "w4\<lparr>w_dev := (drop_connected mac1 d3)\<lparr>connect_count := connect_count d3 - 1\<rparr>\<rparr>"
  obtain q5 where h5: "wifi_event_handler deauth ESP_OK (AP_STADISCONNECTED mac1) w4 q4 = Inr (?w5, q5)"
    using disconnected_event [of deauth ESP_OK mac1 w4 q4] d4 by auto
  have s5: "radio_step deauth True ([mac1], w4, q4) ([], ?w5, q5)"
    using radio_step.leave [OF _ h5, of "[mac1]" True] by simp
  have "radio_reachable deauth True n p ([], ?w5, q5)"
    using r2 s3 s4 s5 unfolding radio_reachable_def by (meson rtranclp.rtrancl_into_rtrancl)
  moreover have "connect_count (w_dev ?w5) = 65535" using c3 by simp
  moreover have "length (led_round apc m) = 1 + 2 * unat m" for m
    by (simp add: led_round_def length_concat comp_def sum_list_triv)
  ultimately show ?thesis by fastforce
qed

end
