(* ===== verification/Url_Decode.thy ===== *)
theory Url_Decode
  imports Format
begin

text \<open>
  Decoding of URL-encoded text in place: \<open>preprocess_string\<close> of
  \<open>components/cmd_router/cmd_router.c\<close>.

  The code walks one array with a read index and a write index. \<open>url_decode\<close> is what it
  computes, as a function of the text, and the first lemma says so: the write index never
  overtakes the read index, so writing over the text that is being read is harmless. \<open>char\<close>
  is unsigned, as on the Xtensa processors the firmware is built for.
\<close>

section \<open>The code\<close>

abbreviation plus :: char where "plus \<equiv> CHR 0x2B"
abbreviation blank :: char where "blank \<equiv> CHR 0x20"

text \<open>The value of one of the two characters after a percent sign.\<close>

definition hex_nibble :: "char \<Rightarrow> byte" where
  "hex_nibble c = (if (of_char c :: nat) \<le> 57 then byte_of_char c - 48
     else byte_of_char (c_toupper c) - 65 + 10)"

definition quoted_hex :: "char \<Rightarrow> char \<Rightarrow> char" where
  "quoted_hex x y = char_of_byte (push_bit 4 (hex_nibble x) + hex_nibble y)"

function preprocess_loop :: "string \<Rightarrow> nat \<Rightarrow> nat \<Rightarrow> string cres" where
  "preprocess_loop a p q =
     (if length a \<le> p then Inl OOB_read
      else if a ! p = NUL then Inr (a[q := NUL])
      else if a ! p = percent then
        (if length a \<le> p + 1 then Inl OOB_read
         else if a ! (p + 1) = NUL then preprocess_loop (a[q := a ! p]) (p + 1) (q + 1)
         else if length a \<le> p + 2 then Inl OOB_read
         else if a ! (p + 2) = NUL then preprocess_loop (a[q := a ! p]) (p + 1) (q + 1)
         else preprocess_loop (a[q := quoted_hex (a ! (p + 1)) (a ! (p + 2))]) (p + 3) (q + 1))
      else if a ! p = plus then preprocess_loop (a[q := blank]) (p + 1) (q + 1)
      else preprocess_loop (a[q := a ! p]) (p + 1) (q + 1))"
  by pat_completeness auto
termination by (relation "measure (\<lambda>(a, p, q). length a - p)") auto

declare preprocess_loop.simps [simp del]

definition preprocess_string :: "string \<Rightarrow> string cres" where
  "preprocess_string str = preprocess_loop str 0 0"

section \<open>What it computes\<close>

fun url_decode :: "string \<Rightarrow> string" where
  "url_decode (c # x # y # s) =
     (if c = percent then quoted_hex x y # url_decode s
      else (if c = plus then blank else c) # url_decode (x # y # s))"
| "url_decode [c, x] = [if c = plus then blank else c, if x = plus then blank else x]"
| "url_decode [c] = [if c = plus then blank else c]"
| "url_decode [] = []"

lemma length_url_decode: "length (url_decode s) \<le> length s"
  by (induction s rule: url_decode.induct) auto

lemma url_decode_Cons:
  "c \<noteq> percent \<Longrightarrow> url_decode (c # s) = (if c = plus then blank else c) # url_decode s"
proof (cases s)
  case (Cons x t)
  assume "c \<noteq> percent"
  then show ?thesis using Cons by (cases t) auto
qed auto

lemma drop_at: "drop p a = s @ t \<Longrightarrow> i < length s \<Longrightarrow> a ! (p + i) = s ! i"
  by (metis nth_append nth_drop length_append less_imp_le_nat linorder_not_le drop_all list.size(3)
      add_is_0 not_less_zero)

lemma loop_step:
  assumes "q \<le> p" and "0 < k" and "p + k \<le> length a"
    and "\<And>a q. q \<le> p + k \<Longrightarrow> p + k \<le> length a \<Longrightarrow> drop (p + k) a = s @ NUL # rest \<Longrightarrow>
       preprocess_loop a (p + k) q = Inr (take q a @ url_decode s @ NUL # drop (q + length (url_decode s) + 1) a)"
    and "drop (p + k) a = s @ NUL # rest"
  shows "preprocess_loop (a[q := c]) (p + k) (q + 1) =
    Inr (take q a @ (c # url_decode s) @ NUL # drop (q + length (c # url_decode s) + 1) a)"
proof -
  have "q < length a" using assms by simp
  then have "take (q + 1) (a[q := c]) = take q a @ [c]"
    by (simp add: take_Suc_conv_app_nth)
  then show ?thesis
    using assms(4) [of "q + 1" "a[q := c]"] assms by simp
qed

lemma preprocess_loop_decode:
  assumes "is_cstr s" and "q \<le> p" and "p \<le> length a" and "drop p a = s @ NUL # rest"
  shows "preprocess_loop a p q = Inr (take q a @ url_decode s @ NUL # drop (q + length (url_decode s) + 1) a)"
  using assms
proof (induction s arbitrary: a p q rule: length_induct)
  case (1 s)
  have IH: "preprocess_loop b (p + k) r =
      Inr (take r b @ url_decode t @ NUL # drop (r + length (url_decode t) + 1) b)"
    if "length t < length s" "is_cstr t" "r \<le> p + k" "p + k \<le> length b" "drop (p + k) b = t @ NUL # rest"
    for t b k r
    by (rule "1.IH" [rule_format, OF that])
  have "length (drop p a) = length (s @ NUL # rest)" using 1(5) by simp
  then have len: "length a = p + length s + Suc (length rest)"
    using 1(4) by simp
  have at: "a ! (p + i) = (s @ [NUL]) ! i" if "i < Suc (length s)" for i
    using drop_at [of p a "s @ [NUL]" rest i] 1(5) that by simp
  have skip: "drop (p + k) a = drop k s @ NUL # rest" if "k \<le> length s" for k
  proof -
    have "drop (p + k) a = drop k (drop p a)" by (simp add: add.commute)
    then show ?thesis using 1(5) that by simp
  qed
  have step: "preprocess_loop (a[q := c]) (p + k) (q + 1) =
      Inr (take q a @ (c # url_decode (drop k s)) @ NUL # drop (q + length (c # url_decode (drop k s)) + 1) a)"
    if "0 < k" "k \<le> length s" for k c
  proof (rule loop_step [OF 1(3) that(1)])
    show "p + k \<le> length a" using that(2) len by simp
    show "drop (p + k) a = drop k s @ NUL # rest" by (rule skip [OF that(2)])
    fix b r assume "r \<le> p + k" "p + k \<le> length b" "drop (p + k) b = drop k s @ NUL # rest"
    then show "preprocess_loop b (p + k) r = Inr (take r b @ url_decode (drop k s) @ NUL #
        drop (r + length (url_decode (drop k s)) + 1) b)"
      using that 1(2) by (intro IH) (simp_all add: is_cstr_drop)
  qed
  show ?case
  proof (cases s)
    case Nil
    then have "a ! p = NUL" using at [of 0] by simp
    then have "preprocess_loop a p q = Inr (a[q := NUL])"
      using len by (subst preprocess_loop.simps) simp
    also have "a[q := NUL] = take q a @ NUL # drop (q + 1) a"
      using len 1(3) by (simp add: upd_conv_take_nth_drop)
    finally show ?thesis using Nil by simp
  next
    case (Cons c s')
    have c: "a ! p = c" "c \<noteq> NUL" using at [of 0] Cons 1(2) by auto
    show ?thesis
    proof (cases "c = percent")
      case False
      then have "preprocess_loop a p q = preprocess_loop (a[q := if c = plus then blank else c]) (p + 1) (q + 1)"
        using len c by (subst preprocess_loop.simps) simp
      then show ?thesis
        using step [of 1 "if c = plus then blank else c"] False Cons
        by (simp add: url_decode_Cons split del: if_split)
    next
      case True
      show ?thesis
      proof (cases "\<exists>x y t. s' = x # y # t")
        case True
        then obtain x y t where s: "s = c # x # y # t" using Cons by blast
        then have xy: "a ! Suc p = x" "x \<noteq> NUL" "a ! Suc (Suc p) = y" "y \<noteq> NUL"
          using at [of 1] at [of 2] 1(2) by auto
        have "preprocess_loop a p q = preprocess_loop (a[q := quoted_hex x y]) (p + 3) (q + 1)"
          using len c xy \<open>c = percent\<close> s by (subst preprocess_loop.simps) simp
        then show ?thesis
          using step [of 3 "quoted_hex x y"] s \<open>c = percent\<close> by (simp add: numeral_3_eq_3)
      next
        case False
        then have short: "s' = [] \<or> (\<exists>x. s' = [x])" by (metis list.exhaust)
        have stop: "length s' = 0 \<and> a ! Suc p = NUL \<or>
            length s' = 1 \<and> a ! Suc p \<noteq> NUL \<and> a ! Suc (Suc p) = NUL"
          using short at [of 1] at [of 2] Cons 1(2) by auto
        have "preprocess_loop a p q = preprocess_loop (a[q := c]) (p + 1) (q + 1)"
          using stop len c \<open>c = percent\<close> Cons by (subst preprocess_loop.simps) auto
        then show ?thesis
          using step [of 1 c] Cons short \<open>c = percent\<close> by auto
      qed
    qed
  qed
qed

lemma preprocess_string_decode:
  assumes "is_cstr s"
  shows "preprocess_string (s @ NUL # rest) =
    Inr (url_decode s @ NUL # drop (length (url_decode s) + 1) (s @ NUL # rest))"
  using preprocess_loop_decode [of s 0 0 "s @ NUL # rest" rest] assms
  by (simp add: preprocess_string_def)

text \<open>The text a caller finds in the array afterwards; an escaped NUL ends it.\<close>

lemma cstr_append_NUL_prefix: "cstr (s @ NUL # r) = cstr s"
  by (induction s) (auto simp: cstr_def)

lemma preprocess_string_text:
  assumes "is_cstr s"
  obtains a where "preprocess_string (s @ NUL # rest) = Inr a" and "cstr a = cstr (url_decode s)"
    and "length a = length s + length rest + 1"
  using preprocess_string_decode [OF assms, of rest] length_url_decode [of s]
  by (auto simp: cstr_append_NUL_prefix)

section \<open>Encodings\<close>

definition hex_value :: "char \<Rightarrow> nat option" where
  "hex_value c = (let n = (of_char c :: nat) in
     if 48 \<le> n \<and> n \<le> 57 then Some (n - 48)
     else if 65 \<le> n \<and> n \<le> 70 then Some (n - 55)
     else if 97 \<le> n \<and> n \<le> 102 then Some (n - 87) else None)"

text \<open>\<open>encodes t e\<close>: \<open>e\<close> is one of the ways to write the text \<open>t\<close> in a form submission.\<close>

inductive encodes :: "string \<Rightarrow> string \<Rightarrow> bool" where
  none: "encodes [] []"
| plain: "encodes t e \<Longrightarrow> c \<noteq> percent \<Longrightarrow> c \<noteq> plus \<Longrightarrow> encodes (c # t) (c # e)"
| space: "encodes t e \<Longrightarrow> encodes (blank # t) (plus # e)"
| quoted: "encodes t e \<Longrightarrow> hex_value x = Some m \<Longrightarrow> hex_value y = Some n \<Longrightarrow>
     encodes (char_of (16 * m + n) # t) (percent # x # y # e)"

code_pred encodes .

inductive_simps encodes_Nil [simp]: "encodes [] e"
inductive_cases encodes_ConsE: "encodes (c # t) e"

lemma hex_value_nibble:
  assumes "hex_value c = Some n"
  shows "hex_nibble c = word_of_nat n" and "n < 16" and "c \<noteq> NUL"
proof -
  show "n < 16" using assms by (auto simp: hex_value_def Let_def split: if_splits)
  show "c \<noteq> NUL" using assms by (auto simp: hex_value_def Let_def)
  have eq: "word_of_nat m - (48 :: byte) = word_of_nat (m - 48)" if "48 \<le> m" for m
    using that by (simp add: of_nat_diff)
  have eq2: "word_of_nat m - (65 :: byte) + 10 = word_of_nat (m - 55)" if "65 \<le> m" for m
  proof -
    have "word_of_nat (m - 55) = (word_of_nat m :: byte) - 55" using that by (simp add: of_nat_diff)
    then show ?thesis by simp
  qed
  have b: "byte_of_char d = word_of_nat (of_char d)" for d
    by (simp add: byte_of_char_def of_nat_of_char)
  have eq3: "m - (32 :: nat) - 55 = m - 87" for m by simp
  show "hex_nibble c = word_of_nat n"
    using assms unfolding hex_value_def Let_def hex_nibble_def b of_char_c_toupper
    by (auto split: if_splits simp: eq eq2 eq3)
qed

lemma quoted_hex_value:
  assumes "hex_value x = Some m" and "hex_value y = Some n"
  shows "quoted_hex x y = char_of (16 * m + n)"
proof -
  have "m < 16" "n < 16" using assms hex_value_nibble(2) by auto
  then have "unat (push_bit 4 (word_of_nat m) + word_of_nat n :: byte) = 16 * m + n"
    by (simp add: push_bit_eq_mult unat_word_ariths unat_of_nat)
  then show ?thesis
    using hex_value_nibble(1) [OF assms(1)] hex_value_nibble(1) [OF assms(2)]
    by (simp add: quoted_hex_def char_of_byte_def)
qed

lemma encodes_decode: "encodes t e \<Longrightarrow> url_decode e = t"
  by (induction rule: encodes.induct) (auto simp: url_decode_Cons quoted_hex_value)

lemma encodes_is_cstr: "encodes t e \<Longrightarrow> is_cstr t \<Longrightarrow> is_cstr e"
  by (induction rule: encodes.induct) (auto simp: hex_value_nibble(3))

lemma encodable: "\<exists>e. encodes t e"
proof (induction t)
  case (Cons c t)
  then obtain e where e: "encodes t e" by blast
  have "char_of (37 :: nat) = percent" "char_of (43 :: nat) = plus" by code_simp+
  note chars = this
  show ?case
  proof (cases "c = percent \<or> c = plus")
    case True
    have "encodes (percent # t) (percent # CHR ''2'' # CHR ''5'' # e)"
      using encodes.quoted [OF e, of "CHR ''2''" 2 "CHR ''5''" 5] chars by (simp add: hex_value_def)
    moreover have "encodes (plus # t) (percent # CHR ''2'' # CHR ''B'' # e)"
      using encodes.quoted [OF e, of "CHR ''2''" 2 "CHR ''B''" 11] chars by (simp add: hex_value_def)
    ultimately show ?thesis using True by blast
  qed (use e in \<open>blast intro: encodes.plain\<close>)
qed (blast intro: encodes.none)

text \<open>C32: whichever way a browser encodes a text, decoding the array that holds it never reads or
  writes outside the array and leaves exactly the text.\<close>

theorem url_decoding_inverts_encoding:
  assumes "encodes t e" and "is_cstr t"
  shows "\<exists>a. preprocess_string (e @ NUL # rest) = Inr a \<and> length a = length e + length rest + 1 \<and> cstr a = t"
proof -
  from encodes_is_cstr [OF assms] obtain a where "preprocess_string (e @ NUL # rest) = Inr a"
    "cstr a = cstr (url_decode e)" "length a = length e + length rest + 1"
    by (rule preprocess_string_text)
  then show ?thesis using assms by (auto simp: encodes_decode cstr_is_cstr)
qed

theorem url_decoding_inverts_encoding_witness:
  "encodes ''a b'' ''%61+b'' \<and> preprocess_string (''%61+b'' @ [NUL]) = Inr (''a b'' @ NUL # ''b'' @ [NUL]) \<and>
   (\<exists>a. preprocess_string (''%61+b'' @ NUL # []) = Inr a \<and> length a = 6 \<and> cstr a = ''a b'')"
proof -
  have "char_of (97 :: nat) = CHR ''a''" by code_simp
  then have "encodes ''a b'' ''%61+b''"
    using encodes.quoted [OF encodes.space [OF encodes.plain [OF encodes.none, of "CHR ''b''"]], of "CHR ''6''" 6 "CHR ''1''" 1]
    by (simp add: hex_value_def)
  moreover have "preprocess_string (''%61+b'' @ [NUL]) = Inr (''a b'' @ NUL # ''b'' @ [NUL])" by code_simp
  ultimately show ?thesis
    using url_decoding_inverts_encoding [of "''a b''" "''%61+b''" "[]"] by simp
qed

end
