(* ===== verification/Argtable.thy ===== *)
theory Argtable
  imports Format
begin

text \<open>
  Argument tables of console commands.

  The parser, \<open>argtable3\<close>, is a library: a parameter of type \<open>arg_parse\<close>, a function from the
  table of a command and its argument vector to the values of each entry, or \<open>None\<close> when it
  reports errors. What its documentation promises, as far as the commands rely on it, is the
  locale \<open>arg_parser\<close>: positional arguments fill the entries without a tag in order, and an
  option, a dash and one of the letters of its tag, takes the argument behind it.
  \<open>simple_parse\<close> is a parser that keeps the promise.
\<close>

section \<open>Tables and values\<close>

datatype arg_kind = Arg_str | Arg_int

record arg_entry =
  ar_kind :: arg_kind
  ar_min :: nat
  ar_max :: nat
  ar_short :: "string option"
  ar_long :: "string option"
  ar_glossary :: string
  ar_help :: string

definition arg_str1 :: "string option \<Rightarrow> string option \<Rightarrow> string \<Rightarrow> string \<Rightarrow> arg_entry" where
  "arg_str1 s l g h = \<lparr>ar_kind = Arg_str, ar_min = 1, ar_max = 1, ar_short = s, ar_long = l, ar_glossary = g, ar_help = h\<rparr>"

definition arg_str0 :: "string option \<Rightarrow> string option \<Rightarrow> string \<Rightarrow> string \<Rightarrow> arg_entry" where
  "arg_str0 s l g h = \<lparr>ar_kind = Arg_str, ar_min = 0, ar_max = 1, ar_short = s, ar_long = l, ar_glossary = g, ar_help = h\<rparr>"

definition arg_int1 :: "string option \<Rightarrow> string option \<Rightarrow> string \<Rightarrow> string \<Rightarrow> arg_entry" where
  "arg_int1 s l g h = \<lparr>ar_kind = Arg_int, ar_min = 1, ar_max = 1, ar_short = s, ar_long = l, ar_glossary = g, ar_help = h\<rparr>"

definition arg_int0 :: "string option \<Rightarrow> string option \<Rightarrow> string \<Rightarrow> string \<Rightarrow> arg_entry" where
  "arg_int0 s l g h = \<lparr>ar_kind = Arg_int, ar_min = 0, ar_max = 1, ar_short = s, ar_long = l, ar_glossary = g, ar_help = h\<rparr>"

definition arg_intn :: "string option \<Rightarrow> string option \<Rightarrow> string \<Rightarrow> nat \<Rightarrow> nat \<Rightarrow> string \<Rightarrow> arg_entry" where
  "arg_intn s l g mn mx h = \<lparr>ar_kind = Arg_int, ar_min = mn, ar_max = mx, ar_short = s, ar_long = l,
     ar_glossary = g, ar_help = h\<rparr>"

datatype arg_value = AStr string | AInt int

type_synonym arg_parse = "arg_entry list \<Rightarrow> string list \<Rightarrow> arg_value list list option"

text \<open>\<open>e->sval[0]\<close>, \<open>e->ival[0]\<close> and \<open>e->count\<close> of the values found for an entry.\<close>

definition sval :: "arg_value list \<Rightarrow> string" where
  "sval vs = (case vs of AStr s # _ \<Rightarrow> s | _ \<Rightarrow> [])"

definition ival :: "arg_value list \<Rightarrow> int" where
  "ival vs = (case vs of AInt i # _ \<Rightarrow> i | _ \<Rightarrow> 0)"

section \<open>The documented behaviour\<close>

text \<open>A text that is one positional argument, and the value it has for an entry.\<close>

fun positional_value :: "arg_entry \<Rightarrow> string \<Rightarrow> arg_value \<Rightarrow> bool" where
  "positional_value e a (AStr s) \<longleftrightarrow> ar_kind e = Arg_str \<and> a = s \<and> take 1 a \<noteq> ''-''"
| "positional_value e a (AInt i) \<longleftrightarrow> ar_kind e = Arg_int \<and> 0 \<le> i \<and> a = dec_of_nat (nat i)"

definition option_words :: "(char \<times> string) list \<Rightarrow> string list" where
  "option_words opts = concat (map (\<lambda>(c, x). [[CHR ''-'', c], x]) opts)"

definition option_values :: "(char \<times> string) list \<Rightarrow> arg_entry \<Rightarrow> arg_value list" where
  "option_values opts e = map (\<lambda>(c, x). AStr x) (filter (\<lambda>(c, x). c \<in> set (the (ar_short e))) opts)"

text \<open>Each option has a letter of an entry, and each entry is given as often as it allows.\<close>

definition options_ok :: "arg_entry list \<Rightarrow> (char \<times> string) list \<Rightarrow> bool" where
  "options_ok os opts \<longleftrightarrow>
     list_all (\<lambda>e. ar_short e \<noteq> None \<and> ar_kind e = Arg_str \<and> ar_min e \<le> length (option_values opts e) \<and> length (option_values opts e) \<le> ar_max e) os \<and>
     list_all (\<lambda>(c, x). c \<noteq> CHR ''-'' \<and> list_ex (\<lambda>e. c \<in> set (the (ar_short e))) os) opts"

locale arg_parser =
  fixes parse :: arg_parse
  assumes parses: "list_all (\<lambda>e. ar_short e = None) ps \<Longrightarrow> length args = length ps \<Longrightarrow> length vs = length ps \<Longrightarrow>
     (\<forall>i < length ps. positional_value (ps ! i) (args ! i) (vs ! i)) \<Longrightarrow> options_ok os opts \<Longrightarrow>
     parse (ps @ os) (cmd # args @ option_words opts) = Some (map (\<lambda>v. [v]) vs @ map (option_values opts) os)"
    and too_few: "list_all (\<lambda>e. ar_short e = None \<and> ar_min e = 1) tab \<Longrightarrow> length args < length tab \<Longrightarrow>
     parse tab (cmd # args) = None"
begin

lemma parses_positional:
  assumes "list_all (\<lambda>e. ar_short e = None) ps" and "length args = length ps" and "length vs = length ps"
    and "\<forall>i < length ps. positional_value (ps ! i) (args ! i) (vs ! i)"
  shows "parse ps (cmd # args) = Some (map (\<lambda>v. [v]) vs)"
  using parses [OF assms, of "[]" "[]"] by (simp add: options_ok_def option_words_def)

end

section \<open>A parser that keeps the promise\<close>

fun split_args :: "string list \<Rightarrow> (string list \<times> (char \<times> string) list) option" where
  "split_args [] = Some ([], [])"
| "split_args (a # as) =
     (if take 1 a \<noteq> ''-'' then map_option (\<lambda>(ps, os). (a # ps, os)) (split_args as)
      else (case a of
        [_, c] \<Rightarrow> (case as of
            [] \<Rightarrow> None
          | x # as' \<Rightarrow> map_option (\<lambda>(ps, os). (ps, (c, x) # os)) (split_args as'))
      | _ \<Rightarrow> None))"

definition digit_value :: "char \<Rightarrow> nat option" where
  "digit_value c = (let n = (of_char c :: nat) in if 48 \<le> n \<and> n \<le> 57 then Some (n - 48) else None)"

fun read_dec :: "nat \<Rightarrow> string \<Rightarrow> nat option" where
  "read_dec n [] = Some n"
| "read_dec n (c # s) = (case digit_value c of None \<Rightarrow> None | Some d \<Rightarrow> read_dec (10 * n + d) s)"

definition read_value :: "arg_kind \<Rightarrow> string \<Rightarrow> arg_value option" where
  "read_value k a = (case k of
       Arg_str \<Rightarrow> Some (AStr a)
     | Arg_int \<Rightarrow> if a = [] then None else map_option (\<lambda>n. AInt (int n)) (read_dec 0 a))"

fun fill_table :: "(char \<times> string) list \<Rightarrow> arg_entry list \<Rightarrow> string list \<Rightarrow> arg_value list list option" where
  "fill_table opts [] as = (if as = [] then Some [] else None)"
| "fill_table opts (e # es) as =
     (if ar_short e \<noteq> None then map_option (\<lambda>r. option_values opts e # r) (fill_table opts es as)
      else (case as of
          [] \<Rightarrow> if ar_min e = 0 then map_option (\<lambda>r. [] # r) (fill_table opts es []) else None
        | a # as' \<Rightarrow> (case read_value (ar_kind e) a of
              None \<Rightarrow> None
            | Some v \<Rightarrow> map_option (\<lambda>r. [v] # r) (fill_table opts es as'))))"

definition simple_parse :: arg_parse where
  "simple_parse tab argv = (case split_args (tl argv) of
       None \<Rightarrow> None
     | Some (as, opts) \<Rightarrow>
         if options_ok (filter (\<lambda>e. ar_short e \<noteq> None) tab) opts then fill_table opts tab as else None)"

lemma digit_value_dec_digit: "d < 10 \<Longrightarrow> digit_value (dec_digit d) = Some d"
  by (simp add: digit_value_def dec_digit_def)

lemma read_dec_append: "read_dec n (s @ t) = (case read_dec n s of None \<Rightarrow> None | Some m \<Rightarrow> read_dec m t)"
  by (induction s arbitrary: n) (auto split: option.split)

lemma read_dec_of_nat: "read_dec 0 (dec_of_nat n) = Some n"
proof (induction n rule: dec_of_nat.induct)
  case (1 n)
  show ?case
  proof (cases "n < 10")
    case True
    then show ?thesis by (subst dec_of_nat.simps) (simp add: digit_value_dec_digit)
  next
    case False
    then show ?thesis using 1
      by (subst dec_of_nat.simps) (simp add: read_dec_append digit_value_dec_digit)
  qed
qed

lemma dec_of_nat_start: "dec_of_nat n \<noteq> [] \<and> take 1 (dec_of_nat n) \<noteq> ''-''"
proof (induction n rule: dec_of_nat.induct)
  case (1 n)
  have "dec_digit n \<noteq> CHR ''-''" if "n < 10"
    using that unfolding dec_digit_def char_eq_iff_nat by simp
  moreover have "\<exists>x xs. dec_of_nat (n div 10) = x # xs \<and> x \<noteq> CHR ''-''" if "\<not> n < 10"
    using 1 [OF that] by (cases "dec_of_nat (n div 10)") auto
  ultimately show ?case by (subst (1 2) dec_of_nat.simps) auto
qed

lemma positional_value_read:
  "positional_value e a v \<Longrightarrow> read_value (ar_kind e) a = Some v \<and> take 1 a \<noteq> ''-''"
  using dec_of_nat_start by (cases v) (auto simp: read_value_def read_dec_of_nat)

lemma split_args_options:
  "list_all (\<lambda>(c, x). c \<noteq> CHR ''-'') opts \<Longrightarrow> split_args (option_words opts) = Some ([], opts)"
  by (induction opts) (auto simp: option_words_def)

lemma split_args_append:
  "(\<And>a. a \<in> set as \<Longrightarrow> take 1 a \<noteq> ''-'') \<Longrightarrow> split_args bs = Some ([], opts) \<Longrightarrow> split_args (as @ bs) = Some (as, opts)"
  by (induction as) auto

lemma fill_table_options:
  "list_all (\<lambda>e. ar_short e \<noteq> None) os \<Longrightarrow> fill_table opts os [] = Some (map (option_values opts) os)"
  by (induction os) auto

lemma fill_table_positional:
  assumes "list_all (\<lambda>e. ar_short e = None) ps" and "length args = length ps" and "length vs = length ps"
    and "\<forall>i < length ps. positional_value (ps ! i) (args ! i) (vs ! i)"
    and "fill_table opts os [] = Some r"
  shows "fill_table opts (ps @ os) args = Some (map (\<lambda>v. [v]) vs @ r)"
  using assms
proof (induction ps arbitrary: args vs)
  case (Cons e ps)
  then obtain a args' v vs' where eq: "args = a # args'" "vs = v # vs'"
    by (cases args; cases vs) auto
  have "positional_value e a v" using Cons.prems(4) eq by fastforce
  moreover have "\<forall>i < length ps. positional_value (ps ! i) (args' ! i) (vs' ! i)"
    using Cons.prems(4) eq by fastforce
  ultimately show ?case using Cons eq positional_value_read by fastforce
qed auto

lemma fill_table_too_few:
  "list_all (\<lambda>e. ar_short e = None \<and> ar_min e = 1) tab \<Longrightarrow> length as < length tab \<Longrightarrow> fill_table opts tab as = None"
proof (induction tab arbitrary: as)
  case (Cons e tab)
  then show ?case by (cases as) (auto split: option.split)
qed simp

lemma split_args_length: "split_args args = Some (as, opts) \<Longrightarrow> length as \<le> length args"
proof (induction args arbitrary: as opts rule: split_args.induct)
  case (2 a args)
  show ?case
  proof (cases "take 1 a = ''-''")
    case False
    then show ?thesis using 2 by fastforce
  next
    case True
    with 2(3) obtain d c x args' ps os where "a = [d, c]" "args = x # args'"
        "split_args args' = Some (ps, os)" "as = ps"
      by (auto split: list.splits)
    then show ?thesis using 2(2) [of d "[c]" c "[]" x args' ps os] True by simp
  qed
qed simp

interpretation simple: arg_parser simple_parse
proof
  fix ps os :: "arg_entry list" and args vs opts cmd
  assume ps: "list_all (\<lambda>e. ar_short e = None) ps" and len: "length args = length ps" "length vs = length ps"
    and vals: "\<forall>i < length ps. positional_value (ps ! i) (args ! i) (vs ! i)" and opts: "options_ok os opts"
  have "list_all (\<lambda>(c, x). c \<noteq> CHR ''-'') opts"
    using opts by (auto simp: options_ok_def list_all_iff)
  moreover have "take 1 a \<noteq> ''-''" if "a \<in> set args" for a
    using that vals len positional_value_read by (metis in_set_conv_nth)
  ultimately have "split_args (args @ option_words opts) = Some (args, opts)"
    by (intro split_args_append split_args_options)
  moreover have "filter (\<lambda>e. ar_short e \<noteq> None) (ps @ os) = os"
    using ps opts by (auto simp: options_ok_def list_all_iff filter_empty_conv)
  moreover have "list_all (\<lambda>e. ar_short e \<noteq> None) os"
    using opts by (auto simp: options_ok_def list_all_iff)
  ultimately show "simple_parse (ps @ os) (cmd # args @ option_words opts) =
      Some (map (\<lambda>v. [v]) vs @ map (option_values opts) os)"
    using fill_table_positional [OF ps len vals fill_table_options] opts by (simp add: simple_parse_def)
next
  fix tab :: "arg_entry list" and args :: "string list" and cmd
  assume "list_all (\<lambda>e. ar_short e = None \<and> ar_min e = 1) tab" "length args < length tab"
  then show "simple_parse tab (cmd # args) = None"
    using fill_table_too_few [of tab] split_args_length [of args]
    by (auto simp: simple_parse_def split: option.split)
qed

end
