(* ===== verification/Cmd_Router.thy ===== *)
theory Cmd_Router
  imports Url_Decode Argtable Portmap
begin

text \<open>
  The console commands that configure the router and the readers of their settings
  (\<open>components/cmd_router/cmd_router.c\<close>).

  The argument parser is a parameter (theory \<open>Argtable\<close>); the argument tables are those the
  \<open>register_\<close> functions build. Allocation never fails here. What is written to the console log
  is left out, except that printing a setting that was never read is undefined behaviour.
\<close>

section \<open>Argument tables\<close>

definition set_sta_args :: "arg_entry list" where
  "set_sta_args =
    [arg_str1 None None ''<ssid>'' ''SSID'',
     arg_str1 None None ''<passwd>'' ''Password'',
     arg_str0 (Some ''-u'') (Some ''--username'') ''<ent_username>'' ''Enterprise username'',
     arg_str0 (Some ''-a'') (Some ''--anan'') ''<ent_identity>'' ''Enterprise identity'']"

definition set_sta_static_args :: "arg_entry list" where
  "set_sta_static_args =
    [arg_str1 None None ''<ip>'' ''IP'',
     arg_str1 None None ''<subnet>'' ''Subnet Mask'',
     arg_str1 None None ''<gw>'' ''Gateway Address'']"

definition set_mac_args :: "arg_entry list" where
  "set_mac_args =
    [arg_int1 None None ''<octet>'' ''First octet'',
     arg_int1 None None ''<octet>'' ''Second octet'',
     arg_int1 None None ''<octet>'' ''Third octet'',
     arg_int1 None None ''<octet>'' ''Fourth octet'',
     arg_int1 None None ''<octet>'' ''Fifth octet'',
     arg_int1 None None ''<octet>'' ''Sixth octet'']"

definition set_ap_args :: "arg_entry list" where
  "set_ap_args =
    [arg_str1 None None ''<ssid>'' ''SSID of AP'',
     arg_str1 None None ''<passwd>'' ''Password of AP'']"

definition set_ap_ip_args :: "arg_entry list" where
  "set_ap_ip_args = [arg_str1 None None ''<ip>'' ''IP'']"

definition portmap_args :: "arg_entry list" where
  "portmap_args =
    [arg_str1 None None ''[add|del]'' ''add or delete portmapping'',
     arg_str1 None None ''[TCP|UDP]'' ''TCP or UDP port'',
     arg_int1 None None ''<ext_portno>'' ''external port number'',
     arg_str1 None None ''<int_ip>'' ''internal IP'',
     arg_int1 None None ''<int_portno>'' ''internal port number'']"

section \<open>Reading settings\<close>

text \<open>
  The three readers. The result is the return value and what is stored through the pointer,
  \<open>None\<close> when that is left alone. The handle is closed only at the end of the good path.
\<close>

definition get_config_param_str ::
    "'f nvs_api \<Rightarrow> string \<Rightarrow> 'f plat \<Rightarrow> (esp_err \<times> string option \<times> 'f plat) cres" where
  "get_config_param_str api name p =
     (case nvs_open api PARAM_NAMESPACE NVS_READONLY (pflash p) of (err, nvs, f1) \<Rightarrow>
        if err = ESP_OK then
          (case nvs_len api nvs name NVS_TYPE_STR f1 of
             Inr len \<Rightarrow>
               (case nvs_get api nvs name NVS_TYPE_STR len f1 of
                  Inr (NvStr s) \<Rightarrow> Inr (ESP_OK, Some s, p\<lparr>pflash := nvs_close api nvs f1\<rparr>)
                | _ \<Rightarrow> Inl Uninit_read)
           | Inl e \<Rightarrow> Inr (e, None, p\<lparr>pflash := f1\<rparr>))
        else Inr (err, None, p\<lparr>pflash := f1\<rparr>))"

definition get_config_param_int ::
    "'f nvs_api \<Rightarrow> string \<Rightarrow> 'f plat \<Rightarrow> esp_err \<times> u32 option \<times> 'f plat" where
  "get_config_param_int api name p =
     (case nvs_open api PARAM_NAMESPACE NVS_READONLY (pflash p) of (err, nvs, f1) \<Rightarrow>
        if err = ESP_OK then
          (case nvs_get api nvs name NVS_TYPE_I32 0 f1 of
             Inr (NvI32 i) \<Rightarrow> (ESP_OK, Some i, p\<lparr>pflash := nvs_close api nvs f1\<rparr>)
           | Inr _ \<Rightarrow> (ESP_OK, None, p\<lparr>pflash := nvs_close api nvs f1\<rparr>)
           | Inl e \<Rightarrow> (e, None, p\<lparr>pflash := f1\<rparr>))
        else (err, None, p\<lparr>pflash := f1\<rparr>))"

definition get_config_param_blob ::
    "'f nvs_api \<Rightarrow> string \<Rightarrow> nat \<Rightarrow> 'f plat \<Rightarrow> (esp_err \<times> byte list option \<times> 'f plat) cres" where
  "get_config_param_blob api name blob_len p =
     (case nvs_open api PARAM_NAMESPACE NVS_READONLY (pflash p) of (err, nvs, f1) \<Rightarrow>
        if err = ESP_OK then
          (case nvs_len api nvs name NVS_TYPE_BLOB f1 of
             Inr len \<Rightarrow>
               if len \<noteq> blob_len then Inr (ESP_ERR_NVS_INVALID_LENGTH, None, p\<lparr>pflash := f1\<rparr>)
               else (case nvs_get api nvs name NVS_TYPE_BLOB len f1 of
                  Inr (NvBlob b) \<Rightarrow> Inr (ESP_OK, Some b, p\<lparr>pflash := nvs_close api nvs f1\<rparr>)
                | _ \<Rightarrow> Inl Uninit_read)
           | Inl e \<Rightarrow> Inr (e, None, p\<lparr>pflash := f1\<rparr>))
        else Inr (err, None, p\<lparr>pflash := f1\<rparr>))"

section \<open>Writing settings\<close>

text \<open>The nested writes of a command: each one only when the ones before it succeeded.\<close>

fun set_strs :: "'f nvs_api \<Rightarrow> nvs_handle \<Rightarrow> (string \<times> string) list \<Rightarrow> 'f \<Rightarrow> esp_err \<times> 'f" where
  "set_strs api nvs [] f = (ESP_OK, f)"
| "set_strs api nvs ((key, val) # kvs) f =
     (case nvs_set api nvs key (NvStr val) f of (err, f1) \<Rightarrow>
        if err = ESP_OK then set_strs api nvs kvs f1 else (err, f1))"

definition store_settings :: "'f nvs_api \<Rightarrow> bool \<Rightarrow> (string \<times> string) list \<Rightarrow> 'f plat \<Rightarrow> esp_err \<times> 'f plat" where
  "store_settings api commit kvs p =
     (case nvs_open api PARAM_NAMESPACE NVS_READWRITE (pflash p) of (err, nvs, f1) \<Rightarrow>
        if err \<noteq> ESP_OK then (err, p\<lparr>pflash := f1\<rparr>)
        else (case set_strs api nvs kvs f1 of (err1, f2) \<Rightarrow>
          (case (if err1 = ESP_OK \<and> commit then nvs_commit api nvs f2 else (err1, f2)) of (err2, f3) \<Rightarrow>
             (err2, p\<lparr>pflash := nvs_close api nvs f3\<rparr>))))"

definition preprocess_arg :: "string \<Rightarrow> string cres" where
  "preprocess_arg s = bindE (preprocess_string (s @ [NUL])) (\<lambda>a. Inr (cstr a))"

definition set_sta :: "'f nvs_api \<Rightarrow> arg_parse \<Rightarrow> string list \<Rightarrow> 'f plat \<Rightarrow> (esp_err \<times> 'f plat) cres" where
  "set_sta api parse argv p = (case parse set_sta_args argv of
       Some [ssid, password, ent_username, ent_identity] \<Rightarrow>
         bindE (preprocess_arg (sval ssid)) (\<lambda>s. bindE (preprocess_arg (sval password)) (\<lambda>pw.
         Inr (store_settings api True
           [(''ssid'', s), (''passwd'', pw),
            (''ent_username'', if length ent_username > 0 then sval ent_username else []),
            (''ent_identity'', if length ent_identity > 0 then sval ent_identity else [])] p)))
     | _ \<Rightarrow> Inr (ESP_ERR_CODE 1, p))"

definition set_sta_static :: "'f nvs_api \<Rightarrow> arg_parse \<Rightarrow> string list \<Rightarrow> 'f plat \<Rightarrow> (esp_err \<times> 'f plat) cres" where
  "set_sta_static api parse argv p = (case parse set_sta_static_args argv of
       Some [static_ip, subnet_mask, gateway_addr] \<Rightarrow>
         bindE (preprocess_arg (sval static_ip)) (\<lambda>i. bindE (preprocess_arg (sval subnet_mask)) (\<lambda>m.
         bindE (preprocess_arg (sval gateway_addr)) (\<lambda>g.
         Inr (store_settings api True [(''static_ip'', i), (''subnet_mask'', m), (''gateway_addr'', g)] p))))
     | _ \<Rightarrow> Inr (ESP_ERR_CODE 1, p))"

definition set_mac :: "'f nvs_api \<Rightarrow> arg_parse \<Rightarrow> string \<Rightarrow> string list \<Rightarrow> 'f plat \<Rightarrow> esp_err \<times> 'f plat" where
  "set_mac api parse key argv p = (case parse set_mac_args argv of
       Some [m0, m1, m2, m3, m4, m5] \<Rightarrow>
         (case nvs_open api PARAM_NAMESPACE NVS_READWRITE (pflash p) of (err, nvs, f1) \<Rightarrow>
            if err \<noteq> ESP_OK then (err, p\<lparr>pflash := f1\<rparr>)
            else
              let mac = map (\<lambda>m. word_of_int (ival m)) [m0, m1, m2, m3, m4, m5]
              in (case nvs_set api nvs key (NvBlob mac) f1 of (err1, f2) \<Rightarrow>
                   (case (if err1 = ESP_OK then nvs_commit api nvs f2 else (err1, f2)) of (err2, f3) \<Rightarrow>
                      (err2, p\<lparr>pflash := nvs_close api nvs f3\<rparr>))))
     | _ \<Rightarrow> (ESP_ERR_CODE 1, p))"

definition set_sta_mac :: "'f nvs_api \<Rightarrow> arg_parse \<Rightarrow> string list \<Rightarrow> 'f plat \<Rightarrow> esp_err \<times> 'f plat" where
  "set_sta_mac api parse argv p = set_mac api parse ''mac'' argv p"

definition set_ap_mac :: "'f nvs_api \<Rightarrow> arg_parse \<Rightarrow> string list \<Rightarrow> 'f plat \<Rightarrow> esp_err \<times> 'f plat" where
  "set_ap_mac api parse argv p = set_mac api parse ''ap_mac'' argv p"

definition set_ap :: "'f nvs_api \<Rightarrow> arg_parse \<Rightarrow> string list \<Rightarrow> 'f plat \<Rightarrow> (esp_err \<times> 'f plat) cres" where
  "set_ap api parse argv p = (case parse set_ap_args argv of
       Some [ssid, password] \<Rightarrow>
         bindE (preprocess_arg (sval ssid)) (\<lambda>s. bindE (preprocess_arg (sval password)) (\<lambda>pw.
         Inr (store_settings api True [(''ap_ssid'', s), (''ap_passwd'', pw)] p)))
     | _ \<Rightarrow> Inr (ESP_ERR_CODE 1, p))"

text \<open>\<open>set_ap_ip\<close> has no commit.\<close>

definition set_ap_ip :: "'f nvs_api \<Rightarrow> arg_parse \<Rightarrow> string list \<Rightarrow> 'f plat \<Rightarrow> (esp_err \<times> 'f plat) cres" where
  "set_ap_ip api parse argv p = (case parse set_ap_ip_args argv of
       Some [ap_ip_str] \<Rightarrow>
         bindE (preprocess_arg (sval ap_ip_str)) (\<lambda>i. Inr (store_settings api False [(''ap_ip'', i)] p))
     | _ \<Rightarrow> Inr (ESP_ERR_CODE 1, p))"

section \<open>Port mappings and status\<close>

text \<open>\<open>aton\<close> is \<open>esp_ip4addr_aton\<close>. The results of the table operations are ignored.\<close>

definition portmap ::
    "'f nvs_api \<Rightarrow> (string \<Rightarrow> u32) \<Rightarrow> arg_parse \<Rightarrow> string list \<Rightarrow> net \<Rightarrow> 'f plat \<Rightarrow> (esp_err \<times> net \<times> 'f plat) cres" where
  "portmap api aton parse argv n p = (case parse portmap_args argv of
       Some [add_del, tcp_udp_arg, ext_arg, int_ip_arg, int_arg] \<Rightarrow>
         let add = (if sval add_del = ''add'' then Some True
                    else if sval add_del = ''del'' then Some False else None);
             tcp_udp = (if sval tcp_udp_arg = ''TCP'' then Some PROTO_TCP
                        else if sval tcp_udp_arg = ''UDP'' then Some PROTO_UDP else None)
         in (case add of None \<Rightarrow> Inr (ESP_ERR_CODE 1, n, p)
             | Some a \<Rightarrow> (case tcp_udp of None \<Rightarrow> Inr (ESP_ERR_CODE 1, n, p)
                | Some proto \<Rightarrow>
                    let ext_port = word_of_int (ival ext_arg);
                        int_ip = aton (sval int_ip_arg);
                        int_port = word_of_int (ival int_arg)
                    in bindE (if a then add_portmap api proto ext_port int_ip int_port n p
                              else del_portmap api proto ext_port n p)
                         (\<lambda>(_, n1, p1). Inr (ESP_OK, n1, p1))))
     | _ \<Rightarrow> Inr (ESP_ERR_CODE 1, n, p))"

text \<open>The readings of \<open>show\<close>, in order, and its output.\<close>

definition show_keys :: "string list" where
  "show_keys = [''ssid'', ''ent_username'', ''ent_identity'', ''passwd'', ''static_ip'', ''subnet_mask'',
     ''gateway_addr'', ''ap_ssid'', ''ap_passwd'']"

fun read_params :: "'f nvs_api \<Rightarrow> string list \<Rightarrow> 'f plat \<Rightarrow> (string option list \<times> 'f plat) cres" where
  "read_params api [] p = Inr ([], p)"
| "read_params api (k # ks) p = bindE (get_config_param_str api k p) (\<lambda>(_, v, p1).
     bindE (read_params api ks p1) (\<lambda>(vs, p2). Inr (v # vs, p2)))"

definition or_undef :: "string option \<Rightarrow> string" where
  "or_undef v = (case v of Some s \<Rightarrow> s | None \<Rightarrow> ''<undef>'')"

definition nonempty :: "string option \<Rightarrow> bool" where
  "nonempty v = (case v of Some s \<Rightarrow> length s > 0 | None \<Rightarrow> False)"

definition show_text :: "string option list \<Rightarrow> net \<Rightarrow> u32 \<Rightarrow> u16 \<Rightarrow> string" where
  "show_text vs n my_ap_ip connect_count = (case vs of
     [ssid, ent_username, ent_identity, passwd, static_ip, subnet_mask, gateway_addr, ap_ssid, ap_passwd] \<Rightarrow>
       ''STA SSID: '' @ or_undef ssid @ '' Password: '' @ or_undef passwd @ '' Enterprise: '' @
       (if nonempty ent_username then or_undef ent_username else ''<not active>'') @ '' '' @
       (if nonempty ent_username \<and> nonempty ent_identity then or_undef ent_identity else []) @ [newline] @
       ''AP SSID: '' @ or_undef ap_ssid @ '' Password: '' @ or_undef ap_passwd @ [newline] @
       ''AP IP address: '' @ ip_string my_ap_ip @ [newline] @
       ''Uplink AP '' @ (if ap_connect n then [] else ''not '') @ ''connected'' @ [newline] @
       (if ap_connect n then ''IP: '' @ ip_string (my_ip n) @ [newline] else []) @
       dec_of_nat (unat connect_count) @ '' Stations connected'' @ [newline] @
       print_portmap_tab n
     | _ \<Rightarrow> [])"

definition show_cmd :: "'f nvs_api \<Rightarrow> net \<Rightarrow> u32 \<Rightarrow> u16 \<Rightarrow> 'f plat \<Rightarrow> (string \<times> 'f plat) cres" where
  "show_cmd api n my_ap_ip connect_count p =
     bindE (read_params api show_keys p) (\<lambda>(vs, p1). Inr (show_text vs n my_ap_ip connect_count, p1))"

section \<open>The command table\<close>

datatype router_cmd = Set_sta | Set_sta_static | Set_sta_mac | Set_ap_mac | Set_ap | Set_ap_ip | Portmap_cmd | Show_cmd

record console_cmd =
  cc_command :: string
  cc_help :: string
  cc_func :: router_cmd
  cc_argtable :: "arg_entry list"

definition register_set_sta :: "console_cmd list" where
  "register_set_sta = [\<lparr>cc_command = ''set_sta'', cc_help = ''Set SSID and password of the STA interface'',
     cc_func = Set_sta, cc_argtable = set_sta_args\<rparr>]"

definition register_set_sta_static :: "console_cmd list" where
  "register_set_sta_static = [\<lparr>cc_command = ''set_sta_static'', cc_help = ''Set Static IP for the STA interface'',
     cc_func = Set_sta_static, cc_argtable = set_sta_static_args\<rparr>]"

definition register_set_mac :: "console_cmd list" where
  "register_set_mac =
    [\<lparr>cc_command = ''set_sta_mac'', cc_help = ''Set MAC address of the STA interface'',
      cc_func = Set_sta_mac, cc_argtable = set_mac_args\<rparr>,
     \<lparr>cc_command = ''set_ap_mac'', cc_help = ''Set MAC address of the AP interface'',
      cc_func = Set_ap_mac, cc_argtable = set_mac_args\<rparr>]"

definition register_set_ap :: "console_cmd list" where
  "register_set_ap = [\<lparr>cc_command = ''set_ap'', cc_help = ''Set SSID and password of the SoftAP'',
     cc_func = Set_ap, cc_argtable = set_ap_args\<rparr>]"

definition register_set_ap_ip :: "console_cmd list" where
  "register_set_ap_ip = [\<lparr>cc_command = ''set_ap_ip'', cc_help = ''Set IP for the AP interface'',
     cc_func = Set_ap_ip, cc_argtable = set_ap_ip_args\<rparr>]"

definition register_portmap :: "console_cmd list" where
  "register_portmap = [\<lparr>cc_command = ''portmap'', cc_help = ''Add or delete a portmapping to the router'',
     cc_func = Portmap_cmd, cc_argtable = portmap_args\<rparr>]"

definition register_show :: "console_cmd list" where
  "register_show = [\<lparr>cc_command = ''show'', cc_help = ''Get status and config of the router'',
     cc_func = Show_cmd, cc_argtable = []\<rparr>]"

definition register_router :: "console_cmd list" where
  "register_router = register_set_sta @ register_set_sta_static @ register_set_mac @ register_set_ap @
     register_set_ap_ip @ register_portmap @ register_show"

end
