(* ===== verification/Settings.thy ===== *)
theory Settings
  imports Cmd_Router Wifi
begin

text \<open>
  The settings of the router: how \<open>app_main\<close> of \<open>main/esp32_nat_router.c\<close> reads them at start-up,
  and what the configuration commands do to them.

  \<open>config_of\<close> is the specification: the parameters of \<open>wifi_init\<close> as a function of what the flash
  holds. Reading implements it on every flash; every command is an update of it.
\<close>

section \<open>Reading them at start-up\<close>

definition DEFAULT_AP_IP :: string where "DEFAULT_AP_IP = ''192.168.4.1''"

text \<open>\<open>get_config_param_str(name, &v); if (v == NULL) v = param_set_default(def);\<close>\<close>

definition param_or :: "'f nvs_api \<Rightarrow> string \<Rightarrow> string \<Rightarrow> 'f plat \<Rightarrow> (string \<times> 'f plat) cres" where
  "param_or api name def_val p = bindE (get_config_param_str api name p) (\<lambda>(_, v, p1).
     Inr (case v of Some s \<Rightarrow> s | None \<Rightarrow> def_val, p1))"

text \<open>The same for one of the two MAC addresses, whose pointer stays null.\<close>

definition mac_param :: "'f nvs_api \<Rightarrow> string \<Rightarrow> 'f plat \<Rightarrow> (byte list option \<times> 'f plat) cres" where
  "mac_param api name p = bindE (get_config_param_blob api name 6 p) (\<lambda>(_, v, p1). Inr (v, p1))"

definition load_config :: "'f nvs_api \<Rightarrow> 'f plat \<Rightarrow> (wifi_params \<times> 'f plat) cres" where
  "load_config api p0 =
     bindE (mac_param api ''mac'' p0) (\<lambda>(mac, p1).
     bindE (param_or api ''ssid'' [] p1) (\<lambda>(ssid, p2).
     bindE (param_or api ''ent_username'' [] p2) (\<lambda>(ent_username, p3).
     bindE (param_or api ''ent_identity'' [] p3) (\<lambda>(ent_identity, p4).
     bindE (param_or api ''passwd'' [] p4) (\<lambda>(passwd, p5).
     bindE (param_or api ''static_ip'' [] p5) (\<lambda>(static_ip, p6).
     bindE (param_or api ''subnet_mask'' [] p6) (\<lambda>(subnet_mask, p7).
     bindE (param_or api ''gateway_addr'' [] p7) (\<lambda>(gateway_addr, p8).
     bindE (mac_param api ''ap_mac'' p8) (\<lambda>(ap_mac, p9).
     bindE (param_or api ''ap_ssid'' ''ESP32_Firewall'' p9) (\<lambda>(ap_ssid, p10).
     bindE (param_or api ''ap_passwd'' [] p10) (\<lambda>(ap_passwd, p11).
     bindE (param_or api ''ap_ip'' DEFAULT_AP_IP p11) (\<lambda>(ap_ip, p12).
     Inr (\<lparr>wp_mac = mac, wp_ssid = ssid, wp_ent_username = ent_username, wp_ent_identity = ent_identity,
           wp_passwd = passwd, wp_static_ip = static_ip, wp_subnet_mask = subnet_mask,
           wp_gateway_addr = gateway_addr, wp_ap_mac = ap_mac, wp_ap_ssid = ap_ssid,
           wp_ap_passwd = ap_passwd, wp_ap_ip = ap_ip\<rparr>, p12)))))))))))))"

section \<open>What they are\<close>

type_synonym setting_view = "string \<Rightarrow> nvs_value option"

definition str_setting :: "setting_view \<Rightarrow> string \<Rightarrow> string option" where
  "str_setting v k = (case v k of Some (NvStr s) \<Rightarrow> Some s | _ \<Rightarrow> None)"

definition mac_setting :: "setting_view \<Rightarrow> string \<Rightarrow> byte list option" where
  "mac_setting v k = (case v k of Some (NvBlob b) \<Rightarrow> if length b = 6 then Some b else None | _ \<Rightarrow> None)"

definition str_or :: "setting_view \<Rightarrow> string \<Rightarrow> string \<Rightarrow> string" where
  "str_or v k d = (case str_setting v k of Some s \<Rightarrow> s | None \<Rightarrow> d)"

definition config_of :: "setting_view \<Rightarrow> wifi_params" where
  "config_of v = \<lparr>wp_mac = mac_setting v ''mac'', wp_ssid = str_or v ''ssid'' [],
     wp_ent_username = str_or v ''ent_username'' [], wp_ent_identity = str_or v ''ent_identity'' [],
     wp_passwd = str_or v ''passwd'' [], wp_static_ip = str_or v ''static_ip'' [],
     wp_subnet_mask = str_or v ''subnet_mask'' [], wp_gateway_addr = str_or v ''gateway_addr'' [],
     wp_ap_mac = mac_setting v ''ap_mac'', wp_ap_ssid = str_or v ''ap_ssid'' ''ESP32_Firewall'',
     wp_ap_passwd = str_or v ''ap_passwd'' [], wp_ap_ip = str_or v ''ap_ip'' DEFAULT_AP_IP\<rparr>"

definition settings_in :: "('f \<Rightarrow> nvs_key \<Rightarrow> nvs_value option) \<Rightarrow> 'f plat \<Rightarrow> setting_view" where
  "settings_in view p = (\<lambda>k. view (pflash p) (PARAM_NAMESPACE, k))"

section \<open>Reading implements the specification\<close>

context nvs_reliable
begin

text \<open>
  A read of one setting: it returns what the flash holds, changes no contents, and leaves its
  handle open exactly when it finds nothing in a namespace it could open.
\<close>

lemma get_str_spec:
  obtains e f' where "get_config_param_str api k p = Inr (e, str_setting (settings_in view p) k, p\<lparr>pflash := f'\<rparr>)"
    "view f' = view (pflash p)" "disk f' = disk (pflash p)"
    "e = ESP_OK \<longleftrightarrow> str_setting (settings_in view p) k \<noteq> None"
    "e = ESP_OK \<longrightarrow> handles f' = handles (pflash p)"
    "e \<noteq> ESP_OK \<longrightarrow> fst (nvs_open api PARAM_NAMESPACE NVS_READONLY (pflash p)) = ESP_OK \<longrightarrow>
       (\<exists>h. handles (pflash p) h = None \<and> handles f' = (handles (pflash p))(h \<mapsto> (PARAM_NAMESPACE, NVS_READONLY)))"
proof -
  let ?v = "settings_in view p k"
  obtain e h f1 where o: "nvs_open api PARAM_NAMESPACE NVS_READONLY (pflash p) = (e, h, f1)"
    by (cases "nvs_open api PARAM_NAMESPACE NVS_READONLY (pflash p)")
  show thesis
  proof (cases "e = ESP_OK")
    case False
    then have "?v = None" using open_ro [of "pflash p" PARAM_NAMESPACE k] o by (cases "view (pflash p) (PARAM_NAMESPACE, k)") (auto simp: settings_in_def)
    then show thesis using open_err [OF o False] False o
      by (intro that [of e f1]) (simp_all add: get_config_param_str_def str_setting_def)
  next
    case True
    have f1: "view f1 = view (pflash p)" "disk f1 = disk (pflash p)" "handles (pflash p) h = None"
      "handles f1 = (handles (pflash p))(h \<mapsto> (PARAM_NAMESPACE, NVS_READONLY))"
      using open_ok [of PARAM_NAMESPACE NVS_READONLY "pflash p" h f1] o True by auto
    then have h: "handles f1 h = Some (PARAM_NAMESPACE, NVS_READONLY)" by simp
    show thesis
    proof (cases "nvs_len api h k NVS_TYPE_STR f1")
      case (Inl e1)
      have none: "str_setting (settings_in view p) k = None"
      proof (rule ccontr)
        assume "str_setting (settings_in view p) k \<noteq> None"
        then obtain s where "?v = Some (NvStr s)"
          by (auto simp: str_setting_def split: option.splits nvs_value.splits)
        then show False using len_complete [OF h, of k "NvStr s"] f1(1) Inl by (simp add: settings_in_def)
      qed
      have "e1 \<noteq> ESP_OK" using len_err [OF Inl] .
      then show thesis using f1 o True Inl none
        by (intro that [of e1 f1]) (auto simp: get_config_param_str_def)
    next
      case (Inr n)
      obtain w where w: "view f1 (PARAM_NAMESPACE, k) = Some w" "type_of_value w = NVS_TYPE_STR" "value_size w = n"
        using len_sound [OF h Inr] by blast
      then obtain s where s: "w = NvStr s" by (cases w) auto
      have "nvs_get api h k NVS_TYPE_STR n f1 = Inr (NvStr s)"
        using get_complete [OF h w(1), of n] w s by simp
      moreover have "str_setting (settings_in view p) k = Some s"
        using w(1) s f1(1) by (simp add: str_setting_def settings_in_def)
      ultimately show thesis using f1 o True Inr
        by (intro that [of ESP_OK "nvs_close api h f1"]) (auto simp: get_config_param_str_def close fun_upd_idem)
    qed
  qed
qed

lemma get_blob_spec:
  obtains e f' where "get_config_param_blob api k 6 p = Inr (e, mac_setting (settings_in view p) k, p\<lparr>pflash := f'\<rparr>)"
    "view f' = view (pflash p)" "disk f' = disk (pflash p)"
proof -
  let ?v = "settings_in view p k"
  obtain e h f1 where o: "nvs_open api PARAM_NAMESPACE NVS_READONLY (pflash p) = (e, h, f1)"
    by (cases "nvs_open api PARAM_NAMESPACE NVS_READONLY (pflash p)")
  show thesis
  proof (cases "e = ESP_OK")
    case False
    then have "?v = None" using open_ro [of "pflash p" PARAM_NAMESPACE k] o
      by (cases "view (pflash p) (PARAM_NAMESPACE, k)") (auto simp: settings_in_def)
    then show thesis using open_err [OF o False] False o
      by (intro that [of e f1]) (simp_all add: get_config_param_blob_def mac_setting_def)
  next
    case True
    have f1: "view f1 = view (pflash p)" "disk f1 = disk (pflash p)"
      "handles f1 = (handles (pflash p))(h \<mapsto> (PARAM_NAMESPACE, NVS_READONLY))"
      using open_ok [of PARAM_NAMESPACE NVS_READONLY "pflash p" h f1] o True by auto
    then have h: "handles f1 h = Some (PARAM_NAMESPACE, NVS_READONLY)" by simp
    show thesis
    proof (cases "nvs_len api h k NVS_TYPE_BLOB f1")
      case (Inl e1)
      have "mac_setting (settings_in view p) k = None"
      proof (rule ccontr)
        assume "mac_setting (settings_in view p) k \<noteq> None"
        then obtain b where "?v = Some (NvBlob b)"
          by (auto simp: mac_setting_def split: option.splits nvs_value.splits)
        then show False using len_complete [OF h, of k "NvBlob b"] f1(1) Inl by (simp add: settings_in_def)
      qed
      then show thesis using f1 o True Inl
        by (intro that [of e1 f1]) (auto simp: get_config_param_blob_def)
    next
      case (Inr n)
      obtain w where w: "view f1 (PARAM_NAMESPACE, k) = Some w" "type_of_value w = NVS_TYPE_BLOB" "value_size w = n"
        using len_sound [OF h Inr] by blast
      then obtain b where b: "w = NvBlob b" by (cases w) auto
      have g: "nvs_get api h k NVS_TYPE_BLOB n f1 = Inr (NvBlob b)"
        using get_complete [OF h w(1), of n] w b by simp
      have "mac_setting (settings_in view p) k = (if n = 6 then Some b else None)"
        using w b f1(1) by (simp add: mac_setting_def settings_in_def)
      then show thesis using f1 o True Inr g
        by (cases "n = 6") (force intro!: that simp: get_config_param_blob_def close)+
    qed
  qed
qed

end

section \<open>The start-up reading\<close>

text \<open>\<open>f\<close> computes \<open>g\<close> of the settings and leaves the contents of the flash alone.\<close>

definition reads :: "('f \<Rightarrow> nvs_key \<Rightarrow> nvs_value option) \<Rightarrow> ('f \<Rightarrow> nvs_key \<Rightarrow> nvs_value option) \<Rightarrow>
    ('f plat \<Rightarrow> ('a \<times> 'f plat) cres) \<Rightarrow> (setting_view \<Rightarrow> 'a) \<Rightarrow> bool" where
  "reads view disk f g \<longleftrightarrow> (\<forall>p. \<exists>p'. f p = Inr (g (settings_in view p), p') \<and> plog p' = plog p \<and>
     view (pflash p') = view (pflash p) \<and> disk (pflash p') = disk (pflash p))"

lemma reads_return: "reads view disk (\<lambda>p. Inr (x, p)) (\<lambda>_. x)"
  by (simp add: reads_def)

lemma reads_bind:
  assumes "reads view disk f g" and "\<And>x. reads view disk (k x) (h x)"
  shows "reads view disk (\<lambda>p. bindE (f p) (case_prod k)) (\<lambda>v. h (g v) v)"
  unfolding reads_def
proof
  fix p
  from assms(1) obtain p1 where p1: "f p = Inr (g (settings_in view p), p1)" "plog p1 = plog p"
    "view (pflash p1) = view (pflash p)" "disk (pflash p1) = disk (pflash p)"
    unfolding reads_def by blast
  from assms(2) [of "g (settings_in view p)"] obtain p2 where
    "k (g (settings_in view p)) p1 = Inr (h (g (settings_in view p)) (settings_in view p1), p2)" "plog p2 = plog p1"
    "view (pflash p2) = view (pflash p1)" "disk (pflash p2) = disk (pflash p1)"
    unfolding reads_def by blast
  then show "\<exists>p'. bindE (f p) (case_prod k) = Inr (h (g (settings_in view p)) (settings_in view p), p') \<and>
      plog p' = plog p \<and> view (pflash p') = view (pflash p) \<and> disk (pflash p') = disk (pflash p)"
    using p1 by (simp add: settings_in_def)
qed

lemma reads_cong: "reads view disk f g \<Longrightarrow> g = g' \<Longrightarrow> reads view disk f g'"
  by simp

lemma readsE:
  assumes "reads view disk f g"
  obtains p' where "f p = Inr (g (settings_in view p), p')" "plog p' = plog p"
    "view (pflash p') = view (pflash p)" "disk (pflash p') = disk (pflash p)"
  using assms unfolding reads_def by blast

context nvs_reliable
begin

lemma param_or_reads: "reads view disk (param_or api k d) (\<lambda>v. str_or v k d)"
  unfolding reads_def
proof
  fix p
  obtain e f' where "get_config_param_str api k p = Inr (e, str_setting (settings_in view p) k, p\<lparr>pflash := f'\<rparr>)"
    "view f' = view (pflash p)" "disk f' = disk (pflash p)"
    by (rule get_str_spec)
  then show "\<exists>p'. param_or api k d p = Inr (str_or (settings_in view p) k d, p') \<and> plog p' = plog p \<and>
      view (pflash p') = view (pflash p) \<and> disk (pflash p') = disk (pflash p)"
    by (simp add: param_or_def str_or_def)
qed

lemma mac_param_reads: "reads view disk (mac_param api k) (\<lambda>v. mac_setting v k)"
  unfolding reads_def
proof
  fix p
  obtain e f' where "get_config_param_blob api k 6 p = Inr (e, mac_setting (settings_in view p) k, p\<lparr>pflash := f'\<rparr>)"
    "view f' = view (pflash p)" "disk f' = disk (pflash p)"
    by (rule get_blob_spec)
  then show "\<exists>p'. mac_param api k p = Inr (mac_setting (settings_in view p) k, p') \<and> plog p' = plog p \<and>
      view (pflash p') = view (pflash p) \<and> disk (pflash p') = disk (pflash p)"
    by (simp add: mac_param_def)
qed

lemma load_config_reads: "reads view disk (load_config api) config_of"
  unfolding load_config_def [abs_def]
  by (rule reads_cong, (rule reads_bind mac_param_reads param_or_reads reads_return)+)
    (simp add: config_of_def fun_eq_iff)

end

end
