(* ===== verification/Settings_Laws.thy ===== *)
theory Settings_Laws
  imports Settings
begin

text \<open>
  The configuration commands refine updates of the settings record, and what a restart makes of
  them.
\<close>

section \<open>One command line\<close>

datatype setting_cmd =
    Cmd_sta string string "string option" "string option"
  | Cmd_static string string string
  | Cmd_sta_mac "byte list"
  | Cmd_ap_mac "byte list"
  | Cmd_ap string string
  | Cmd_ap_ip string

definition optional :: "char \<Rightarrow> string option \<Rightarrow> (char \<times> string) list" where
  "optional c x = (case x of Some s \<Rightarrow> [(c, s)] | None \<Rightarrow> [])"

definition octets :: "byte list \<Rightarrow> string list" where
  "octets m = map (\<lambda>b. dec_of_nat (unat b)) m"

fun cmd_run :: "'f nvs_api \<Rightarrow> arg_parse \<Rightarrow> setting_cmd \<Rightarrow> 'f plat \<Rightarrow> (esp_err \<times> 'f plat) cres" where
  "cmd_run api parse (Cmd_sta s pw u i) p =
     set_sta api parse (''set_sta'' # [s, pw] @ option_words (optional (CHR ''u'') u @ optional (CHR ''a'') i)) p"
| "cmd_run api parse (Cmd_static i m g) p = set_sta_static api parse [''set_sta_static'', i, m, g] p"
| "cmd_run api parse (Cmd_sta_mac b) p = Inr (set_sta_mac api parse (''set_sta_mac'' # octets b) p)"
| "cmd_run api parse (Cmd_ap_mac b) p = Inr (set_ap_mac api parse (''set_ap_mac'' # octets b) p)"
| "cmd_run api parse (Cmd_ap s pw) p = set_ap api parse [''set_ap'', s, pw] p"
| "cmd_run api parse (Cmd_ap_ip i) p = set_ap_ip api parse [''set_ap_ip'', i] p"

definition cmd_step :: "'f nvs_api \<Rightarrow> arg_parse \<Rightarrow> setting_cmd \<Rightarrow> 'f plat \<Rightarrow> 'f plat cres" where
  "cmd_step api parse c p = bindE (cmd_run api parse c p) (\<lambda>(_, p1). Inr p1)"

text \<open>Arguments that reach a command: C strings that do not look like an option.\<close>

definition plain_arg :: "string \<Rightarrow> bool" where
  "plain_arg s \<longleftrightarrow> is_cstr s \<and> take 1 s \<noteq> ''-''"

fun cmd_ok :: "setting_cmd \<Rightarrow> bool" where
  "cmd_ok (Cmd_sta s pw u i) \<longleftrightarrow> plain_arg s \<and> plain_arg pw"
| "cmd_ok (Cmd_static i m g) \<longleftrightarrow> plain_arg i \<and> plain_arg m \<and> plain_arg g"
| "cmd_ok (Cmd_sta_mac b) \<longleftrightarrow> length b = 6"
| "cmd_ok (Cmd_ap_mac b) \<longleftrightarrow> length b = 6"
| "cmd_ok (Cmd_ap s pw) \<longleftrightarrow> plain_arg s \<and> plain_arg pw"
| "cmd_ok (Cmd_ap_ip i) \<longleftrightarrow> plain_arg i"

text \<open>What a command means: its texts are stored decoded, except the two of the enterprise login.\<close>

abbreviation decoded :: "string \<Rightarrow> string" where
  "decoded s \<equiv> cstr (url_decode s)"

fun cmd_writes :: "setting_cmd \<Rightarrow> (string \<times> nvs_value) list" where
  "cmd_writes (Cmd_sta s pw u i) = [(''ssid'', NvStr (decoded s)), (''passwd'', NvStr (decoded pw)),
     (''ent_username'', NvStr (case u of Some t \<Rightarrow> t | None \<Rightarrow> [])),
     (''ent_identity'', NvStr (case i of Some t \<Rightarrow> t | None \<Rightarrow> []))]"
| "cmd_writes (Cmd_static i m g) = [(''static_ip'', NvStr (decoded i)), (''subnet_mask'', NvStr (decoded m)),
     (''gateway_addr'', NvStr (decoded g))]"
| "cmd_writes (Cmd_sta_mac b) = [(''mac'', NvBlob b)]"
| "cmd_writes (Cmd_ap_mac b) = [(''ap_mac'', NvBlob b)]"
| "cmd_writes (Cmd_ap s pw) = [(''ap_ssid'', NvStr (decoded s)), (''ap_passwd'', NvStr (decoded pw))]"
| "cmd_writes (Cmd_ap_ip i) = [(''ap_ip'', NvStr (decoded i))]"

fun cmd_update :: "setting_cmd \<Rightarrow> wifi_params \<Rightarrow> wifi_params" where
  "cmd_update (Cmd_sta s pw u i) c = c\<lparr>wp_ssid := decoded s, wp_passwd := decoded pw,
     wp_ent_username := (case u of Some t \<Rightarrow> t | None \<Rightarrow> []), wp_ent_identity := (case i of Some t \<Rightarrow> t | None \<Rightarrow> [])\<rparr>"
| "cmd_update (Cmd_static i m g) c = c\<lparr>wp_static_ip := decoded i, wp_subnet_mask := decoded m, wp_gateway_addr := decoded g\<rparr>"
| "cmd_update (Cmd_sta_mac b) c = c\<lparr>wp_mac := Some b\<rparr>"
| "cmd_update (Cmd_ap_mac b) c = c\<lparr>wp_ap_mac := Some b\<rparr>"
| "cmd_update (Cmd_ap s pw) c = c\<lparr>wp_ap_ssid := decoded s, wp_ap_passwd := decoded pw\<rparr>"
| "cmd_update (Cmd_ap_ip i) c = c\<lparr>wp_ap_ip := decoded i\<rparr>"

fun cmd_commits :: "setting_cmd \<Rightarrow> bool" where
  "cmd_commits (Cmd_ap_ip i) = False"
| "cmd_commits c = True"

definition writes :: "(string \<times> nvs_value) list \<Rightarrow> setting_view \<Rightarrow> setting_view" where
  "writes kvs v = fold (\<lambda>(k, x) v. v(k \<mapsto> x)) kvs v"

lemma config_of_writes: "cmd_ok c \<Longrightarrow> config_of (writes (cmd_writes c) v) = cmd_update c (config_of v)"
  by (cases c) (simp_all add: writes_def config_of_def str_or_def str_setting_def mac_setting_def)

section \<open>What a command leaves in the flash\<close>

lemma preprocess_arg_decoded: "is_cstr s \<Longrightarrow> preprocess_arg s = Inr (decoded s)"
proof -
  assume "is_cstr s"
  then obtain a where "preprocess_string (s @ NUL # []) = Inr a" "cstr a = decoded s"
    by (rule preprocess_string_text)
  then show ?thesis by (simp add: preprocess_arg_def)
qed

context nvs_reliable
begin

lemma set_strs_spec:
  assumes "handles f h = Some (ns, NVS_READWRITE)"
  shows "\<exists>f'. set_strs api h kvs f = (ESP_OK, f') \<and> handles f' = handles f \<and>
    (\<lambda>k. view f' (ns, k)) = writes (map (\<lambda>(k, s). (k, NvStr s)) kvs) (\<lambda>k. view f (ns, k))"
  using assms
proof (induction kvs arbitrary: f)
  case (Cons kv kvs)
  obtain k s where kv: "kv = (k, s)" by (cases kv)
  obtain f1 where f1: "nvs_set api h k (NvStr s) f = (ESP_OK, f1)" "view f1 = (view f)((ns, k) \<mapsto> NvStr s)"
    "handles f1 = handles f" using Cons.prems by (rule setE)
  then have "(\<lambda>j. view f1 (ns, j)) = (\<lambda>j. view f (ns, j))(k \<mapsto> NvStr s)" by auto
  then show ?case using Cons.IH [of f1] Cons.prems f1 kv by (simp add: writes_def)
qed (simp add: writes_def)

lemma store_settings_spec:
  "\<exists>p'. store_settings api commit kvs p = (ESP_OK, p') \<and> plog p' = plog p \<and>
     settings_in view p' = writes (map (\<lambda>(k, s). (k, NvStr s)) kvs) (settings_in view p) \<and>
     (commit \<longrightarrow> settings_in disk p' = settings_in view p')"
proof -
  obtain h f1 where o: "nvs_open api PARAM_NAMESPACE NVS_READWRITE (pflash p) = (ESP_OK, h, f1)"
    and v1: "view f1 = view (pflash p)"
    and h1: "handles f1 = (handles (pflash p))(h \<mapsto> (PARAM_NAMESPACE, NVS_READWRITE))"
    by (rule open_rwE)
  have h: "handles f1 h = Some (PARAM_NAMESPACE, NVS_READWRITE)" using h1 by simp
  obtain f2 where f2: "set_strs api h kvs f1 = (ESP_OK, f2)" "handles f2 = handles f1"
    "(\<lambda>k. view f2 (PARAM_NAMESPACE, k)) = writes (map (\<lambda>(k, s). (k, NvStr s)) kvs) (settings_in view p)"
    using set_strs_spec [OF h, of kvs] v1 by (auto simp: settings_in_def)
  have h2: "handles f2 h = Some (PARAM_NAMESPACE, NVS_READWRITE)" using h f2 by simp
  obtain f3 where "nvs_commit api h f2 = (ESP_OK, f3)" "view f3 = view f2"
    "\<forall>k. disk f3 (PARAM_NAMESPACE, k) = view f2 (PARAM_NAMESPACE, k)"
    using h2 by (rule commitE)
  then show ?thesis
    using o f2 by (cases commit) (simp_all add: store_settings_def close settings_in_def)
qed

lemma set_mac_spec:
  assumes "parse set_mac_args argv = Some [[AInt i0], [AInt i1], [AInt i2], [AInt i3], [AInt i4], [AInt i5]]"
  shows "\<exists>p'. set_mac api parse key argv p = (ESP_OK, p') \<and> plog p' = plog p \<and>
     settings_in view p' = writes [(key, NvBlob (map word_of_int [i0, i1, i2, i3, i4, i5]))] (settings_in view p) \<and>
     settings_in disk p' = settings_in view p'"
proof -
  let ?b = "map word_of_int [i0, i1, i2, i3, i4, i5]"
  obtain h f1 where o: "nvs_open api PARAM_NAMESPACE NVS_READWRITE (pflash p) = (ESP_OK, h, f1)"
    and v1: "view f1 = view (pflash p)"
    and h1: "handles f1 = (handles (pflash p))(h \<mapsto> (PARAM_NAMESPACE, NVS_READWRITE))"
    by (rule open_rwE)
  then have h: "handles f1 h = Some (PARAM_NAMESPACE, NVS_READWRITE)" by simp
  obtain f2 where f2: "nvs_set api h key (NvBlob ?b) f1 = (ESP_OK, f2)"
    "view f2 = (view f1)((PARAM_NAMESPACE, key) \<mapsto> NvBlob ?b)" "handles f2 = handles f1"
    using h by (rule setE)
  then have h2: "handles f2 h = Some (PARAM_NAMESPACE, NVS_READWRITE)" using h by simp
  obtain f3 where "nvs_commit api h f2 = (ESP_OK, f3)" "view f3 = view f2"
    "\<forall>k. disk f3 (PARAM_NAMESPACE, k) = view f2 (PARAM_NAMESPACE, k)"
    using h2 by (rule commitE)
  then show ?thesis
    using o f2 v1 assms by (auto simp: set_mac_def ival_def close settings_in_def writes_def fun_eq_iff)
qed

end

section \<open>Command lines are parsed\<close>

lemmas arg_entry_defs = arg_str1_def arg_str0_def arg_int1_def

lemma sta_args_split: "set_sta_args = take 2 set_sta_args @ drop 2 set_sta_args"
  by simp

lemma option_values_sta:
  "map (option_values (optional (CHR ''u'') u @ optional (CHR ''a'') i)) (drop 2 set_sta_args) =
     [case u of Some t \<Rightarrow> [AStr t] | None \<Rightarrow> [], case i of Some t \<Rightarrow> [AStr t] | None \<Rightarrow> []]"
  by (cases u; cases i) (simp_all add: set_sta_args_def arg_entry_defs option_values_def optional_def)

lemma options_ok_sta: "options_ok (drop 2 set_sta_args) (optional (CHR ''u'') u @ optional (CHR ''a'') i)"
  by (cases u; cases i)
    (simp_all add: options_ok_def set_sta_args_def arg_entry_defs option_values_def optional_def)

context arg_parser
begin

lemma parse_sta:
  assumes "plain_arg s" and "plain_arg pw"
  shows "parse set_sta_args (cmd # [s, pw] @ option_words (optional (CHR ''u'') u @ optional (CHR ''a'') i)) =
    Some [[AStr s], [AStr pw], case u of Some t \<Rightarrow> [AStr t] | None \<Rightarrow> [], case i of Some t \<Rightarrow> [AStr t] | None \<Rightarrow> []]"
proof -
  have "parse (take 2 set_sta_args @ drop 2 set_sta_args)
      (cmd # [s, pw] @ option_words (optional (CHR ''u'') u @ optional (CHR ''a'') i)) =
    Some (map (\<lambda>v. [v]) [AStr s, AStr pw] @
      map (option_values (optional (CHR ''u'') u @ optional (CHR ''a'') i)) (drop 2 set_sta_args))"
    using assms options_ok_sta
    by (intro parses) (auto simp: set_sta_args_def arg_entry_defs plain_arg_def less_Suc_eq)
  then show ?thesis unfolding option_values_sta by simp
qed

lemma parse_plain:
  assumes "list_all (\<lambda>e. ar_short e = None \<and> ar_kind e = Arg_str) tab" and "list_all plain_arg args"
    and "length args = length tab"
  shows "parse tab (cmd # args) = Some (map (\<lambda>a. [AStr a]) args)"
  using assms parses_positional [of tab args "map AStr args" cmd]
  by (auto simp: list_all_length plain_arg_def comp_def)

lemma parse_octets:
  assumes "length b = 6"
  shows "parse set_mac_args (cmd # octets b) = Some (map (\<lambda>x. [AInt (uint x)]) b)"
  using assms parses_positional [of set_mac_args "octets b" "map (\<lambda>x. AInt (uint x)) b" cmd]
  by (auto simp: octets_def set_mac_args_def arg_entry_defs comp_def less_Suc_eq numeral_eq_Suc)

end

end
