(* ===== verification/Settings_Props.thy ===== *)
theory Settings_Props
  imports Settings_Laws
begin

text \<open>
  Properties of the configuration commands: what survives a restart, and what reading costs.
\<close>

section \<open>Every command is an update\<close>

locale configured = nvs_reliable + arg_parser
begin

lemma set_mac_octets:
  assumes "length b = 6"
  shows "\<exists>p'. set_mac api parse key (cmd # octets b) p = (ESP_OK, p') \<and> plog p' = plog p \<and>
    settings_in view p' = writes [(key, NvBlob b)] (settings_in view p) \<and> settings_in disk p' = settings_in view p'"
proof -
  obtain b0 b1 b2 b3 b4 b5 where b: "b = [b0, b1, b2, b3, b4, b5]"
    using assms by (auto simp: numeral_eq_Suc length_Suc_conv)
  then have "parse set_mac_args (cmd # octets b) =
      Some [[AInt (uint b0)], [AInt (uint b1)], [AInt (uint b2)], [AInt (uint b3)], [AInt (uint b4)], [AInt (uint b5)]]"
    using parse_octets [OF assms, of cmd] by simp
  then show ?thesis
    using set_mac_spec [where parse = parse and argv = "cmd # octets b" and key = key and p = p] b by fastforce
qed

lemma cmd_run_spec:
  assumes "cmd_ok c"
  shows "\<exists>p'. cmd_run api parse c p = Inr (ESP_OK, p') \<and> plog p' = plog p \<and>
    settings_in view p' = writes (cmd_writes c) (settings_in view p) \<and>
    (cmd_commits c \<longrightarrow> settings_in disk p' = settings_in view p')"
proof (cases c)
  case (Cmd_sta s pw u i)
  then have args: "plain_arg s" "plain_arg pw" using assms by auto
  then have dec: "preprocess_arg s = Inr (decoded s)" "preprocess_arg pw = Inr (decoded pw)"
    by (simp_all add: plain_arg_def preprocess_arg_decoded)
  show ?thesis
    using store_settings_spec [of True "[(''ssid'', decoded s), (''passwd'', decoded pw),
        (''ent_username'', case u of Some t \<Rightarrow> t | None \<Rightarrow> []), (''ent_identity'', case i of Some t \<Rightarrow> t | None \<Rightarrow> [])]" p]
    unfolding Cmd_sta cmd_run.simps set_sta_def parse_sta [OF args]
    by (cases u; cases i) (simp_all add: sval_def dec)
next
  case (Cmd_static i m g)
  then have "preprocess_arg i = Inr (decoded i)" "preprocess_arg m = Inr (decoded m)" "preprocess_arg g = Inr (decoded g)"
    using assms by (simp_all add: plain_arg_def preprocess_arg_decoded)
  moreover have "parse set_sta_static_args [''set_sta_static'', i, m, g] = Some [[AStr i], [AStr m], [AStr g]]"
    using parse_plain [of set_sta_static_args "[i, m, g]"] Cmd_static assms
    by (simp add: set_sta_static_args_def arg_entry_defs)
  ultimately show ?thesis
    using store_settings_spec [of True "[(''static_ip'', decoded i), (''subnet_mask'', decoded m), (''gateway_addr'', decoded g)]" p]
      Cmd_static by (simp add: set_sta_static_def sval_def)
next
  case (Cmd_sta_mac b)
  then show ?thesis using set_mac_octets [of b "''mac''"] assms by (simp add: set_sta_mac_def)
next
  case (Cmd_ap_mac b)
  then show ?thesis using set_mac_octets [of b "''ap_mac''"] assms by (simp add: set_ap_mac_def)
next
  case (Cmd_ap s pw)
  then have "preprocess_arg s = Inr (decoded s)" "preprocess_arg pw = Inr (decoded pw)"
    using assms by (simp_all add: plain_arg_def preprocess_arg_decoded)
  moreover have "parse set_ap_args [''set_ap'', s, pw] = Some [[AStr s], [AStr pw]]"
    using parse_plain [of set_ap_args "[s, pw]"] Cmd_ap assms by (simp add: set_ap_args_def arg_entry_defs)
  ultimately show ?thesis
    using store_settings_spec [of True "[(''ap_ssid'', decoded s), (''ap_passwd'', decoded pw)]" p] Cmd_ap
    by (simp add: set_ap_def sval_def)
next
  case (Cmd_ap_ip i)
  then have "preprocess_arg i = Inr (decoded i)"
    using assms by (simp_all add: plain_arg_def preprocess_arg_decoded)
  moreover have "parse set_ap_ip_args [''set_ap_ip'', i] = Some [[AStr i]]"
    using parse_plain [of set_ap_ip_args "[i]"] Cmd_ap_ip assms by (simp add: set_ap_ip_args_def arg_entry_defs)
  ultimately show ?thesis
    using store_settings_spec [of False "[(''ap_ip'', decoded i)]" p] Cmd_ap_ip
    by (simp add: set_ap_ip_def sval_def)
qed

lemma cmd_step_spec:
  assumes "cmd_ok c"
  obtains p' where "cmd_step api parse c p = Inr p'"
    "config_of (settings_in view p') = cmd_update c (config_of (settings_in view p))"
    "cmd_commits c \<longrightarrow> settings_in disk p' = settings_in view p'"
proof -
  from cmd_run_spec [OF assms, of p] obtain p' where "cmd_run api parse c p = Inr (ESP_OK, p')"
    "settings_in view p' = writes (cmd_writes c) (settings_in view p)"
    "cmd_commits c \<longrightarrow> settings_in disk p' = settings_in view p'" by blast
  then show thesis using config_of_writes [OF assms] by (intro that [of p']) (simp_all add: cmd_step_def)
qed

lemma cmd_run_ops:
  assumes "list_all cmd_ok cs"
  shows "\<exists>p'. run_ops (cmd_step api parse) cs p = Inr p' \<and>
    config_of (settings_in view p') = fold cmd_update cs (config_of (settings_in view p)) \<and>
    (cs \<noteq> [] \<and> cmd_commits (last cs) \<longrightarrow> settings_in disk p' = settings_in view p')"
  using assms
proof (induction cs arbitrary: p)
  case (Cons c cs)
  obtain p1 where p1: "cmd_step api parse c p = Inr p1"
    "config_of (settings_in view p1) = cmd_update c (config_of (settings_in view p))"
    "cmd_commits c \<longrightarrow> settings_in disk p1 = settings_in view p1"
    by (rule cmd_step_spec [of c p]) (use Cons.prems in auto)
  then show ?case using Cons.IH [of p1] Cons.prems by auto
qed simp

lemma restart_load:
  obtains p'' where "load_config api (p\<lparr>pflash := nvs_reset api (pflash p)\<rparr>) = Inr (config_of (settings_in disk p), p'')"
proof -
  obtain p'' where "load_config api (p\<lparr>pflash := nvs_reset api (pflash p)\<rparr>) =
      Inr (config_of (settings_in view (p\<lparr>pflash := nvs_reset api (pflash p)\<rparr>)), p'')"
    by (rule readsE [OF load_config_reads])
  then show thesis using that by (simp add: settings_in_def reset)
qed

end

interpretation ram_cli: configured ram_api "\<lambda>f. map_of (rview f)" "\<lambda>f. map_of (rdisk f)" "\<lambda>f. map_of (rhandles f)" simple_parse
  by unfold_locales

text \<open>C21: any sequence of configuration commands with well-formed arguments, the last of them other than
  \<open>set_ap_ip\<close>, succeeds, and after a restart the router reads exactly the settings it had before, updated
  by each command in turn.\<close>

theorem settings_survive_restart:
  assumes "nvs_reliable api view disk handles" and "arg_parser parse"
    and "list_all cmd_ok cs" and "cs \<noteq> []" and "cmd_commits (last cs)"
  shows "\<exists>p' p''. run_ops (cmd_step api parse) cs p = Inr p' \<and>
    load_config api (p'\<lparr>pflash := nvs_reset api (pflash p')\<rparr>) =
      Inr (fold cmd_update cs (config_of (settings_in view p)), p'')"
proof -
  note c = configured.intro [OF assms(1,2)]
  from configured.cmd_run_ops [OF c assms(3), of p] assms(4,5) obtain p' where
    p': "run_ops (cmd_step api parse) cs p = Inr p'" "settings_in disk p' = settings_in view p'"
    "config_of (settings_in view p') = fold cmd_update cs (config_of (settings_in view p))" by blast
  obtain p'' where "load_config api (p'\<lparr>pflash := nvs_reset api (pflash p')\<rparr>) = Inr (config_of (settings_in disk p'), p'')"
    by (rule configured.restart_load [OF c])
  then show ?thesis using p' by metis
qed

theorem settings_survive_restart_witness:
  "\<exists>p' p''. run_ops (cmd_step ram_api simple_parse)
       [Cmd_sta ''home%20net'' ''secret12'' None None, Cmd_ap_ip ''10.0.0.1'', Cmd_ap ''guest'' ''''] plat0 = Inr p' \<and>
     load_config ram_api (p'\<lparr>pflash := nvs_reset ram_api (pflash p')\<rparr>) =
       Inr (\<lparr>wp_mac = None, wp_ssid = ''home net'', wp_ent_username = '''', wp_ent_identity = '''',
         wp_passwd = ''secret12'', wp_static_ip = '''', wp_subnet_mask = '''', wp_gateway_addr = '''', wp_ap_mac = None,
         wp_ap_ssid = ''guest'', wp_ap_passwd = '''', wp_ap_ip = ''10.0.0.1''\<rparr>, p'')"
proof -
  let ?cs = "[Cmd_sta ''home%20net'' ''secret12'' None None, Cmd_ap_ip ''10.0.0.1'', Cmd_ap ''guest'' '''']"
  have dec: "decoded ''home%20net'' = ''home net''" "decoded ''secret12'' = ''secret12''"
    "decoded ''10.0.0.1'' = ''10.0.0.1''" "decoded ''guest'' = ''guest''" "decoded [] = []"
    by code_simp+
  have "fold cmd_update ?cs (config_of (settings_in (\<lambda>f. map_of (rview f)) plat0)) =
    \<lparr>wp_mac = None, wp_ssid = ''home net'', wp_ent_username = '''', wp_ent_identity = '''',
         wp_passwd = ''secret12'', wp_static_ip = '''', wp_subnet_mask = '''', wp_gateway_addr = '''', wp_ap_mac = None,
         wp_ap_ssid = ''guest'', wp_ap_passwd = '''', wp_ap_ip = ''10.0.0.1''\<rparr>"
    by (simp add: dec config_of_def str_or_def str_setting_def mac_setting_def settings_in_def plat0_def ram_empty_def
        del: url_decode.simps)
  then show ?thesis
    using settings_survive_restart [OF ram.nvs_reliable_axioms simple.arg_parser_axioms, of ?cs plat0]
    by (simp add: plain_arg_def)
qed

text \<open>\<open>set_ap_ip\<close> never commits what it writes. On a flash that keeps writes back until they are
  committed, as the documentation of NVS allows, the command reports success and the router starts with
  the old address again.\<close>

theorem ap_ip_lost_without_commit:
  assumes "plain_arg ip"
  shows "\<exists>p' p''. cmd_run ram_api simple_parse (Cmd_ap_ip ip) p = Inr (ESP_OK, p') \<and>
    load_config ram_api (p'\<lparr>pflash := nvs_reset ram_api (pflash p')\<rparr>) =
      Inr (config_of (settings_in (\<lambda>f. map_of (rdisk f)) p), p'')"
proof -
  obtain p' where run: "cmd_run ram_api simple_parse (Cmd_ap_ip ip) p = Inr (ESP_OK, p')"
    using ram_cli.cmd_run_spec [of "Cmd_ap_ip ip" p] assms by auto
  have ip_parse: "simple_parse set_ap_ip_args [''set_ap_ip'', ip] = Some [[AStr ip]]"
    using simple.parse_plain [of set_ap_ip_args "[ip]"] assms by (simp add: set_ap_ip_args_def arg_entry_defs)
  have keep: "rdisk (pflash (snd (store_settings ram_api False [kv] q))) = rdisk (pflash q)" for kv and q :: "ram_flash plat"
    by (cases kv) (simp add: store_settings_def ram_simps Let_def)
  have "preprocess_arg ip = Inr (decoded ip)" using assms by (simp add: plain_arg_def preprocess_arg_decoded)
  then have "rdisk (pflash p') = rdisk (pflash p)"
    using run keep [of "(''ap_ip'', decoded ip)" p]
    by (auto simp: set_ap_ip_def sval_def ip_parse)
  then show ?thesis using run ram_cli.restart_load [of p'] by (auto simp: settings_in_def)
qed

theorem ap_ip_lost_without_commit_witness:
  "\<exists>p'. cmd_run ram_api simple_parse (Cmd_ap_ip ''10.0.0.1'') plat0 = Inr (ESP_OK, p') \<and>
     (\<exists>c p''. load_config ram_api (p'\<lparr>pflash := nvs_reset ram_api (pflash p')\<rparr>) = Inr (c, p'') \<and> wp_ap_ip c = ''192.168.4.1'')"
proof -
  have "wp_ap_ip (config_of (settings_in (\<lambda>f. map_of (rdisk f)) plat0)) = ''192.168.4.1''"
    by (simp add: config_of_def str_or_def str_setting_def settings_in_def plat0_def ram_empty_def DEFAULT_AP_IP_def)
  then show ?thesis
    using ap_ip_lost_without_commit [of "''10.0.0.1''" plat0] by (auto simp: plain_arg_def)
qed

section \<open>Handles\<close>

context nvs_reliable
begin

text \<open>A read of a missing setting leaves one more handle open.\<close>

lemma read_params_handles:
  assumes "finite (dom (handles (pflash p)))" and "view (pflash p) (PARAM_NAMESPACE, k0) \<noteq> None"
  shows "\<exists>p'. read_params api ks p = Inr (map (str_setting (settings_in view p)) ks, p') \<and>
    finite (dom (handles (pflash p'))) \<and> settings_in view p' = settings_in view p \<and>
    card (dom (handles (pflash p'))) = card (dom (handles (pflash p))) +
      length (filter (\<lambda>k. str_setting (settings_in view p) k = None) ks)"
  using assms
proof (induction ks arbitrary: p)
  case (Cons k ks)
  obtain e f' where r: "get_config_param_str api k p = Inr (e, str_setting (settings_in view p) k, p\<lparr>pflash := f'\<rparr>)"
    "view f' = view (pflash p)" "disk f' = disk (pflash p)" "e = ESP_OK \<longleftrightarrow> str_setting (settings_in view p) k \<noteq> None"
    "e = ESP_OK \<longrightarrow> handles f' = handles (pflash p)"
    "e \<noteq> ESP_OK \<longrightarrow> fst (nvs_open api PARAM_NAMESPACE NVS_READONLY (pflash p)) = ESP_OK \<longrightarrow>
       (\<exists>h. handles (pflash p) h = None \<and> handles f' = (handles (pflash p))(h \<mapsto> (PARAM_NAMESPACE, NVS_READONLY)))"
    by (rule get_str_spec [of k p])
  have "finite (dom (handles f')) \<and> card (dom (handles f')) = card (dom (handles (pflash p))) +
      (if str_setting (settings_in view p) k = None then 1 else 0)"
    using r(4-6) open_ro [OF Cons.prems(2)] Cons.prems(1) by (cases "e = ESP_OK") (auto simp: domIff card_insert_if)
  moreover have same: "settings_in view (p\<lparr>pflash := f'\<rparr>) = settings_in view p" using r(2) by (simp add: settings_in_def)
  ultimately show ?case
    using Cons.IH [of "p\<lparr>pflash := f'\<rparr>"] Cons.prems r(1,2) by (auto simp: same)
qed simp

end

text \<open>Every \<open>show\<close> leaves as many NVS handles open as there are settings that were never set: nobody
  can close them, and nothing bounds their number.\<close>

theorem show_leaks_handles:
  assumes "nvs_reliable api view disk handles" and "finite (dom (handles (pflash p)))"
    and "view (pflash p) (PARAM_NAMESPACE, k) \<noteq> None"
  shows "\<exists>t p'. show_cmd api n ip c p = Inr (t, p') \<and>
    card (dom (handles (pflash p'))) = card (dom (handles (pflash p))) +
      length (filter (\<lambda>k. str_setting (settings_in view p) k = None) show_keys)"
  using nvs_reliable.read_params_handles [OF assms, of show_keys] by (auto simp: show_cmd_def)

theorem show_leaks_handles_witness:
  "\<exists>t p'. show_cmd ram_api (net_boot 32) 0 0 (plat0\<lparr>pflash := ram_empty\<lparr>rview := [((''esp32_nat'', ''ssid''), NvStr ''home'')]\<rparr>\<rparr>) = Inr (t, p') \<and>
     card (dom (map_of (rhandles (pflash p')))) = 8"
  using show_leaks_handles [OF ram.nvs_reliable_axioms,
      of "plat0\<lparr>pflash := ram_empty\<lparr>rview := [((''esp32_nat'', ''ssid''), NvStr ''home'')]\<rparr>\<rparr>" "''ssid''" "net_boot 32" 0 0]
  by (simp add: plat0_def ram_empty_def settings_in_def str_setting_def show_keys_def PARAM_NAMESPACE_def eval_nat_numeral)

end
