(* ===== verification/C_Num.thy ===== *)
theory C_Num
  imports Format
begin

text \<open>
  The number parsers of the C library that the commands use: \<open>strtol\<close>, \<open>strtoul\<close>, \<open>strtoll\<close> and
  \<open>strtoull\<close> with base 0. The result is the value and whether \<open>errno\<close> is set to \<open>ERANGE\<close>; no
  other outcome touches \<open>errno\<close>.
\<close>

section \<open>Parsing\<close>

definition c_isspace :: "char \<Rightarrow> bool" where
  "c_isspace c \<longleftrightarrow> (let n = (of_char c :: nat) in n = 32 \<or> (9 \<le> n \<and> n \<le> 13))"

text \<open>The value of a digit, letters counting from ten.\<close>

definition c_digit :: "char \<Rightarrow> nat" where
  "c_digit c = (let n = (of_char c :: nat) in
     if 48 \<le> n \<and> n \<le> 57 then n - 48
     else if 65 \<le> n \<and> n \<le> 90 then n - 55
     else if 97 \<le> n \<and> n \<le> 122 then n - 87 else 36)"

fun c_digits :: "nat \<Rightarrow> nat \<Rightarrow> string \<Rightarrow> nat" where
  "c_digits base acc [] = acc"
| "c_digits base acc (c # s) = (if c_digit c < base then c_digits base (base * acc + c_digit c) s else acc)"

text \<open>Sign and magnitude of the number a text starts with; base 0 chooses among 16, 8 and 10.\<close>

definition c_magnitude :: "string \<Rightarrow> nat" where
  "c_magnitude s = (case s of
       z # x # d # t \<Rightarrow>
         if z = CHR ''0'' \<and> (x = CHR ''x'' \<or> x = CHR ''X'') \<and> c_digit d < 16 then c_digits 16 0 (d # t)
         else if z = CHR ''0'' then c_digits 8 0 s else c_digits 10 0 s
     | z # t \<Rightarrow> if z = CHR ''0'' then c_digits 8 0 s else c_digits 10 0 s
     | [] \<Rightarrow> 0)"

definition c_number :: "string \<Rightarrow> bool \<times> nat" where
  "c_number s = (case dropWhile c_isspace s of
       c # t \<Rightarrow> if c = CHR ''-'' then (True, c_magnitude t)
                else if c = CHR ''+'' then (False, c_magnitude t) else (False, c_magnitude (c # t))
     | [] \<Rightarrow> (False, 0))"

text \<open>Signed and unsigned parsers of \<open>w\<close> bits (\<open>long\<close> has 32 bits, \<open>long long\<close> 64).\<close>

definition strtol_bits :: "nat \<Rightarrow> string \<Rightarrow> int \<times> bool" where
  "strtol_bits w s = (case c_number s of (neg, m) \<Rightarrow>
     let v = (if neg then - int m else int m)
     in if v < - (2 ^ (w - 1)) then (- (2 ^ (w - 1)), True)
        else if v > 2 ^ (w - 1) - 1 then (2 ^ (w - 1) - 1, True) else (v, False))"

definition strtoul_bits :: "nat \<Rightarrow> string \<Rightarrow> int \<times> bool" where
  "strtoul_bits w s = (case c_number s of (neg, m) \<Rightarrow>
     if int m > 2 ^ w - 1 then (2 ^ w - 1, True)
     else if neg then ((- int m) mod 2 ^ w, False) else (int m, False))"

section \<open>Reading back printed numbers\<close>

lemma c_digit_dec_digit: "d < 10 \<Longrightarrow> c_digit (dec_digit d) = d"
  by (simp add: c_digit_def dec_digit_def)

lemma c_digits_append:
  "list_all (\<lambda>c. c_digit c < base) s \<Longrightarrow> c_digits base acc (s @ t) = c_digits base (c_digits base acc s) t"
  by (induction s arbitrary: acc) auto

lemma dec_of_nat_digits: "list_all (\<lambda>c. c_digit c < 10) (dec_of_nat n)"
proof (induction n rule: dec_of_nat.induct)
  case (1 n)
  then show ?case by (subst dec_of_nat.simps) (auto simp: c_digit_dec_digit)
qed

lemma c_digits_dec_of_nat: "c_digits 10 0 (dec_of_nat n) = n"
proof (induction n rule: dec_of_nat.induct)
  case (1 n)
  then show ?case
    by (subst dec_of_nat.simps) (auto simp: c_digit_dec_digit c_digits_append dec_of_nat_digits)
qed

lemma dec_of_nat_hd:
  "\<exists>d t. dec_of_nat n = dec_digit d # t \<and> d < 10 \<and> (n \<noteq> 0 \<longrightarrow> d \<noteq> 0)"
proof (induction n rule: dec_of_nat.induct)
  case (1 n)
  show ?case
  proof (cases "n < 10")
    case True
    then show ?thesis by (subst dec_of_nat.simps) auto
  next
    case False
    then have "n div 10 \<noteq> 0" by simp
    with 1 [OF False] obtain d t where "dec_of_nat (n div 10) = dec_digit d # t" "d < 10" "d \<noteq> 0" by blast
    then show ?thesis using False by (subst dec_of_nat.simps) auto
  qed
qed

lemma dec_digit_eq: "d < 10 \<Longrightarrow> (of_char (dec_digit d) :: nat) = 48 + d"
  by (simp add: dec_digit_def)

lemma dec_digit_zero: "d < 10 \<Longrightarrow> dec_digit d = CHR ''0'' \<longleftrightarrow> d = 0"
  unfolding char_eq_iff_nat by (simp add: dec_digit_eq)

lemma c_magnitude_dec_of_nat: "c_magnitude (dec_of_nat n) = n"
proof (cases "n = 0")
  case True
  then show ?thesis by (subst dec_of_nat.simps) (simp add: c_magnitude_def c_digit_dec_digit dec_digit_zero)
next
  case False
  then obtain d t where d: "dec_of_nat n = dec_digit d # t" "d < 10" "d \<noteq> 0" using dec_of_nat_hd by blast
  then have "c_magnitude (dec_of_nat n) = c_digits 10 0 (dec_of_nat n)"
    by (auto simp: c_magnitude_def dec_digit_zero split: list.split)
  then show ?thesis by (simp add: c_digits_dec_of_nat)
qed

lemma c_number_dec_of_int: "c_number (dec_of_int i) = (i < 0, nat \<bar>i\<bar>)"
proof (cases "i < 0")
  case True
  then show ?thesis by (simp add: dec_of_int_def c_number_def c_isspace_def c_magnitude_dec_of_nat)
next
  case False
  obtain d t where d: "dec_of_nat (nat i) = dec_digit d # t" "d < 10" using dec_of_nat_hd by blast
  then have "\<not> c_isspace (dec_digit d)" "dec_digit d \<noteq> CHR ''-''" "dec_digit d \<noteq> CHR ''+''"
    unfolding char_eq_iff_nat by (simp_all add: c_isspace_def dec_digit_eq)
  then have "c_number (dec_of_nat (nat i)) = (False, c_magnitude (dec_of_nat (nat i)))"
    using d by (simp add: c_number_def)
  then show ?thesis using False by (simp add: dec_of_int_def c_magnitude_dec_of_nat)
qed

lemma strtol_dec: "- (2 ^ (w - 1)) \<le> i \<Longrightarrow> i < 2 ^ (w - 1) \<Longrightarrow> strtol_bits w (dec_of_int i) = (i, False)"
  by (auto simp: strtol_bits_def c_number_dec_of_int Let_def)

lemma strtoul_dec: "0 \<le> i \<Longrightarrow> i < 2 ^ w \<Longrightarrow> strtoul_bits w (dec_of_int i) = (i, False)"
  by (auto simp: strtoul_bits_def c_number_dec_of_int Let_def)

end
