(* ===== verification/Cmd_Nvs.thy ===== *)
theory Cmd_Nvs
  imports C_Num Argtable Nvs
begin

text \<open>
  The console commands that read and write arbitrary NVS entries (\<open>components/cmd_nvs/cmd_nvs.c\<close>).

  State of its own are the selected namespace and \<open>errno\<close> of the console task, of which only
  \<open>ERANGE\<close> matters: nothing here or in the library calls that succeed resets it. \<open>alloc n\<close> says
  whether an allocation of \<open>n\<close> bytes succeeds. \<open>char\<close> is unsigned. Commands return their exit code and
  what they print, or abort (\<open>ESP_ERROR_CHECK\<close>); the error log is left out.
\<close>

section \<open>Types\<close>

definition type_str_pair :: "(nvs_type \<times> string) list" where
  "type_str_pair =
    [(NVS_TYPE_I8, ''i8''), (NVS_TYPE_U8, ''u8''), (NVS_TYPE_U16, ''u16''), (NVS_TYPE_I16, ''i16''),
     (NVS_TYPE_U32, ''u32''), (NVS_TYPE_I32, ''i32''), (NVS_TYPE_U64, ''u64''), (NVS_TYPE_I64, ''i64''),
     (NVS_TYPE_STR, ''str''), (NVS_TYPE_BLOB, ''blob''), (NVS_TYPE_ANY, ''any'')]"

definition ARG_TYPE_STR :: string where
  "ARG_TYPE_STR = ''type can be: i8, u8, i16, u16 i32, u32 i64, u64, str, blob''"

record nvs_cli =
  current_namespace :: string
  errno_range :: bool

definition nvs_cli_boot :: nvs_cli where
  "nvs_cli_boot = \<lparr>current_namespace = ''storage'', errno_range = False\<rparr>"

definition str_to_type :: "string \<Rightarrow> nvs_type" where
  "str_to_type type = (case first_idx (\<lambda>p. snd p = type) type_str_pair of
       Some i \<Rightarrow> fst (type_str_pair ! i) | None \<Rightarrow> NVS_TYPE_ANY)"

definition type_to_str :: "nvs_type \<Rightarrow> string" where
  "type_to_str type = (case first_idx (\<lambda>p. fst p = type) type_str_pair of
       Some i \<Rightarrow> snd (type_str_pair ! i) | None \<Rightarrow> ''Unknown'')"

section \<open>Blobs\<close>

text \<open>The loop of \<open>store_blob\<close>: \<open>None\<close> on an invalid character.\<close>

definition blob_digit :: "char \<Rightarrow> byte option" where
  "blob_digit ch = (let n = (of_char ch :: nat) in
     if 48 \<le> n \<and> n \<le> 57 then Some (byte_of_char ch - 48)
     else if 65 \<le> n \<and> n \<le> 70 then Some (byte_of_char ch - 65 + 10)
     else if 97 \<le> n \<and> n \<le> 102 then Some (byte_of_char ch - 97 + 10) else None)"

fun blob_loop :: "string \<Rightarrow> nat \<Rightarrow> nat \<Rightarrow> byte list \<Rightarrow> byte list option" where
  "blob_loop [] i j blob = Some blob"
| "blob_loop (ch # s) i j blob = (case blob_digit ch of
       None \<Rightarrow> None
     | Some value \<Rightarrow>
         if odd i then blob_loop s (i + 1) (j + 1) (blob[j := blob ! j + value])
         else blob_loop s (i + 1) j (blob[j := push_bit 4 value]))"

definition store_blob ::
    "'f nvs_api \<Rightarrow> (nat \<Rightarrow> bool) \<Rightarrow> nvs_handle \<Rightarrow> string \<Rightarrow> string \<Rightarrow> 'f \<Rightarrow> esp_err \<times> 'f" where
  "store_blob api alloc nvs key str_values f =
     (let str_len = length str_values; blob_len = str_len div 2
      in if str_len mod 2 \<noteq> 0 then (ESP_ERR_NVS_TYPE_MISMATCH, f)
         else if \<not> alloc blob_len then (ESP_ERR_NO_MEM, f)
         else (case blob_loop str_values 0 0 (replicate blob_len 0) of
             None \<Rightarrow> (ESP_ERR_NVS_TYPE_MISMATCH, f)
           | Some blob \<Rightarrow>
               (case nvs_set api nvs key (NvBlob blob) f of (err, f1) \<Rightarrow>
                  if err = ESP_OK then nvs_commit api nvs f1 else (err, f1))))"

definition low_hex_digit :: "nat \<Rightarrow> char" where
  "low_hex_digit n = (if n < 10 then char_of (48 + n) else char_of (87 + n))"

definition print_blob :: "byte list \<Rightarrow> string" where
  "print_blob b = concat (map (\<lambda>x. [low_hex_digit (unat x div 16), low_hex_digit (unat x mod 16)]) b) @ [newline]"

section \<open>Setting a value\<close>

text \<open>
  The branch of one type: whether the value is out of the range checked here, the new \<open>errno\<close>, and the
  write, which is skipped (with \<open>err\<close> still \<open>ESP_OK\<close>) when the number cannot be represented.
\<close>

definition store_number ::
    "(int \<Rightarrow> bool) \<Rightarrow> (int \<Rightarrow> nvs_value) \<Rightarrow> int \<times> bool \<Rightarrow> bool \<Rightarrow> 'f nvs_api \<Rightarrow> nvs_handle \<Rightarrow> string \<Rightarrow> 'f \<Rightarrow>
     bool \<times> bool \<times> esp_err \<times> 'f" where
  "store_number fits mk parsed errno api nvs key f = (case parsed of (value, ovf) \<Rightarrow>
     let errno1 = errno \<or> ovf
     in if \<not> fits value \<or> errno1 then (\<not> fits value \<or> errno1, errno1, ESP_OK, f)
        else (case nvs_set api nvs key (mk value) f of (err, f1) \<Rightarrow> (False, errno1, err, f1)))"

definition set_branch ::
    "'f nvs_api \<Rightarrow> (nat \<Rightarrow> bool) \<Rightarrow> nvs_type \<Rightarrow> nvs_handle \<Rightarrow> string \<Rightarrow> string \<Rightarrow> bool \<Rightarrow> 'f \<Rightarrow> bool \<times> bool \<times> esp_err \<times> 'f" where
  "set_branch api alloc type nvs key str_value errno f = (case type of
       NVS_TYPE_I8 \<Rightarrow> store_number (\<lambda>v. -128 \<le> v \<and> v \<le> 127) (\<lambda>v. NvI8 (word_of_int v)) (strtol_bits 32 str_value) errno api nvs key f
     | NVS_TYPE_U8 \<Rightarrow> store_number (\<lambda>v. v \<le> 255) (\<lambda>v. NvU8 (word_of_int v)) (strtoul_bits 32 str_value) errno api nvs key f
     | NVS_TYPE_I16 \<Rightarrow> store_number (\<lambda>v. -32768 \<le> v \<and> v \<le> 32767) (\<lambda>v. NvI16 (word_of_int v)) (strtol_bits 32 str_value) errno api nvs key f
     | NVS_TYPE_U16 \<Rightarrow> store_number (\<lambda>v. v \<le> 65535) (\<lambda>v. NvU16 (word_of_int v)) (strtoul_bits 32 str_value) errno api nvs key f
     | NVS_TYPE_I32 \<Rightarrow> store_number (\<lambda>v. True) (\<lambda>v. NvI32 (word_of_int v)) (strtol_bits 32 str_value) errno api nvs key f
     | NVS_TYPE_U32 \<Rightarrow> store_number (\<lambda>v. True) (\<lambda>v. NvU32 (word_of_int v)) (strtoul_bits 32 str_value) errno api nvs key f
     | NVS_TYPE_I64 \<Rightarrow> store_number (\<lambda>v. True) (\<lambda>v. NvI64 (word_of_int v)) (strtol_bits 64 str_value) errno api nvs key f
     | NVS_TYPE_U64 \<Rightarrow> store_number (\<lambda>v. True) (\<lambda>v. NvU64 (word_of_int v)) (strtoul_bits 64 str_value) errno api nvs key f
     | NVS_TYPE_STR \<Rightarrow> (case nvs_set api nvs key (NvStr str_value) f of (err, f1) \<Rightarrow> (False, errno, err, f1))
     | NVS_TYPE_BLOB \<Rightarrow> (case store_blob api alloc nvs key str_value f of (err, f1) \<Rightarrow> (False, errno, err, f1))
     | NVS_TYPE_ANY \<Rightarrow> (False, errno, ESP_OK, f))"

definition set_value_in_nvs ::
    "'f nvs_api \<Rightarrow> (nat \<Rightarrow> bool) \<Rightarrow> string \<Rightarrow> string \<Rightarrow> string \<Rightarrow> nvs_cli \<Rightarrow> 'f plat \<Rightarrow> esp_err \<times> nvs_cli \<times> 'f plat" where
  "set_value_in_nvs api alloc key str_type str_value c p =
     (let type = str_to_type str_type
      in if type = NVS_TYPE_ANY then (ESP_ERR_NVS_TYPE_MISMATCH, c, p)
         else (case nvs_open api (current_namespace c) NVS_READWRITE (pflash p) of (err, nvs, f1) \<Rightarrow>
           if err \<noteq> ESP_OK then (err, c, p\<lparr>pflash := f1\<rparr>)
           else (case set_branch api alloc type nvs key str_value (errno_range c) f1 of (range_error, errno, err1, f2) \<Rightarrow>
             let c1 = c\<lparr>errno_range := errno\<rparr>
             in if range_error \<or> errno then (ESP_ERR_NVS_VALUE_TOO_LONG, c1, p\<lparr>pflash := nvs_close api nvs f2\<rparr>)
                else (case (if err1 = ESP_OK then nvs_commit api nvs f2 else (err1, f2)) of (err2, f3) \<Rightarrow>
                  (err2, c1, p\<lparr>pflash := nvs_close api nvs f3\<rparr>)))))"

section \<open>Printing a value\<close>

text \<open>The output for a value that was read; an \<open>int16_t\<close> is printed with \<open>%u\<close>.\<close>

definition printed_value :: "nvs_value \<Rightarrow> string" where
  "printed_value v = (case v of
       NvI8 w \<Rightarrow> dec_of_int (sint w) @ [newline]
     | NvU8 w \<Rightarrow> dec_of_int (uint w) @ [newline]
     | NvI16 w \<Rightarrow> dec_of_int (uint (scast w :: u32)) @ [newline]
     | NvU16 w \<Rightarrow> dec_of_int (uint w) @ [newline]
     | NvI32 w \<Rightarrow> dec_of_int (sint w) @ [newline]
     | NvU32 w \<Rightarrow> dec_of_int (uint w) @ [newline]
     | NvI64 w \<Rightarrow> dec_of_int (sint w) @ [newline]
     | NvU64 w \<Rightarrow> dec_of_int (uint w) @ [newline]
     | NvStr s \<Rightarrow> s @ [newline]
     | NvBlob b \<Rightarrow> print_blob b)"

definition read_value_of_type :: "'f nvs_api \<Rightarrow> nvs_type \<Rightarrow> nvs_handle \<Rightarrow> string \<Rightarrow> 'f \<Rightarrow> esp_err + nvs_value" where
  "read_value_of_type api type nvs key f =
     (if type = NVS_TYPE_STR \<or> type = NVS_TYPE_BLOB
      then (case nvs_len api nvs key type f of Inl e \<Rightarrow> Inl e | Inr len \<Rightarrow> nvs_get api nvs key type len f)
      else nvs_get api nvs key type 0 f)"

definition get_value_from_nvs ::
    "'f nvs_api \<Rightarrow> string \<Rightarrow> string \<Rightarrow> nvs_cli \<Rightarrow> 'f plat \<Rightarrow> esp_err \<times> string \<times> 'f plat" where
  "get_value_from_nvs api key str_type c p =
     (let type = str_to_type str_type
      in if type = NVS_TYPE_ANY then (ESP_ERR_NVS_TYPE_MISMATCH, [], p)
         else (case nvs_open api (current_namespace c) NVS_READONLY (pflash p) of (err, nvs, f1) \<Rightarrow>
           if err \<noteq> ESP_OK then (err, [], p\<lparr>pflash := f1\<rparr>)
           else
             let closed = p\<lparr>pflash := nvs_close api nvs f1\<rparr>
             in (case read_value_of_type api type nvs key f1 of
                  Inl e \<Rightarrow> (e, [], closed)
                | Inr v \<Rightarrow> (ESP_OK, printed_value v, closed))))"

section \<open>Erasing\<close>

definition erase :: "'f nvs_api \<Rightarrow> string \<Rightarrow> nvs_cli \<Rightarrow> 'f plat \<Rightarrow> esp_err \<times> 'f plat" where
  "erase api key c p =
     (case nvs_open api (current_namespace c) NVS_READWRITE (pflash p) of (err, nvs, f1) \<Rightarrow>
        if err = ESP_OK then
          (case nvs_erase_key api nvs key f1 of (err1, f2) \<Rightarrow>
            (case (if err1 = ESP_OK then nvs_commit api nvs f2 else (err1, f2)) of (err2, f3) \<Rightarrow>
               (err2, p\<lparr>pflash := nvs_close api nvs f3\<rparr>)))
        else (err, p\<lparr>pflash := f1\<rparr>))"

text \<open>The handle is closed whether or not it was opened; the result is always \<open>ESP_OK\<close>.\<close>

definition erase_all :: "'f nvs_api \<Rightarrow> string \<Rightarrow> 'f plat \<Rightarrow> (esp_err \<times> 'f plat) cres" where
  "erase_all api name p =
     (case nvs_open api name NVS_READWRITE (pflash p) of (err, nvs, f1) \<Rightarrow>
        if err = ESP_OK then
          (case nvs_erase_all api nvs f1 of (err1, f2) \<Rightarrow>
            (case (if err1 = ESP_OK then nvs_commit api nvs f2 else (err1, f2)) of (err2, f3) \<Rightarrow>
               Inr (ESP_OK, p\<lparr>pflash := nvs_close api nvs f3\<rparr>)))
        else Inl Uninit_read)"

section \<open>Listing\<close>

text \<open>
  The iterator calls of NVS. An entry is its namespace, key and type; \<open>Aborted\<close> is the end of the
  firmware in \<open>ESP_ERROR_CHECK\<close>, with the output up to then.
\<close>

record ('f, 'i) nvs_iter =
  nvs_entry_find :: "string \<Rightarrow> string \<Rightarrow> nvs_type \<Rightarrow> 'f \<Rightarrow> esp_err \<times> 'i option"
  nvs_entry_info :: "'i \<Rightarrow> string \<times> string \<times> nvs_type"
  nvs_entry_next :: "'i \<Rightarrow> esp_err \<times> 'i option"

datatype 'a outcome = Returned 'a | Aborted string

definition entry_line :: "string \<times> string \<times> nvs_type \<Rightarrow> string" where
  "entry_line info = (case info of (ns, key, type) \<Rightarrow>
     ''namespace '' @ [CHR 0x27] @ ns @ [CHR 0x27] @ '', key '' @ [CHR 0x27] @ key @ [CHR 0x27] @
     '', type '' @ [CHR 0x27] @ type_to_str type @ [CHR 0x27] @ '' '' @ [newline])"

partial_function (option) list_loop ::
    "('f, 'i) nvs_iter \<Rightarrow> 'i \<Rightarrow> string \<Rightarrow> (nat \<times> string) outcome option" where
  "list_loop iter it out =
     (case nvs_entry_next iter it of (err, it1) \<Rightarrow>
        if err \<noteq> ESP_OK then Some (Aborted out)
        else
          let out1 = out @ entry_line (nvs_entry_info iter it)
          in (case it1 of None \<Rightarrow> Some (Returned (0, out1)) | Some i \<Rightarrow> list_loop iter i out1))"

definition list_nvs ::
    "('f, 'i) nvs_iter \<Rightarrow> string \<Rightarrow> string \<Rightarrow> string \<Rightarrow> 'f plat \<Rightarrow> (nat \<times> string) outcome option" where
  "list_nvs iter part name str_type p =
     (case nvs_entry_find iter part name NVS_TYPE_ANY (pflash p) of (err, it) \<Rightarrow>
        if err \<noteq> ESP_OK then Some (Aborted [])
        else (case it of None \<Rightarrow> Some (Returned (1, [])) | Some i \<Rightarrow> list_loop iter i []))"

section \<open>Commands\<close>

definition set_args :: "arg_entry list" where
  "set_args =
    [arg_str1 None None ''<key>'' ''key of the value to be set'',
     arg_str1 None None ''<type>'' ARG_TYPE_STR,
     arg_str1 (Some ''v'') (Some ''value'') ''<value>'' ''value to be stored'']"

definition get_args :: "arg_entry list" where
  "get_args =
    [arg_str1 None None ''<key>'' ''key of the value to be read'',
     arg_str1 None None ''<type>'' ARG_TYPE_STR]"

definition erase_args :: "arg_entry list" where
  "erase_args = [arg_str1 None None ''<key>'' ''key of the value to be erased'']"

definition erase_all_args :: "arg_entry list" where
  "erase_all_args = [arg_str1 None None ''<namespace>'' ''namespace to be erased'']"

definition namespace_args :: "arg_entry list" where
  "namespace_args = [arg_str1 None None ''<namespace>'' ''namespace of the partition to be selected'']"

definition list_args :: "arg_entry list" where
  "list_args =
    [arg_str1 None None ''<partition>'' ''partition name'',
     arg_str0 (Some ''n'') (Some ''namespace'') ''<namespace>'' ''namespace name'',
     arg_str0 (Some ''t'') (Some ''type'') ''<type>'' ARG_TYPE_STR]"

definition exit_code :: "esp_err \<Rightarrow> nat" where
  "exit_code err = (if err \<noteq> ESP_OK then 1 else 0)"

definition set_value ::
    "'f nvs_api \<Rightarrow> (nat \<Rightarrow> bool) \<Rightarrow> arg_parse \<Rightarrow> string list \<Rightarrow> nvs_cli \<Rightarrow> 'f plat \<Rightarrow> nat \<times> nvs_cli \<times> 'f plat" where
  "set_value api alloc parse argv c p = (case parse set_args argv of
       Some [key, type, values] \<Rightarrow>
         (case set_value_in_nvs api alloc (sval key) (sval type) (sval values) c p of (err, c1, p1) \<Rightarrow>
            (exit_code err, c1, p1))
     | _ \<Rightarrow> (1, c, p))"

definition get_value :: "'f nvs_api \<Rightarrow> arg_parse \<Rightarrow> string list \<Rightarrow> nvs_cli \<Rightarrow> 'f plat \<Rightarrow> nat \<times> string \<times> 'f plat" where
  "get_value api parse argv c p = (case parse get_args argv of
       Some [key, type] \<Rightarrow>
         (case get_value_from_nvs api (sval key) (sval type) c p of (err, out, p1) \<Rightarrow> (exit_code err, out, p1))
     | _ \<Rightarrow> (1, [], p))"

definition erase_value :: "'f nvs_api \<Rightarrow> arg_parse \<Rightarrow> string list \<Rightarrow> nvs_cli \<Rightarrow> 'f plat \<Rightarrow> nat \<times> 'f plat" where
  "erase_value api parse argv c p = (case parse erase_args argv of
       Some [key] \<Rightarrow> (case erase api (sval key) c p of (err, p1) \<Rightarrow> (exit_code err, p1))
     | _ \<Rightarrow> (1, p))"

definition erase_namespace :: "'f nvs_api \<Rightarrow> arg_parse \<Rightarrow> string list \<Rightarrow> 'f plat \<Rightarrow> (nat \<times> 'f plat) cres" where
  "erase_namespace api parse argv p = (case parse erase_all_args argv of
       Some [name] \<Rightarrow> bindE (erase_all api (sval name) p) (\<lambda>(err, p1). Inr (exit_code err, p1))
     | _ \<Rightarrow> Inr (1, p))"

definition set_namespace :: "arg_parse \<Rightarrow> string list \<Rightarrow> nvs_cli \<Rightarrow> nat \<times> nvs_cli" where
  "set_namespace parse argv c = (case parse namespace_args argv of
       Some [name] \<Rightarrow> (0, c\<lparr>current_namespace := strlcpy 16 (sval name)\<rparr>)
     | _ \<Rightarrow> (1, c))"

definition list_entries ::
    "('f, 'i) nvs_iter \<Rightarrow> arg_parse \<Rightarrow> string list \<Rightarrow> 'f plat \<Rightarrow> (nat \<times> string) outcome option" where
  "list_entries iter parse argv p = (case parse list_args argv of
       Some [part, name, type] \<Rightarrow> list_nvs iter (sval part) (sval name) (sval type) p
     | _ \<Rightarrow> Some (Returned (1, [])))"

section \<open>The command table\<close>

datatype nvs_cmd = Nvs_set | Nvs_get | Nvs_erase | Nvs_namespace | Nvs_list | Nvs_erase_namespace

definition register_nvs :: "(string \<times> string \<times> nvs_cmd \<times> arg_entry list) list" where
  "register_nvs =
    [(''nvs_set'', ''Set key-value pair in selected namespace.'' @ [newline] @ ''Examples:'' @ [newline] @
        '' nvs_set VarName i32 -v 123 '' @ [newline] @ '' nvs_set VarName str -v YourString '' @ [newline] @
        '' nvs_set VarName blob -v 0123456789abcdef '' @ [newline], Nvs_set, set_args),
     (''nvs_get'', ''Get key-value pair from selected namespace. '' @ [newline] @
        ''Example: nvs_get VarName i32'', Nvs_get, get_args),
     (''nvs_erase'', ''Erase key-value pair from current namespace'', Nvs_erase, erase_args),
     (''nvs_namespace'', ''Set current namespace'', Nvs_namespace, namespace_args),
     (''nvs_list'', ''List stored key-value pairs stored in NVS.'' @
        ''Namespace and type can be specified to print only those key-value pairs.'' @ [newline] @
        ''Following command list variables stored inside 'nvs' partition, under namespace 'storage' with type uint32_t'' @
        ''Example: nvs_list nvs -n storage -t u32 '' @ [newline], Nvs_list, list_args),
     (''nvs_erase_namespace'', ''Erases specified namespace'', Nvs_erase_namespace, erase_all_args)]"

end
