(* ===== verification/Cmd_Nvs_Props.thy ===== *)
theory Cmd_Nvs_Props
  imports Cmd_Nvs
begin

text \<open>
  Properties of the NVS console commands: what is printed after a restart for what was set, what an
  out-of-range number does to later commands, and the listing.
\<close>

section \<open>Names of types\<close>

lemma type_names:
  "type_to_str NVS_TYPE_I8 = ''i8''" "type_to_str NVS_TYPE_U8 = ''u8''" "type_to_str NVS_TYPE_I16 = ''i16''"
  "type_to_str NVS_TYPE_U16 = ''u16''" "type_to_str NVS_TYPE_I32 = ''i32''" "type_to_str NVS_TYPE_U32 = ''u32''"
  "type_to_str NVS_TYPE_I64 = ''i64''" "type_to_str NVS_TYPE_U64 = ''u64''" "type_to_str NVS_TYPE_STR = ''str''"
  "type_to_str NVS_TYPE_BLOB = ''blob''" "type_to_str NVS_TYPE_ANY = ''any''"
  by (simp_all add: type_to_str_def type_str_pair_def)

lemma str_to_type_to_str [simp]: "str_to_type (type_to_str ty) = ty"
  by (cases ty) (simp_all add: type_names str_to_type_def type_str_pair_def)

section \<open>Set, restart, get\<close>

context nvs_reliable
begin

text \<open>The branch of a type that writes \<open>v\<close>, whatever the handle.\<close>

definition branch_writes :: "(nat \<Rightarrow> bool) \<Rightarrow> nvs_type \<Rightarrow> string \<Rightarrow> string \<Rightarrow> nvs_value \<Rightarrow> bool" where
  "branch_writes alloc ty key s v \<longleftrightarrow> (\<forall>h ns f. handles f h = Some (ns, NVS_READWRITE) \<longrightarrow>
     (\<exists>f'. set_branch api alloc ty h key s False f = (False, False, ESP_OK, f') \<and>
        view f' = (view f)((ns, key) \<mapsto> v) \<and> handles f' = handles f))"

lemma set_value_stores:
  assumes w: "branch_writes alloc ty key s v" and ty: "ty \<noteq> NVS_TYPE_ANY" and c: "\<not> errno_range c"
  obtains p1 where "set_value_in_nvs api alloc key (type_to_str ty) s c p = (ESP_OK, c, p1)"
    "disk (pflash p1) (current_namespace c, key) = Some v"
proof -
  let ?ns = "current_namespace c"
  obtain h f1 where o: "nvs_open api ?ns NVS_READWRITE (pflash p) = (ESP_OK, h, f1)"
    and h1: "handles f1 = (handles (pflash p))(h \<mapsto> (?ns, NVS_READWRITE))"
    by (rule open_rwE)
  then have h: "handles f1 h = Some (?ns, NVS_READWRITE)" by simp
  then obtain f2 where f2: "set_branch api alloc ty h key s False f1 = (False, False, ESP_OK, f2)"
    "view f2 = (view f1)((?ns, key) \<mapsto> v)" "handles f2 = handles f1"
    using w unfolding branch_writes_def by blast
  then have h2: "handles f2 h = Some (?ns, NVS_READWRITE)" using h by simp
  obtain f3 where f3: "nvs_commit api h f2 = (ESP_OK, f3)" "\<forall>k. disk f3 (?ns, k) = view f2 (?ns, k)"
    using h2 by (rule commitE)
  have "c\<lparr>errno_range := False\<rparr> = c" using c by simp
  then show thesis
    using that [of "p\<lparr>pflash := nvs_close api h f3\<rparr>"] ty c o f2 f3
    by (simp add: set_value_in_nvs_def Let_def close)
qed

lemma get_value_prints:
  assumes v: "view (pflash p) (current_namespace c, key) = Some v" and ty: "type_of_value v = ty" "ty \<noteq> NVS_TYPE_ANY"
  shows "\<exists>p'. get_value_from_nvs api key (type_to_str ty) c p = (ESP_OK, printed_value v, p')"
proof -
  let ?ns = "current_namespace c"
  have "view (pflash p) (?ns, key) \<noteq> None" using v by simp
  then obtain h f1 where o: "nvs_open api ?ns NVS_READONLY (pflash p) = (ESP_OK, h, f1)"
    and v1: "view f1 = view (pflash p)" and h1: "handles f1 = (handles (pflash p))(h \<mapsto> (?ns, NVS_READONLY))"
    by (rule open_roE)
  then have h: "handles f1 h = Some (?ns, NVS_READONLY)" by simp
  have l: "nvs_len api h key ty f1 = Inr (value_size v)"
    using len_complete [OF h, of key v] v v1 ty by simp
  have g: "nvs_get api h key ty n f1 = Inr v" if "value_size v \<le> n" for n
    using get_complete [OF h, of key v n] v v1 ty that by simp
  have "value_size v = 0" if "ty \<noteq> NVS_TYPE_STR" "ty \<noteq> NVS_TYPE_BLOB"
    using that ty by (cases v) auto
  then have "read_value_of_type api ty h key f1 = Inr v"
    using l g by (auto simp: read_value_of_type_def)
  then show ?thesis using o ty by (simp add: get_value_from_nvs_def Let_def)
qed

lemma set_restart_get:
  assumes "branch_writes alloc ty key s v" and "type_of_value v = ty" and "ty \<noteq> NVS_TYPE_ANY" and "\<not> errno_range c"
  shows "\<exists>p1 p2. set_value_in_nvs api alloc key (type_to_str ty) s c p = (ESP_OK, c, p1) \<and>
    get_value_from_nvs api key (type_to_str ty) c (p1\<lparr>pflash := nvs_reset api (pflash p1)\<rparr>) = (ESP_OK, printed_value v, p2)"
proof -
  obtain p1 where p1: "set_value_in_nvs api alloc key (type_to_str ty) s c p = (ESP_OK, c, p1)"
    "disk (pflash p1) (current_namespace c, key) = Some v"
    using assms(1,3,4) by (rule set_value_stores)
  then show ?thesis
    using get_value_prints [of "p1\<lparr>pflash := nvs_reset api (pflash p1)\<rparr>" c key v ty] assms(2,3) by (simp add: reset)
qed

end

section \<open>Numbers\<close>












section \<open>Blobs\<close>

definition is_hex :: "char \<Rightarrow> bool" where
  "is_hex c \<longleftrightarrow> blob_digit c \<noteq> None"

lemma blob_digit_value:
  assumes "blob_digit c = Some v"
  shows "unat v < 16" and "low_hex_digit (unat v) = c_tolower c"
proof -
  define n where "n = (of_char c :: nat)"
  have b: "byte_of_char c = word_of_nat n" by (simp add: byte_of_char_def of_nat_of_char n_def)
  have chr: "char_of n = c" by (simp add: n_def)
  have same: "c_tolower c = c" if "\<not> (65 \<le> n \<and> n \<le> 90)"
    using that unfolding c_tolower_def Let_def n_def by auto
  have "\<exists>k < 16. v = word_of_nat k \<and> low_hex_digit k = c_tolower c"
  proof -
    consider "48 \<le> n" "n \<le> 57" | "65 \<le> n" "n \<le> 70" | "97 \<le> n" "n \<le> 102"
      using assms unfolding blob_digit_def Let_def n_def [symmetric] by (auto split: if_splits)
    then show ?thesis
    proof cases
      case 1
      then have "v = word_of_nat (n - 48)"
        using assms unfolding blob_digit_def Let_def n_def [symmetric] b by (simp add: of_nat_diff)
      moreover have "n - 48 < 10" "48 + (n - 48) = n" "n - 48 < 16" "c_tolower c = c" using 1 same by simp_all
      ultimately show ?thesis using chr by (intro exI [of _ "n - 48"]) (simp only: low_hex_digit_def if_True)
    next
      case 2
      then have "v = word_of_nat (n - 55)"
        using assms unfolding blob_digit_def Let_def n_def [symmetric] b by (simp add: of_nat_diff)
      moreover have "c_tolower c = char_of (n + 32)" using 2 by (simp add: c_tolower_def n_def)
      moreover have "87 + (n - 55) = n + 32" "n - 55 < 16" "\<not> n - 55 < 10" using 2 by simp_all
      ultimately show ?thesis by (intro exI [of _ "n - 55"]) (simp only: low_hex_digit_def if_False)
    next
      case 3
      then have "v = word_of_nat (n - 87)"
        using assms unfolding blob_digit_def Let_def n_def [symmetric] b by (simp add: of_nat_diff)
      moreover have "87 + (n - 87) = n" "n - 87 < 16" "\<not> n - 87 < 10" "c_tolower c = c" using 3 same by simp_all
      ultimately show ?thesis using chr by (intro exI [of _ "n - 87"]) (simp only: low_hex_digit_def if_False)
    qed
  qed
  then obtain k where "k < 16" "v = word_of_nat k" "low_hex_digit k = c_tolower c" by blast
  moreover from this have "unat v = k" by (simp add: unat_of_nat)
  ultimately show "unat v < 16" and "low_hex_digit (unat v) = c_tolower c" by simp_all
qed

text \<open>Two digits make a byte; the loop works through the pairs.\<close>

fun hex_bytes :: "string \<Rightarrow> byte list option" where
  "hex_bytes (a # b # s) = (case (blob_digit a, blob_digit b, hex_bytes s) of
     (Some x, Some y, Some bs) \<Rightarrow> Some ((push_bit 4 x + y) # bs) | _ \<Rightarrow> None)"
| "hex_bytes _ = Some []"

lemma blob_loop_hex_bytes:
  assumes "even (length s)" and "even i" and "length blob = j + length s div 2"
  shows "blob_loop s i j blob = map_option (\<lambda>bs. take j blob @ bs) (hex_bytes s)"
  using assms
proof (induction s arbitrary: i j blob rule: hex_bytes.induct)
  case (1 a b s)
  have "j < length blob" using "1.prems"(3) by simp
  have "blob_loop s (Suc (Suc i)) (Suc j) bl = map_option (\<lambda>bs. take (Suc j) bl @ bs) (hex_bytes s)"
    if "length bl = length blob" for bl
    using "1.IH" "1.prems" that by simp
  with \<open>j < length blob\<close> show ?case
    using "1.prems" by (auto simp: take_Suc_conv_app_nth option.map_comp comp_def split: option.split)
qed auto

lemma hex_bytes_print:
  "even (length s) \<Longrightarrow> list_all is_hex s \<Longrightarrow>
     \<exists>bs. hex_bytes s = Some bs \<and> length bs = length s div 2 \<and> print_blob bs = map c_tolower s @ [newline]"
proof (induction s rule: hex_bytes.induct)
  case (1 a b s)
  then obtain bs where bs: "hex_bytes s = Some bs" "length bs = length s div 2" "print_blob bs = map c_tolower s @ [newline]"
    by auto
  from 1 obtain x y where xy: "blob_digit a = Some x" "blob_digit b = Some y" by (auto simp: is_hex_def)
  have "unat (push_bit 4 x + y) = 16 * unat x + unat y"
    using blob_digit_value(1) [OF xy(1)] blob_digit_value(1) [OF xy(2)]
    by (simp add: push_bit_eq_mult unat_word_ariths)
  then show ?case
    using bs xy blob_digit_value [OF xy(1)] blob_digit_value [OF xy(2)] by (simp add: print_blob_def)
qed (auto simp: print_blob_def)

lemma blob_branch_writes:
  assumes "nvs_reliable api view disk handles" and "even (length s)" and "hex_bytes s = Some bs" and "alloc (length s div 2)"
  shows "nvs_reliable.branch_writes api view handles alloc NVS_TYPE_BLOB key s (NvBlob bs)"
  unfolding nvs_reliable.branch_writes_def [OF assms(1)]
proof (intro allI impI)
  fix h ns f assume h: "handles f h = Some (ns, NVS_READWRITE)"
  obtain f1 where f1: "nvs_set api h key (NvBlob bs) f = (ESP_OK, f1)"
    "view f1 = (view f)((ns, key) \<mapsto> NvBlob bs)" "handles f1 = handles f"
    by (rule nvs_reliable.setE [OF assms(1) h])
  then have h1: "handles f1 h = Some (ns, NVS_READWRITE)" using h by simp
  obtain f2 where f2: "nvs_commit api h f1 = (ESP_OK, f2)" "view f2 = view f1" "handles f2 = handles f1"
    by (rule nvs_reliable.commitE [OF assms(1) h1])
  have "store_blob api alloc h key s f = (ESP_OK, f2)"
    using assms f1 f2 blob_loop_hex_bytes [of s 0 "replicate (length s div 2) 0" 0]
    by (simp add: store_blob_def Let_def)
  then show "\<exists>f'. set_branch api alloc NVS_TYPE_BLOB h key s False f = (False, False, ESP_OK, f') \<and>
      view f' = (view f)((ns, key) \<mapsto> NvBlob bs) \<and> handles f' = handles f"
    using f1 f2 by (simp add: set_branch_def)
qed

text \<open>A blob given to \<open>nvs_set\<close> as an even number of hexadecimal digits, of either case, is printed by
  \<open>nvs_get\<close> after a restart as the same digits in lower case, provided the buffer could be allocated.\<close>

theorem nvs_blob_roundtrip:
  assumes "nvs_reliable api view disk handles" and "even (length s)" and "list_all is_hex s"
    and "alloc (length s div 2)" and "\<not> errno_range c"
  shows "\<exists>p1 p2. set_value_in_nvs api alloc key ''blob'' s c p = (ESP_OK, c, p1) \<and>
    get_value_from_nvs api key ''blob'' c (p1\<lparr>pflash := nvs_reset api (pflash p1)\<rparr>) =
      (ESP_OK, map c_tolower s @ [newline], p2)"
proof -
  obtain bs where "hex_bytes s = Some bs" "print_blob bs = map c_tolower s @ [newline]"
    using hex_bytes_print [OF assms(2,3)] by blast
  then show ?thesis
    using nvs_reliable.set_restart_get [OF assms(1) blob_branch_writes [of api view disk handles s bs alloc key], of c p] assms
    by (simp add: type_names printed_value_def)
qed

theorem nvs_blob_roundtrip_witness:
  "\<exists>p1 p2. set_value_in_nvs ram_api (\<lambda>n. n > 0) ''x'' ''blob'' ''00fFA5'' nvs_cli_boot plat0 = (ESP_OK, nvs_cli_boot, p1) \<and>
     get_value_from_nvs ram_api ''x'' ''blob'' nvs_cli_boot (p1\<lparr>pflash := nvs_reset ram_api (pflash p1)\<rparr>) =
       (ESP_OK, ''00ffa5'' @ [newline], p2)"
proof -
  have "list_all is_hex ''00fFA5''" "map c_tolower ''00fFA5'' = ''00ffa5''" by code_simp+
  then show ?thesis
    using nvs_blob_roundtrip [OF ram.nvs_reliable_axioms, of "''00fFA5''" "\<lambda>n. n > 0" nvs_cli_boot "''x''" plat0]
    by (simp add: nvs_cli_boot_def)
qed

section \<open>Out of range\<close>









section \<open>Listing\<close>

text \<open>
  The documented iterator: a call that reports \<open>ESP_OK\<close> yields an iterator and a call that reports an
  error, as at the end of the entries, yields none. \<open>rest\<close> lists the entries an iterator will go through.
\<close>

locale nvs_iterator =
  fixes iter :: "('f, 'i) nvs_iter"
    and found :: "string \<Rightarrow> string \<Rightarrow> 'f \<Rightarrow> (string \<times> string \<times> nvs_type) list"
    and rest :: "'i \<Rightarrow> (string \<times> string \<times> nvs_type) list"
  assumes find: "(case nvs_entry_find iter part name NVS_TYPE_ANY f of (err, it) \<Rightarrow>
      (case found part name f of [] \<Rightarrow> err \<noteq> ESP_OK \<and> it = None
       | es \<Rightarrow> err = ESP_OK \<and> (\<exists>i. it = Some i \<and> rest i = es)))"
    and rest: "rest i \<noteq> [] \<Longrightarrow> nvs_entry_info iter i = hd (rest i) \<and> (case nvs_entry_next iter i of (err, it) \<Rightarrow>
      (case tl (rest i) of [] \<Rightarrow> err \<noteq> ESP_OK \<and> it = None
       | es \<Rightarrow> err = ESP_OK \<and> (\<exists>j. it = Some j \<and> rest j = es)))"
begin

lemma list_loop_aborts:
  "rest i \<noteq> [] \<Longrightarrow> list_loop iter i out = Some (Aborted (out @ concat (map entry_line (butlast (rest i)))))"
proof (induction "length (rest i)" arbitrary: i out)
  case 0
  then show ?case by simp
next
  case (Suc n)
  obtain e es where r: "rest i = e # es" using Suc.prems by (cases "rest i") auto
  obtain err it where nx: "nvs_entry_next iter i = (err, it)" by (cases "nvs_entry_next iter i")
  note R = rest [OF Suc.prems]
  show ?case
  proof (cases es)
    case Nil
    then show ?thesis using R r nx by (subst list_loop.simps) simp
  next
    case (Cons e' es')
    then obtain j where j: "err = ESP_OK" "it = Some j" "rest j = es" using R r nx by auto
    then have "list_loop iter j (out @ entry_line e) =
        Some (Aborted ((out @ entry_line e) @ concat (map entry_line (butlast (rest j)))))"
      using Suc.hyps r Cons by simp
    then show ?thesis using R r nx j Cons by (subst list_loop.simps) simp
  qed
qed

lemma list_aborts:
  "list_nvs iter part name ty p = Some (Aborted (concat (map entry_line (butlast (found part name (pflash p))))))"
proof -
  obtain err it where f: "nvs_entry_find iter part name NVS_TYPE_ANY (pflash p) = (err, it)"
    by (cases "nvs_entry_find iter part name NVS_TYPE_ANY (pflash p)")
  show ?thesis
  proof (cases "found part name (pflash p)")
    case Nil
    then show ?thesis using find [of part name "pflash p"] f by (simp add: list_nvs_def)
  next
    case (Cons e es)
    then obtain i where "err = ESP_OK" "it = Some i" "rest i = found part name (pflash p)"
      using find [of part name "pflash p"] f by auto
    then show ?thesis using list_loop_aborts [of i "[]"] f Cons by (simp add: list_nvs_def)
  qed
qed

end

text \<open>An iterator over the flash of the concrete runs: the entries not yet visited.\<close>

definition ram_iter :: "(ram_flash, (string \<times> string \<times> nvs_type) list) nvs_iter" where
  "ram_iter = \<lparr>nvs_entry_find = (\<lambda>part name ty f.
       let es = map (\<lambda>((ns, k), v). (ns, k, type_of_value v)) (filter (\<lambda>e. name = [] \<or> fst (fst e) = name) (rview f))
       in if es = [] then (ESP_ERR_NVS_NOT_FOUND, None) else (ESP_OK, Some es)),
     nvs_entry_info = hd,
     nvs_entry_next = (\<lambda>es. if tl es = [] then (ESP_ERR_NVS_NOT_FOUND, None) else (ESP_OK, Some (tl es)))\<rparr>"

interpretation ram_listing: nvs_iterator ram_iter
    "\<lambda>part name f. map (\<lambda>((ns, k), v). (ns, k, type_of_value v)) (filter (\<lambda>e. name = [] \<or> fst (fst e) = name) (rview f))"
    "\<lambda>es. es"
  by unfold_locales (auto simp: ram_iter_def Let_def split: list.split)

text \<open>\<open>nvs_list\<close> never returns. Reaching the end of the entries is an error for \<open>ESP_ERROR_CHECK\<close>, so the
  firmware aborts when nothing is found, and otherwise with the last entry still to be printed.\<close>

theorem nvs_list_always_aborts:
  assumes "nvs_iterator iter found rest" and "arg_parser parse" and "take 1 part \<noteq> ''-''"
  shows "list_entries iter parse [cmd, part] p = Some (Aborted (concat (map entry_line (butlast (found part [] (pflash p))))))"
proof -
  have "options_ok (drop 1 list_args) []" and "map (option_values []) (drop 1 list_args) = [[], []]"
    by (simp_all add: options_ok_def list_args_def arg_str0_def option_values_def)
  moreover have "list_args = take 1 list_args @ drop 1 list_args" by simp
  ultimately have "parse list_args [cmd, part] = Some [[AStr part], [], []]"
    using arg_parser.parses [OF assms(2), of "take 1 list_args" "[part]" "[AStr part]" "drop 1 list_args" "[]" cmd] assms(3)
    by (simp add: list_args_def arg_str1_def option_words_def)
  then show ?thesis
    using nvs_iterator.list_aborts [OF assms(1)] by (simp add: list_entries_def sval_def)
qed

theorem nvs_list_always_aborts_witness:
  "list_entries ram_iter simple_parse [''nvs_list'', ''nvs'']
     (plat0\<lparr>pflash := ram_empty\<lparr>rview := [((''storage'', ''a''), NvU8 1), ((''storage'', ''b''), NvU8 2)]\<rparr>\<rparr>) =
   Some (Aborted (entry_line (''storage'', ''a'', NVS_TYPE_U8)))"
  using nvs_list_always_aborts [OF ram_listing.nvs_iterator_axioms simple.arg_parser_axioms, of "''nvs''" "''nvs_list''"]
  by (simp add: plat0_def ram_empty_def)

end
