(* ===== verification/Http_Lib.thy ===== *)
theory Http_Lib
  imports Format
begin

text \<open>
  The libraries under the web server: requests and responses of the HTTP daemon, JSON values and
  their accessors, and the \<open>sscanf\<close> of a MAC address.

  The daemon and \<open>cJSON\<close> are third-party code, so they are parameters: a request is a record of
  what the calls on it answer, and \<open>'j json_api\<close> holds the parser and the accessors of \<open>cJSON\<close> over a
  type \<open>'j\<close> of items. A response is a value; how \<open>cJSON_Print\<close> writes a \<open>jval\<close> out is left open.
\<close>

section \<open>Requests and responses\<close>

text \<open>
  \<open>rq_recv n\<close> is the body a call with a buffer of \<open>n\<close> bytes delivers (at most \<open>n\<close>; \<open>None\<close> for a result of
  0 or less), \<open>rq_query\<close> the query string of the URL, \<open>rq_value q key n\<close> the value of a key that
  \<open>httpd_query_key_value\<close> delivers into \<open>n\<close> bytes, when it succeeds.
\<close>

record http_request =
  rq_recv :: "nat \<Rightarrow> string option"
  rq_query :: "string option"
  rq_value :: "string \<Rightarrow> string \<Rightarrow> nat \<Rightarrow> string option"

datatype jval =
    JStr string
  | JInt int
  | JBool bool
  | JArr "jval list"
  | JObj "(string \<times> jval) list"

datatype http_error = HTTPD_400_BAD_REQUEST | HTTPD_404_NOT_FOUND | HTTPD_500_INTERNAL_SERVER_ERROR

datatype response =
    Sent string
  | Sent_json jval
  | Sent_chunks "string list"
  | Sent_err http_error string
  | Redirect string

section \<open>JSON items\<close>

text \<open>
  \<open>valuedouble\<close> is the number as a fraction, numerator and positive denominator; \<open>valuestring\<close> is a
  null pointer for an item that is not a string.
\<close>

record 'j json_api =
  cJSON_Parse :: "string \<Rightarrow> 'j option"
  cJSON_GetObjectItem :: "'j \<Rightarrow> string \<Rightarrow> 'j option"
  valuestring :: "'j \<Rightarrow> string option"
  valuedouble :: "'j \<Rightarrow> int \<times> int"
  cJSON_IsTrue :: "'j \<Rightarrow> bool"

text \<open>\<open>(uint16_t)\<close> of a \<open>double\<close>: truncation towards zero, undefined when the result does not fit.\<close>

definition trunc_frac :: "int \<times> int \<Rightarrow> int" where
  "trunc_frac x = (case x of (n, d) \<Rightarrow> if n < 0 then - ((- n) div d) else n div d)"

definition u16_of_double :: "int \<times> int \<Rightarrow> u16 cres" where
  "u16_of_double x = guardE (0 \<le> trunc_frac x \<and> trunc_frac x < 65536) Conv_range (Inr (word_of_int (trunc_frac x)))"

text \<open>Receiving a body: \<open>cap\<close> bytes are asked for, then \<open>buf[ret] = 0\<close> in an array of \<open>sz\<close> bytes.\<close>

definition recv_body :: "nat \<Rightarrow> nat \<Rightarrow> http_request \<Rightarrow> string option cres" where
  "recv_body sz cap req = (case rq_recv req cap of
       None \<Rightarrow> Inr None
     | Some d \<Rightarrow> guardE (length d < sz) OOB_write (Inr (Some (cstr d))))"

text \<open>A string function on \<open>valuestring\<close>.\<close>

definition deref :: "string option \<Rightarrow> string cres" where
  "deref s = (case s of None \<Rightarrow> Inl Null_deref | Some t \<Rightarrow> Inr t)"

section \<open>Scanning a MAC address\<close>

text \<open>
  One \<open>%hhX\<close>: optional white space, sign and \<open>0x\<close>, then hexadecimal digits; the number (as \<open>strtoul\<close>
  delivers it) is cut to a byte. The result is the byte and the rest of the text.
\<close>

definition hex_char :: "char \<Rightarrow> nat option" where
  "hex_char c = (let n = (of_char c :: nat) in
     if 48 \<le> n \<and> n \<le> 57 then Some (n - 48)
     else if 65 \<le> n \<and> n \<le> 70 then Some (n - 55)
     else if 97 \<le> n \<and> n \<le> 102 then Some (n - 87) else None)"

fun hex_run :: "nat \<Rightarrow> string \<Rightarrow> nat \<times> string" where
  "hex_run acc [] = (acc, [])"
| "hex_run acc (c # s) = (case hex_char c of Some d \<Rightarrow> hex_run (16 * acc + d) s | None \<Rightarrow> (acc, c # s))"

definition strip_0x :: "string \<Rightarrow> string" where
  "strip_0x s = (case s of z # x # d # t \<Rightarrow>
      if z = CHR ''0'' \<and> (x = CHR ''x'' \<or> x = CHR ''X'') \<and> hex_char d \<noteq> None then d # t else s
    | _ \<Rightarrow> s)"

definition scan_space :: "char \<Rightarrow> bool" where
  "scan_space c \<longleftrightarrow> (let n = (of_char c :: nat) in n = 32 \<or> (9 \<le> n \<and> n \<le> 13))"

definition scan_hhX :: "string \<Rightarrow> (byte \<times> string) option" where
  "scan_hhX s0 =
     (let s1 = dropWhile scan_space s0;
          (neg, s2) = (case s1 of c # t \<Rightarrow> if c = CHR ''-'' then (True, t) else if c = CHR ''+'' then (False, t) else (False, s1)
                         | [] \<Rightarrow> (False, []));
          s3 = strip_0x s2
      in case s3 of
           [] \<Rightarrow> None
         | c # _ \<Rightarrow> if hex_char c = None then None
             else (case hex_run 0 s3 of (m, r) \<Rightarrow>
               let v = (if m \<ge> 2 ^ 32 then 2 ^ 32 - 1 else if neg then - int m else int m)
               in Some (word_of_int v, r)))"

text \<open>\<open>%hhX:%hhX:...\<close> for \<open>n\<close> bytes: those converted before the scan stops.\<close>

fun scan_mac :: "nat \<Rightarrow> string \<Rightarrow> byte list" where
  "scan_mac 0 s = []"
| "scan_mac (Suc n) s = (case scan_hhX s of
       None \<Rightarrow> []
     | Some (b, r) \<Rightarrow> b # (case r of c # t \<Rightarrow> if c = CHR '':'' then scan_mac n t else [] | [] \<Rightarrow> []))"

section \<open>Scanning what was printed\<close>

lemma hex_char_digit: "n < 16 \<Longrightarrow> hex_char (hex_digit n) = Some n"
  by (auto simp: hex_char_def hex_digit_def Let_def)

lemma hex_digit_neq: "n < 16 \<Longrightarrow> hex_digit n \<noteq> CHR ''-'' \<and> hex_digit n \<noteq> CHR ''+'' \<and>
    hex_digit n \<noteq> CHR ''x'' \<and> hex_digit n \<noteq> CHR ''X'' \<and> hex_digit n \<noteq> CHR '':'' \<and> \<not> scan_space (hex_digit n)"
  unfolding hex_digit_def char_eq_iff_nat scan_space_def Let_def by (auto split: if_splits)

lemma scan_hex2: "r = [] \<or> hex_char (hd r) = None \<Longrightarrow> scan_hhX (hex2 b @ r) = Some (b, r)"
proof -
  assume r: "r = [] \<or> hex_char (hd r) = None"
  have u: "unat b < 256" using unsigned_less [of b, where ?'a = nat] by simp
  then have n: "unat b div 16 < 16" "unat b mod 16 < 16" by auto
  have "hex_run m r = (m, r)" for m using r by (cases r) auto
  then have run: "hex_run 0 (hex2 b @ r) = (unat b, r)"
    using n by (simp add: hex2_def hex_char_digit)
  have "strip_0x (hex2 b @ r) = hex2 b @ r"
    using hex_digit_neq [OF n(2)] by (auto simp: strip_0x_def hex2_def split: list.split)
  moreover have "dropWhile scan_space (hex2 b @ r) = hex2 b @ r"
    using hex_digit_neq [OF n(1)] by (simp add: hex2_def)
  ultimately show ?thesis
    using hex_digit_neq [OF n(1)] hex_char_digit [OF n(1)] run u by (simp add: scan_hhX_def hex2_def Let_def)
qed

lemma scan_mac_string: "scan_mac (length m) (mac_string m) = m"
proof (induction m rule: mac_string.induct)
  case (2 b)
  then show ?case using scan_hex2 [of "[]" b] by simp
next
  case (3 b c bs)
  have "hex_char (CHR '':'') = None" by (simp add: hex_char_def)
  then show ?case using scan_hex2 [of "CHR '':'' # mac_string (c # bs)" b] 3 by simp
qed simp

end
