(* ===== verification/Http_Server.thy ===== *)
theory Http_Server
  imports Http_Lib Settings Service_Filter Domain_Filter Devices
begin

text \<open>
  The handlers of the web server (\<open>main/http_server.c\<close>) and the table that routes requests to them.

  A handler gets the libraries and the request, and the components it works on; it returns the error
  code for the daemon, the response and the new states. Output to the console log is left out.
\<close>

section \<open>Shared beginnings\<close>

text \<open>
  How every handler with a JSON body starts: \<open>cap\<close> bytes are received into an array of \<open>sz\<close> bytes and
  parsed; \<open>bad\<close> makes the answer to a bad request.
\<close>

definition with_json ::
    "nat \<Rightarrow> nat \<Rightarrow> string \<Rightarrow> 'j json_api \<Rightarrow> http_request \<Rightarrow> (string \<Rightarrow> 'r) \<Rightarrow> ('j \<Rightarrow> 'r cres) \<Rightarrow> 'r cres" where
  "with_json sz cap msg J req bad k = bindE (recv_body sz cap req) (\<lambda>body. case body of
       None \<Rightarrow> Inr (bad msg)
     | Some buf \<Rightarrow> (case cJSON_Parse J buf of None \<Rightarrow> Inr (bad ''Invalid JSON'') | Some json \<Rightarrow> k json))"

abbreviation bad_request :: "string \<Rightarrow> response" where
  "bad_request m \<equiv> Sent_err HTTPD_400_BAD_REQUEST m"

section \<open>Port rules\<close>

text \<open>The names the page uses for built-in services, in the order both handlers have them.\<close>

definition ui_ports :: "(string \<times> service_id) list" where
  "ui_ports = [(''tcp_80'', SVC_HTTP), (''tcp_443'', SVC_HTTPS), (''udp_53'', SVC_DNS), (''tcp_22'', SVC_SSH),
     (''tcp_21'', SVC_FTP), (''tcp_25'', SVC_SMTP), (''tcp_110'', SVC_POP3), (''tcp_143'', SVC_IMAP),
     (''tcp_3389'', SVC_RDP), (''udp_123'', SVC_NTP)]"

definition get_port_rules_handler :: "service_filter \<Rightarrow> response" where
  "get_port_rules_handler s =
     Sent_json (JObj (map (\<lambda>(nm, sid). (nm, JBool (\<not> sr_blocked (g_services s ! service_index sid)))) ui_ports))"

definition update_port_rule_handler ::
    "'f nvs_api \<Rightarrow> 'j json_api \<Rightarrow> http_request \<Rightarrow> service_filter \<Rightarrow> 'f plat \<Rightarrow>
     (esp_err \<times> response \<times> service_filter \<times> 'f plat) cres" where
  "update_port_rule_handler api J req s p =
     with_json 256 256 ''Invalid request'' J req (\<lambda>m. (ESP_FAIL, bad_request m, s, p)) (\<lambda>json.
       case (cJSON_GetObjectItem J json ''port'', cJSON_GetObjectItem J json ''enabled'') of
         (Some port_item, Some enabled_item) \<Rightarrow>
           bindE (deref (valuestring J port_item)) (\<lambda>port_name.
           let enabled = cJSON_IsTrue J enabled_item
           in bindE (case map_of ui_ports port_name of
                  Some sid \<Rightarrow> service_set_blocked api sid (\<not> enabled) s p
                | None \<Rightarrow> Inr (s, p)) (\<lambda>(s1, p1). Inr (ESP_OK, Sent ''OK'', s1, p1)))
       | _ \<Rightarrow> Inr (ESP_FAIL, bad_request ''Missing parameters'', s, p))"

section \<open>Pages\<close>

definition inspect_packet_handler :: "esp_err \<times> response" where
  "inspect_packet_handler = (ESP_OK, Redirect ''/dashboard'')"

definition dashboard_get_handler :: "string \<Rightarrow> esp_err \<times> response" where
  "dashboard_get_handler page = (ESP_OK, Sent page)"

definition http_404_error_handler :: "esp_err \<times> response" where
  "http_404_error_handler = (ESP_FAIL, Sent_err HTTPD_404_NOT_FOUND ''Page not found'')"

section \<open>Devices\<close>

fun status_text :: "mac_status \<Rightarrow> string" where
  "status_text PENDING = ''PENDING''"
| "status_text ALLOWED = ''ALLOWED''"
| "status_text BLOCKED = ''BLOCKED''"

definition get_devices_handler :: "devices \<Rightarrow> response" where
  "get_devices_handler d = Sent_json (JArr (map (\<lambda>e.
     JObj [(''mac'', JStr (mac_string (dv_mac e))), (''status'', JStr (status_text (dv_status e)))])
     (take (device_count d) (device_list d))))"

definition update_mac_handler ::
    "'j json_api \<Rightarrow> http_request \<Rightarrow> devices \<Rightarrow> 'f plat \<Rightarrow> (esp_err \<times> response \<times> devices \<times> 'f plat) cres" where
  "update_mac_handler J req d p =
     with_json 128 128 ''Invalid request'' J req (\<lambda>m. (ESP_FAIL, bad_request m, d, p)) (\<lambda>json.
       case (cJSON_GetObjectItem J json ''mac'', cJSON_GetObjectItem J json ''status'') of
         (Some mac_item, Some status_item) \<Rightarrow>
           bindE (deref (valuestring J mac_item)) (\<lambda>mac_str.
           let mac = scan_mac 6 mac_str
           in guardE (device_count d = 0 \<or> length mac = 6) Uninit_read
             (if \<not> mac_exists mac d then Inr (ESP_OK, Sent_err HTTPD_404_NOT_FOUND ''MAC not found'', d, p)
              else bindE (deref (valuestring J status_item)) (\<lambda>status_str.
                let d1 = snd (set_device_status mac status_str d)
                in bindE (if status_str = ''ALLOWED''
                          then bindE (plat_log ''MAC allowed:'' [] p) (plat_log mac_str [])
                          else if status_str = ''BLOCKED''
                          then bindE (plat_log ''MAC blocked:'' [] p) (plat_log mac_str [])
                          else Inr p) (\<lambda>p1. Inr (ESP_OK, Sent ''OK'', d1, p1)))))
       | _ \<Rightarrow> Inr (ESP_FAIL, bad_request ''Missing parameters'', d, p))"

section \<open>Domains\<close>

definition get_blocked_domains_handler :: "domain_filter \<Rightarrow> response" where
  "get_blocked_domains_handler df = Sent_json (JArr (map (\<lambda>e. JObj [(''domain'', JStr (cstr (bd_domain e)))])
     (filter (\<lambda>e. bd_active e \<and> 0 < length (cstr (bd_domain e))) (take (blocked_domain_count df) (blocked_domains df)))))"

definition add_blocked_domain_handler ::
    "'f nvs_api \<Rightarrow> 'j json_api \<Rightarrow> http_request \<Rightarrow> domain_filter \<Rightarrow> 'f plat \<Rightarrow>
     (esp_err \<times> response \<times> domain_filter \<times> 'f plat) cres" where
  "add_blocked_domain_handler api J req df p =
     with_json 256 256 ''Invalid request'' J req (\<lambda>m. (ESP_FAIL, bad_request m, df, p)) (\<lambda>json.
       case cJSON_GetObjectItem J json ''domain'' of
         None \<Rightarrow> Inr (ESP_FAIL, bad_request ''Missing domain parameter'', df, p)
       | Some domain_item \<Rightarrow> (case valuestring J domain_item of
           None \<Rightarrow> Inr (ESP_FAIL, bad_request ''Missing domain parameter'', df, p)
         | Some domain_str \<Rightarrow>
             bindE (add_blocked_domain api (Some domain_str) df p) (\<lambda>(ok, df1, p1).
             Inr (ESP_OK, if ok then Sent ''OK''
                          else Sent_err HTTPD_500_INTERNAL_SERVER_ERROR ''Failed to add domain'', df1, p1))))"

definition remove_blocked_domain_handler ::
    "'f nvs_api \<Rightarrow> 'j json_api \<Rightarrow> http_request \<Rightarrow> domain_filter \<Rightarrow> 'f plat \<Rightarrow>
     (esp_err \<times> response \<times> domain_filter \<times> 'f plat) cres" where
  "remove_blocked_domain_handler api J req df p =
     with_json 256 256 ''Invalid request'' J req (\<lambda>m. (ESP_FAIL, bad_request m, df, p)) (\<lambda>json.
       case cJSON_GetObjectItem J json ''domain'' of
         None \<Rightarrow> Inr (ESP_FAIL, bad_request ''Missing domain parameter'', df, p)
       | Some domain_item \<Rightarrow> (case valuestring J domain_item of
           None \<Rightarrow> Inr (ESP_FAIL, bad_request ''Missing domain parameter'', df, p)
         | Some domain_str \<Rightarrow>
             bindE (remove_blocked_domain api (Some domain_str) df p) (\<lambda>(ok, df1, p1).
             Inr (ESP_OK, if ok then Sent ''OK'' else Sent_err HTTPD_404_NOT_FOUND ''Domain not found'', df1, p1))))"

text \<open>The query string is copied into 256 bytes and the copy fails when it does not fit.\<close>

definition remove_blocked_domain_query_handler ::
    "'f nvs_api \<Rightarrow> http_request \<Rightarrow> domain_filter \<Rightarrow> 'f plat \<Rightarrow> (esp_err \<times> response \<times> domain_filter \<times> 'f plat) cres" where
  "remove_blocked_domain_query_handler api req df p = (case rq_query req of
       None \<Rightarrow> Inr (ESP_FAIL, bad_request ''Missing query'', df, p)
     | Some buf \<Rightarrow>
         if length buf = 0 then Inr (ESP_FAIL, bad_request ''Missing query'', df, p)
         else if 256 < length buf + 1 then Inr (ESP_FAIL, bad_request ''Invalid query'', df, p)
         else (case rq_value req buf ''domain'' 128 of
             None \<Rightarrow> Inr (ESP_FAIL, bad_request ''Missing domain parameter'', df, p)
           | Some domain \<Rightarrow>
               bindE (remove_blocked_domain api (Some domain) df p) (\<lambda>(ok, df1, p1).
               Inr (ESP_OK, if ok then Sent ''OK'' else Sent_err HTTPD_404_NOT_FOUND ''Domain not found'', df1, p1))))"

section \<open>Services\<close>

definition proto_text :: "byte \<Rightarrow> string" where
  "proto_text proto = (if proto = SVC_PROTO_TCP then ''tcp'' else if proto = SVC_PROTO_UDP then ''udp'' else ''both'')"

definition proto_of_text :: "string \<Rightarrow> byte" where
  "proto_of_text s = (if strcaseeq s ''tcp'' then SVC_PROTO_TCP
     else if strcaseeq s ''udp'' then SVC_PROTO_UDP else SVC_PROTO_BOTH)"

definition get_services_handler :: "service_filter \<Rightarrow> response" where
  "get_services_handler s = Sent_json (JArr (map (\<lambda>r.
     JObj [(''name'', JStr (cstr (sr_name r))), (''port'', JInt (uint (sr_port r))),
       (''proto'', JStr (proto_text (sr_proto r))), (''blocked'', JBool (sr_blocked r))])
     (take BUILTIN_COUNT (g_services s))))"

definition set_service_handler ::
    "'f nvs_api \<Rightarrow> 'j json_api \<Rightarrow> http_request \<Rightarrow> service_filter \<Rightarrow> 'f plat \<Rightarrow>
     (esp_err \<times> response \<times> service_filter \<times> 'f plat) cres" where
  "set_service_handler api J req s p =
     with_json 128 127 ''No body'' J req (\<lambda>m. (ESP_FAIL, bad_request m, s, p)) (\<lambda>json.
       case (cJSON_GetObjectItem J json ''name'', cJSON_GetObjectItem J json ''blocked'') of
         (Some name_item, Some blocked_item) \<Rightarrow>
           let sid = service_find_by_name (valuestring J name_item) s
           in if sid = SVC_BUILTIN_COUNT
              then Inr (ESP_FAIL, Sent_err HTTPD_404_NOT_FOUND ''Unknown service name'', s, p)
              else bindE (service_set_blocked api sid (cJSON_IsTrue J blocked_item) s p) (\<lambda>(s1, p1).
                   Inr (ESP_OK, Sent ''OK'', s1, p1))
       | _ \<Rightarrow> Inr (ESP_FAIL, bad_request ''Missing name or blocked'', s, p))"

definition get_custom_ports_handler :: "service_filter \<Rightarrow> response" where
  "get_custom_ports_handler s = Sent_json (JArr (map (\<lambda>r.
     JObj [(''name'', JStr (cstr (cr_name r))), (''port'', JInt (uint (cr_port r))),
       (''proto'', JStr (proto_text (cr_proto r))), (''blocked'', JBool (cr_blocked r))])
     (filter cr_active (take MAX_CUSTOM_PORT_RULES (g_custom_rules s)))))"

definition add_custom_port_handler ::
    "'f nvs_api \<Rightarrow> 'j json_api \<Rightarrow> http_request \<Rightarrow> service_filter \<Rightarrow> 'f plat \<Rightarrow>
     (esp_err \<times> response \<times> service_filter \<times> 'f plat) cres" where
  "add_custom_port_handler api J req s p =
     with_json 192 191 ''No body'' J req (\<lambda>m. (ESP_FAIL, bad_request m, s, p)) (\<lambda>json.
       case (cJSON_GetObjectItem J json ''name'', cJSON_GetObjectItem J json ''port'',
             cJSON_GetObjectItem J json ''proto'', cJSON_GetObjectItem J json ''blocked'') of
         (Some j_name, Some j_port, Some j_proto, Some j_blocked) \<Rightarrow>
           bindE (u16_of_double (valuedouble J j_port)) (\<lambda>port.
           bindE (deref (valuestring J j_proto)) (\<lambda>proto_str.
           bindE (service_add_custom api (valuestring J j_name) port (proto_of_text proto_str)
                    (cJSON_IsTrue J j_blocked) s p) (\<lambda>(ok, s1, p1).
           Inr (if ok then ESP_OK else ESP_FAIL,
                if ok then Sent ''OK'' else Sent_err HTTPD_500_INTERNAL_SERVER_ERROR ''Table full'', s1, p1))))
       | _ \<Rightarrow> Inr (ESP_FAIL, bad_request ''Missing fields'', s, p))"

definition remove_custom_port_handler ::
    "'f nvs_api \<Rightarrow> 'j json_api \<Rightarrow> http_request \<Rightarrow> service_filter \<Rightarrow> 'f plat \<Rightarrow>
     (esp_err \<times> response \<times> service_filter \<times> 'f plat) cres" where
  "remove_custom_port_handler api J req s p =
     with_json 128 127 ''No body'' J req (\<lambda>m. (ESP_FAIL, bad_request m, s, p)) (\<lambda>json.
       case (cJSON_GetObjectItem J json ''port'', cJSON_GetObjectItem J json ''proto'') of
         (Some j_port, Some j_proto) \<Rightarrow>
           bindE (u16_of_double (valuedouble J j_port)) (\<lambda>port.
           bindE (deref (valuestring J j_proto)) (\<lambda>proto_str.
           bindE (service_remove_custom api port (proto_of_text proto_str) s p) (\<lambda>(ok, s1, p1).
           Inr (if ok then ESP_OK else ESP_FAIL,
                if ok then Sent ''OK'' else Sent_err HTTPD_404_NOT_FOUND ''Rule not found'', s1, p1))))
       | _ \<Rightarrow> Inr (ESP_FAIL, bad_request ''Missing port or proto'', s, p))"

section \<open>The configuration page\<close>

text \<open>
  The three forms of the page arrive as a query string. A form whose fields are all there runs its
  command and starts the restart timer; the result of the command is ignored. \<open>restart\<close> says whether
  the timer runs.
\<close>

definition query_param :: "http_request \<Rightarrow> string \<Rightarrow> string \<Rightarrow> string option cres" where
  "query_param req buf key = (case rq_value req buf key 64 of
       None \<Rightarrow> Inr None
     | Some v \<Rightarrow> bindE (preprocess_arg v) (\<lambda>t. Inr (Some t)))"

definition bind_param :: "string option cres \<Rightarrow> 'r \<Rightarrow> (string \<Rightarrow> 'r cres) \<Rightarrow> 'r cres" where
  "bind_param r none k = bindE r (\<lambda>v. case v of None \<Rightarrow> Inr none | Some t \<Rightarrow> k t)"

definition ap_form :: "'f nvs_api \<Rightarrow> arg_parse \<Rightarrow> http_request \<Rightarrow> string \<Rightarrow> bool \<times> 'f plat \<Rightarrow> (bool \<times> 'f plat) cres" where
  "ap_form api parse req buf s =
     bind_param (query_param req buf ''ap_ssid'') s (\<lambda>param1.
     bind_param (query_param req buf ''ap_password'') s (\<lambda>param2.
     bindE (set_ap api parse [''set_ap'', param1, param2] (snd s)) (\<lambda>(_, p1). Inr (True, p1))))"

definition sta_argv :: "string \<Rightarrow> string \<Rightarrow> string \<Rightarrow> string \<Rightarrow> string list" where
  "sta_argv param1 param2 param3 param4 = [''set_sta'', param1, param2] @
     (if length param2 > 0 then [''-u'', param3] else []) @
     (if length param3 > 0 then [''-a'', param4] else [])"

definition sta_form :: "'f nvs_api \<Rightarrow> arg_parse \<Rightarrow> http_request \<Rightarrow> string \<Rightarrow> bool \<times> 'f plat \<Rightarrow> (bool \<times> 'f plat) cres" where
  "sta_form api parse req buf s =
     bind_param (query_param req buf ''ssid'') s (\<lambda>param1.
     bind_param (query_param req buf ''password'') s (\<lambda>param2.
     bind_param (query_param req buf ''ent_username'') s (\<lambda>param3.
     bind_param (query_param req buf ''ent_identity'') s (\<lambda>param4.
     bindE (set_sta api parse (sta_argv param1 param2 param3 param4) (snd s)) (\<lambda>(_, p1). Inr (True, p1))))))"

definition static_form :: "'f nvs_api \<Rightarrow> arg_parse \<Rightarrow> http_request \<Rightarrow> string \<Rightarrow> bool \<times> 'f plat \<Rightarrow> (bool \<times> 'f plat) cres" where
  "static_form api parse req buf s =
     bind_param (query_param req buf ''staticip'') s (\<lambda>param1.
     bind_param (query_param req buf ''subnetmask'') s (\<lambda>param2.
     bind_param (query_param req buf ''gateway'') s (\<lambda>param3.
     bindE (set_sta_static api parse [''set_sta_static'', param1, param2, param3] (snd s)) (\<lambda>(_, p1). Inr (True, p1)))))"

definition index_get_handler ::
    "'f nvs_api \<Rightarrow> arg_parse \<Rightarrow> string \<Rightarrow> http_request \<Rightarrow> bool \<Rightarrow> 'f plat \<Rightarrow> (esp_err \<times> response \<times> bool \<times> 'f plat) cres" where
  "index_get_handler api parse page req restart p =
     bindE (case rq_query req of
         None \<Rightarrow> Inr (restart, p)
       | Some buf \<Rightarrow>
           if length buf = 0 then Inr (restart, p)
           else bindE (ap_form api parse req buf (restart \<or> buf = ''reset=Reboot'', p)) (\<lambda>s1.
                bindE (sta_form api parse req buf s1) (static_form api parse req buf)))
       (\<lambda>(restart1, p1). Inr (ESP_OK, Sent page, restart1, p1))"

section \<open>Rendering the page\<close>

definition needs_escape :: "char \<Rightarrow> bool" where
  "needs_escape c \<longleftrightarrow> c = CHR 0x5C \<or> c = CHR 0x27 \<or> c = CHR 0x22 \<or> c = CHR ''&'' \<or> c = CHR ''#'' \<or> c = CHR '';''"

definition escape_char :: "char \<Rightarrow> string" where
  "escape_char c = [CHR ''&'', CHR ''#'', char_of (48 + (of_char c :: nat) div 10), char_of (48 + (of_char c :: nat) mod 10), CHR '';'']"

text \<open>The result is written into the array allocated for it.\<close>

definition html_escape :: "string \<Rightarrow> string cres" where
  "html_escape src =
     (let esc_len = fold (\<lambda>c n. if needs_escape c then n + 4 else n) src (length src + 1);
          res = concat (map (\<lambda>c. if needs_escape c then escape_char c else [c]) src)
      in guardE (length res + 1 \<le> esc_len) OOB_write (Inr res))"

definition render_config_page :: "string \<Rightarrow> wifi_params \<Rightarrow> string cres" where
  "render_config_page config_page_template c =
     bindE (html_escape (wp_ap_ssid c)) (\<lambda>safe_ap_ssid.
     bindE (html_escape (wp_ap_passwd c)) (\<lambda>safe_ap_passwd.
     bindE (html_escape (wp_ssid c)) (\<lambda>safe_ssid.
     bindE (html_escape (wp_passwd c)) (\<lambda>safe_passwd.
     bindE (html_escape (wp_ent_username c)) (\<lambda>safe_ent_username.
     bindE (html_escape (wp_ent_identity c)) (\<lambda>safe_ent_identity.
     let page_len = length config_page_template + length safe_ap_ssid + length safe_ap_passwd + length safe_ssid +
           length safe_passwd + length safe_ent_username + length safe_ent_identity + 256
     in bindE (c_format config_page_template
                 [VStr safe_ap_ssid, VStr safe_ap_passwd, VStr safe_ssid, VStr safe_passwd, VStr safe_ent_username,
                  VStr safe_ent_identity, VStr (wp_static_ip c), VStr (wp_subnet_mask c), VStr (wp_gateway_addr c)])
          (\<lambda>r. Inr (take (page_len - 1) r))))))))"

section \<open>Routing\<close>

datatype http_method = HTTP_GET | HTTP_POST

datatype http_handler =
    Index_get | Inspect_packet | Logs_data | Dashboard_get | Get_devices | Update_mac | Get_port_rules
  | Update_port_rule | Get_blocked_domains | Add_blocked_domain | Remove_blocked_domain
  | Remove_blocked_domain_query | Get_services | Set_service | Get_custom_ports | Add_custom_port
  | Remove_custom_port

definition MAX_URI_HANDLERS :: nat where "MAX_URI_HANDLERS = 24"

text \<open>The registrations of \<open>start_webserver\<close>, in order.\<close>

definition uri_handlers :: "(string \<times> http_method \<times> http_handler) list" where
  "uri_handlers =
    [(''/'', HTTP_GET, Index_get),
     (''/inspect_packet'', HTTP_GET, Inspect_packet),
     (''/logs'', HTTP_GET, Logs_data),
     (''/dashboard'', HTTP_GET, Dashboard_get),
     (''/devices'', HTTP_GET, Get_devices),
     (''/update_mac'', HTTP_POST, Update_mac),
     (''/port_rules'', HTTP_GET, Get_port_rules),
     (''/update_port_rule'', HTTP_POST, Update_port_rule),
     (''/blocked_domains'', HTTP_GET, Get_blocked_domains),
     (''/add_domain'', HTTP_POST, Add_blocked_domain),
     (''/remove_domain'', HTTP_POST, Remove_blocked_domain),
     (''/remove_domain'', HTTP_GET, Remove_blocked_domain_query),
     (''/services'', HTTP_GET, Get_services),
     (''/services/set'', HTTP_POST, Set_service),
     (''/custom_ports'', HTTP_GET, Get_custom_ports),
     (''/custom_ports/add'', HTTP_POST, Add_custom_port),
     (''/custom_ports/remove'', HTTP_POST, Remove_custom_port)]"

text \<open>
  \<open>start_webserver\<close>: the page is rendered first; the handlers serve when the daemon started.
\<close>

record webserver =
  ws_page :: string
  ws_routes :: "(string \<times> http_method \<times> http_handler) list"

definition start_webserver :: "string \<Rightarrow> bool \<Rightarrow> wifi_params \<Rightarrow> webserver option cres" where
  "start_webserver template started c = bindE (render_config_page template c) (\<lambda>page.
     Inr (if started then Some \<lparr>ws_page = page, ws_routes = uri_handlers\<rparr> else None))"

end
