(* ===== verification/Boot.thy ===== *)
theory Boot
  imports Http_Server Packet_Filter Dns_Server
begin

text \<open>
  The whole router: its state, the steps of \<open>app_main\<close> in \<open>main/esp32_nat_router.c\<close> and the console loop.

  Start-up is a list of steps, because other tasks run between them: the radio delivers events from
  \<open>wifi_init\<close> on, and frames arrive while the main task sleeps between its steps. \<open>boot_upto n\<close> is the
  state after the first \<open>n\<close> steps.
\<close>

section \<open>The flash at power-on\<close>

text \<open>
  \<open>initialize_nvs\<close>: \<open>flash_init\<close> and \<open>flash_erase\<close> are \<open>nvs_flash_init\<close> and \<open>nvs_flash_erase\<close>;
  \<open>None\<close> says that \<open>ESP_ERROR_CHECK\<close> restarts the chip.
\<close>

definition initialize_nvs :: "('f \<Rightarrow> esp_err \<times> 'f) \<Rightarrow> ('f \<Rightarrow> esp_err \<times> 'f) \<Rightarrow> 'f \<Rightarrow> 'f option" where
  "initialize_nvs flash_init flash_erase f =
     (case flash_init f of (err, f1) \<Rightarrow>
        if err = ESP_ERR_NVS_NO_FREE_PAGES \<or> err = ESP_ERR_NVS_NEW_VERSION_FOUND
        then (case flash_erase f1 of (err1, f2) \<Rightarrow>
               if err1 \<noteq> ESP_OK then None
               else (case flash_init f2 of (err2, f3) \<Rightarrow> if err2 \<noteq> ESP_OK then None else Some f3))
        else if err \<noteq> ESP_OK then None else Some f1)"

section \<open>The router\<close>

record router =
  r_params :: wifi_params
  r_wifi :: wifi
  r_setup :: "wifi_setup option"
  r_napt :: "u32 list"              \<comment> \<open>addresses NAT was enabled for\<close>
  r_input :: input_fn
  r_domains :: domain_filter
  r_services :: service_filter
  r_dns :: bool                     \<comment> \<open>the DNS task was created\<close>
  r_web :: "webserver option"

definition no_params :: wifi_params where
  "no_params = \<lparr>wp_mac = None, wp_ssid = [], wp_ent_username = [], wp_ent_identity = [], wp_passwd = [],
     wp_static_ip = [], wp_subnet_mask = [], wp_gateway_addr = [], wp_ap_mac = None, wp_ap_ssid = [],
     wp_ap_passwd = [], wp_ap_ip = []\<rparr>"

text \<open>The globals at power-on; \<open>n\<close> is the number of port mapping slots of the IP stack.\<close>

definition router_off :: "nat \<Rightarrow> router" where
  "router_off n = \<lparr>r_params = no_params, r_wifi = \<lparr>w_net = net_boot n, w_dev = devices_boot\<rparr>, r_setup = None,
     r_napt = [], r_input = Original_input, r_domains = domain_boot, r_services = service_boot,
     r_dns = False, r_web = None\<rparr>"

definition my_ap_ip :: "router \<Rightarrow> u32" where
  "my_ap_ip r = (case r_setup r of Some s \<Rightarrow> ws_ap_ip s | None \<Rightarrow> 0)"

text \<open>What start-up asks of the libraries, and the template of the configuration page.\<close>

record boot_env =
  be_aton :: "string \<Rightarrow> u32"
  be_ap_handle :: bool
  be_ap_netif :: bool
  be_dns_task :: bool
  be_httpd :: bool
  be_template :: string

section \<open>The steps of start-up\<close>

type_synonym 'f boot_step = "router \<times> 'f plat \<Rightarrow> (router \<times> 'f plat) cres"

definition step_config :: "'f nvs_api \<Rightarrow> 'f boot_step" where
  "step_config api = (\<lambda>(r, p). bindE (load_config api p) (\<lambda>(c, p1). Inr (r\<lparr>r_params := c\<rparr>, p1)))"

definition step_portmap :: "'f nvs_api \<Rightarrow> 'f boot_step" where
  "step_portmap api = (\<lambda>(r, p). case get_portmap_tab api (w_net (r_wifi r)) p of (_, n1, p1) \<Rightarrow>
     Inr (r\<lparr>r_wifi := (r_wifi r)\<lparr>w_net := n1\<rparr>\<rparr>, p1))"

definition step_wifi :: "boot_env \<Rightarrow> 'f boot_step" where
  "step_wifi env = (\<lambda>(r, p). bindE (wifi_init (be_aton env) (r_params r) (w_net (r_wifi r)) p) (\<lambda>(setup, n1, p1).
     Inr (r\<lparr>r_setup := Some setup, r_wifi := (r_wifi r)\<lparr>w_net := n1\<rparr>\<rparr>, p1)))"

definition step_napt :: "string \<Rightarrow> 'f boot_step" where
  "step_napt line = (\<lambda>(r, p). bindE (plat_log line [VStr ''NAT is enabled''] p) (\<lambda>p1.
     Inr (r\<lparr>r_napt := r_napt r @ [my_ap_ip r]\<rparr>, p1)))"

definition step_hook :: "boot_env \<Rightarrow> 'f boot_step" where
  "step_hook env = (\<lambda>(r, p). bindE (plat_log ''Netfilter initialized'' [] p) (\<lambda>p1.
     Inr (r\<lparr>r_input := init_netif_firewall (be_ap_handle env) (be_ap_netif env) (r_input r)\<rparr>, p1)))"

definition step_domains :: "'f nvs_api \<Rightarrow> 'f boot_step" where
  "step_domains api = (\<lambda>(r, p). case init_domain_filter api (r_domains r) p of (df, p1) \<Rightarrow>
     Inr (r\<lparr>r_domains := df\<rparr>, p1))"

definition step_services :: "'f nvs_api \<Rightarrow> 'f boot_step" where
  "step_services api = (\<lambda>(r, p). bindE (init_service_filter api (r_services r) p) (\<lambda>(s, p1).
     Inr (r\<lparr>r_services := s\<rparr>, p1)))"

definition step_packets :: "'f boot_step" where
  "step_packets = (\<lambda>(r, p). bindE (init_packet_filter p) (\<lambda>p1. Inr (r, p1)))"

definition start_dns_server :: "boot_env \<Rightarrow> 'f boot_step" where
  "start_dns_server env = (\<lambda>(r, p). Inr (r\<lparr>r_dns := be_dns_task env\<rparr>, p))"

definition step_web :: "'f nvs_api \<Rightarrow> boot_env \<Rightarrow> 'f boot_step" where
  "step_web api env = (\<lambda>(r, p). bindE (param_or api ''lock'' ''0'' p) (\<lambda>(lock, p1).
     if lock = ''0''
     then bindE (plat_log ''Starting config web sever'' [] p1) (\<lambda>p2.
          bindE (start_webserver (be_template env) (be_httpd env) (r_params r)) (\<lambda>w. Inr (r\<lparr>r_web := w\<rparr>, p2)))
     else Inr (r, p1)))"

text \<open>
  \<open>app_main\<close> up to the console. The second NAT message passes the tag of the module as the format.
\<close>

definition app_main_steps :: "'f nvs_api \<Rightarrow> boot_env \<Rightarrow> 'f boot_step list" where
  "app_main_steps api env =
    [step_config api,
     step_portmap api,
     step_wifi env,
     step_napt ''NAT is enabled'',
     step_hook env,
     step_domains api,
     step_services api,
     step_packets,
     start_dns_server env,
     step_napt ''ESP32 Firewall'',
     step_web api env]"

fun run_steps :: "('s \<Rightarrow> 's cres) list \<Rightarrow> 's \<Rightarrow> 's cres" where
  "run_steps [] s = Inr s"
| "run_steps (f # fs) s = bindE (f s) (run_steps fs)"

definition boot_upto :: "nat \<Rightarrow> 'f nvs_api \<Rightarrow> boot_env \<Rightarrow> router \<times> 'f plat \<Rightarrow> (router \<times> 'f plat) cres" where
  "boot_upto n api env = run_steps (take n (app_main_steps api env))"

definition app_main :: "'f nvs_api \<Rightarrow> boot_env \<Rightarrow> router \<times> 'f plat \<Rightarrow> (router \<times> 'f plat) cres" where
  "app_main api env = run_steps (app_main_steps api env)"

text \<open>A frame that reaches the access point in some state of the router.\<close>

definition router_input :: "byte list \<Rightarrow> router \<Rightarrow> 'f plat \<Rightarrow> (verdict \<times> 'f plat) cres" where
  "router_input frame r p = netif_input (r_input r) (Some frame) (w_dev (r_wifi r)) (r_services r) p"

section \<open>The console loop\<close>

text \<open>What the loop prints for the result of \<open>esp_console_run\<close>; \<open>err_name\<close> is \<open>esp_err_to_name\<close>.\<close>

definition console_message :: "(nat \<Rightarrow> string) \<Rightarrow> (esp_err \<Rightarrow> string) \<Rightarrow> esp_err \<Rightarrow> nat \<Rightarrow> string" where
  "console_message ret_name err_name err ret =
     (if err = ESP_ERR_NOT_FOUND then ''Unrecognized command'' @ [newline]
      else if err = ESP_ERR_INVALID_ARG then []
      else if err = ESP_OK \<and> ret \<noteq> 0
      then ''Command returned non-zero error code: 0x'' @ ret_name ret @ [newline]
      else if err \<noteq> ESP_OK then ''Internal error: '' @ err_name err @ [newline] else [])"

end
