(* ===== verification/Pages.thy ===== *)
theory Pages
  imports Format
begin

text \<open>
  The configuration page of the web server: \<open>CONFIG_PAGE\<close> of \<open>main/pages.h\<close>, byte for byte, because
  the server uses it as the format of \<open>snprintf\<close>. One list element is one source line; a backslash at
  the end of a line joins it to the next, so no newline is part of the text.

  The dashboard is sent as it is and a parameter of the model; its script is theory \<open>Dashboard\<close>.
\<close>

section \<open>Up to the forms\<close>

definition config_page_head :: string where
  "config_page_head = concat
    [''<!DOCTYPE html>'',
     ''<html lang='en'>'',
     ''<head>'',
     ''<meta charset='UTF-8'>'',
     ''<meta name='viewport' content='width=device-width, initial-scale=1.0'>'',
     ''<title>ESP32 NAT Router Config</title>'',
     ''<style>'',
     ''@import url('https://fonts.googleapis.com/css2?family=Poppins:wght@400;600&display=swap');'',
     ''body {'',
     ''  font-family: 'Poppins', sans-serif;'',
     ''  background: linear-gradient(135deg, #0c0c0cff, #5600a7ff);'',
     ''  color: #ebe8e8ff;'',
     ''  display: flex;'',
     ''  justify-content: center;'',
     ''  align-items: flex-start;'',
     ''  min-height: 100vh;'',
     ''  margin: 0;'',
     ''  padding: 40px 0;'',
     ''}'',
     ''.container {'']"

definition config_page_style :: string where
  "config_page_style = concat
    [''  width: 90%;'',
     ''  max-width: 480px;'',
     ''  background: #080808ff;'',
     ''  padding: 25px;'',
     ''  border-radius: 15px;'',
     ''  box-shadow: 0 8px 25px rgba(104, 98, 98, 0.2);'',
     ''  animation: fadeIn 0.8s ease;'',
     ''}'',
     ''h1 {'',
     ''  text-align: center;'',
     ''  color: #6e03e7ff;'',
     ''  margin-bottom: 20px;'',
     ''}'',
     ''.card {'',
     ''  background: #0d0d0eff;'',
     ''  padding: 20px;'',
     ''  border-radius: 10px;'',
     ''  margin-bottom: 20px;'',
     ''  border-left: 5px solid #9100e6ff;'',
     ''  transition: transform 0.3s ease, box-shadow 0.3s ease;'',
     ''}'',
     ''.card:hover {'',
     ''  transform: scale(1.02);'',
     ''  box-shadow: 0 6px 15px rgba(253, 253, 253, 0.72);'',
     ''}'',
     ''h2 {'',
     ''  color: #501e72ff;'',
     ''  margin-bottom: 10px;'',
     ''  text-align: center;'',
     ''}'',
     ''label {'',
     ''  display: block;'',
     ''  margin-top: 10px;'',
     ''  font-weight: 500;'',
     ''}'',
     ''input {'',
     ''  width: 100%;'',
     ''  padding: 10px;'',
     ''  margin-top: 5px;'',
     ''  border: 1px solid #ccc;'',
     ''  border-radius: 8px;'',
     ''  transition: 0.3s;'',
     ''  outline: none;'',
     ''}'',
     ''input:focus {'',
     ''  border-color: #2a5298;'',
     ''  box-shadow: 0 0 5px rgba(42, 82, 152, 0.4);'',
     ''}'',
     ''.btn {'',
     ''  display: block;'',
     ''  width: 100%;'',
     ''  background: #2a5298;'',
     ''  color: white;'',
     ''  border: none;'',
     ''  padding: 10px;'',
     ''  font-size: 16px;'',
     ''  border-radius: 8px;'',
     ''  cursor: pointer;'',
     ''  margin-top: 15px;'',
     ''  transition: 0.3s;'',
     ''}'',
     ''.btn:hover {'',
     ''  background: #1e3c72;'',
     ''}'',
     ''.note {'',
     ''  font-size: 12px;'',
     ''  color: #e4e0e0ff;'',
     ''  margin-top: 8px;'',
     ''  text-align: center;'',
     ''}'',
     ''@keyframes fadeIn {'',
     ''  from {opacity: 0; transform: translateY(-10px);}'',
     ''  to {opacity: 1; transform: translateY(0);}'',
     ''}'',
     ''</style>'',
     ''</head>'',
     ''<body>'',
     ''<div class='container'>'',
     ''<h1>ESP32 FIREWALL CONFIG</h1>'',
     ''<script>'']"

section \<open>The forms\<close>

definition config_page_body :: string where
  "config_page_body = concat
    [''if (window.location.search.substr(1) != '' @ [CHR 0x27, CHR 0x27] @ '') {'',
     ''  document.body.innerHTML = '<h1>ESP32 NAT Router Config</h1><p>The new settings have been sent to the device.<br/>The page will refresh soon automatically...</p>';'',
     ''  setTimeout(function(){location.href='/'}, 8000);'',
     ''}'',
     ''</script>'',
     [],
     ''<div class='card'>'',
     ''<h2>AP Settings (New Network)</h2>'',
     ''<form action='' @ [CHR 0x27, CHR 0x27] @ '' method='GET'>'',
     ''<label>SSID</label>'',
     ''<input type='text' name='ap_ssid' value='%s' placeholder='SSID of the new network'>'',
     ''<label>Password</label>'',
     ''<input type='text' name='ap_password' value='%s' placeholder='Password (min 8 chars)'>'',
     ''<button type='submit' class='btn'>Set</button>'',
     ''<p class='note'>Leave password empty for open network</p>'',
     ''</form>'',
     ''</div>'',
     [],
     ''<div class='card'>'',
     ''<h2>STA Settings (Uplink WiFi)</h2>'',
     ''<form action='' @ [CHR 0x27, CHR 0x27] @ '' method='GET'>'',
     ''<label>SSID</label>'',
     ''<input type='text' name='ssid' value='%s' placeholder='SSID of existing network'>'',
     ''<label>Password</label>'',
     ''<input type='password' name='password' value='%s' placeholder='Password of existing network'>'',
     ''<label>Enterprise username</label>'',
     ''<input type='text' name='ent_username' value='%s' placeholder='WPA2 Enterprise username'>'',
     ''<label>Enterprise identity</label>'',
     ''<input type='text' name='ent_identity' value='%s' placeholder='WPA2 Enterprise identity'>'',
     ''<button type='submit' class='btn'>Connect</button>'',
     ''</form>'',
     ''</div>'',
     [],
     ''<div class='card'>'',
     ''<h2>Static IP Settings</h2>'',
     ''<form action='' @ [CHR 0x27, CHR 0x27] @ '' method='GET'>'',
     ''<label>Static IP</label>'',
     ''<input type='text' name='staticip' value='%s'>'',
     ''<label>Subnet Mask</label>'',
     ''<input type='text' name='subnetmask' value='%s'>'',
     ''<label>Gateway</label>'',
     ''<input type='text' name='gateway' value='%s'>'',
     ''<button type='submit' class='btn'>Apply</button>'',
     ''<p class='note'>Leave blank for DHCP</p>'',
     ''</form>'',
     ''</div>'',
     [],
     ''<div class='card'>'',
     ''<h2>Device Management</h2>'',
     ''<form action='' @ [CHR 0x27, CHR 0x27] @ '' method='GET'>'',
     ''<button type='submit' name='reset' value='Reboot' class='btn' style='background:#e72e00;'>Reboot Device</button>'',
     ''</form>'',
     ''</div>'',
     [],
     ''<div class='card' style='text-align:center;'>'',
     ''<h2>Firewall</h2>'',
     ''<p>Go to Dashboard to see live logs</p>'',
     ''<a href='/dashboard'><button class='btn'>Open Dashboard Page</button></a>'',
     ''</div>'',
     [],
     ''<p class='note'>'' @ [CHR 0xC2, CHR 0xA9] @ '' 2025 ESP32 NAT Router</p>'',
     ''</div>'',
     ''</body>'',
     ''</html>'']"

definition CONFIG_PAGE :: string where
  "CONFIG_PAGE = config_page_head @ config_page_style @ config_page_body"

end
