(* ===== verification/Http_Props.thy ===== *)
theory Http_Props
  imports Http_Server Pages Service_Laws
begin

text \<open>
  What the web server makes of texts: the configuration page as a format string, HTML escaping,
  and request bodies that fill their buffer.
\<close>

section \<open>The configuration page\<close>

lemma config_page_head_plain: "percent \<notin> set config_page_head"
  by (simp add: config_page_head_def)

lemma config_page_style_start: "\<exists>rest. config_page_style = ''  width: 90'' @ percent # CHR '';'' # rest"
  unfolding config_page_style_def concat.simps by (simp only: append_Cons append_Nil list.inject simp_thms)

text \<open>The CSS unit \<open>%;\<close> is no conversion: the page is not a format string.\<close>

lemma config_page_bad_format: "c_format CONFIG_PAGE (VStr s # args) = Inl Bad_format"
proof -
  obtain rest where "config_page_style = ''  width: 90'' @ percent # CHR '';'' # rest"
    using config_page_style_start by blast
  then have "CONFIG_PAGE = (config_page_head @ ''  width: 90'') @ (percent # CHR '';'' # rest @ config_page_body)"
    by (simp add: CONFIG_PAGE_def)
  then obtain g where g: "CONFIG_PAGE = (config_page_head @ ''  width: 90'') @ g" "take 2 g = [percent, CHR '';'']"
    by (rule that) simp
  then have "c_format g (VStr s # args) = Inl Bad_format" by (cases g; cases "tl g") auto
  moreover have "percent \<notin> set (config_page_head @ ''  width: 90'')" using config_page_head_plain by simp
  ultimately show ?thesis unfolding g(1) by (subst c_format_plain_append) simp_all
qed

section \<open>HTML escaping\<close>

lemma html_escape_length:
  "fold (\<lambda>c n. if needs_escape c then n + 4 else n) src k =
     k + 4 * length (filter needs_escape src)"
  by (induction src arbitrary: k) auto

lemma html_escape_runs:
  "html_escape src = Inr (concat (map (\<lambda>c. if needs_escape c then escape_char c else [c]) src))"
proof -
  have "length (concat (map (\<lambda>c. if needs_escape c then escape_char c else [c]) src)) =
      length src + 4 * length (filter needs_escape src)"
    by (induction src) (auto simp: escape_char_def)
  then show ?thesis by (simp add: html_escape_def Let_def html_escape_length)
qed

text \<open>What a browser makes of an attribute value: the references \<open>&#dd;\<close> are characters again.\<close>

definition dec_value :: "char \<Rightarrow> nat" where
  "dec_value c = of_char c - 48"

fun unescape :: "string \<Rightarrow> string" where
  "unescape (a # b # x # y # e # s) =
     (if a = CHR ''&'' \<and> b = CHR ''#'' \<and> e = CHR '';''
      then char_of (10 * dec_value x + dec_value y) # unescape s else a # unescape (b # x # y # e # s))"
| "unescape (a # s) = a # unescape s"
| "unescape [] = []"

lemma unescape_plain: "a \<noteq> CHR ''&'' \<Longrightarrow> unescape (a # s) = a # unescape s"
  by (cases "(a # s)" rule: unescape.cases) auto

lemma needs_escape_cases:
  assumes "needs_escape c"
  obtains "c = CHR 0x5C" | "c = CHR 0x27" | "c = CHR 0x22" | "c = CHR ''&''" | "c = CHR ''#''" | "c = CHR '';''"
  using assms by (auto simp: needs_escape_def)

lemma unescape_escaped: "needs_escape c \<Longrightarrow> unescape (escape_char c @ s) = c # unescape s"
proof -
  have d: "char_of (10 * dec_value (char_of (48 + n div 10)) + dec_value (char_of (48 + n mod 10))) = (char_of n :: char)"
    if "n < 100" for n :: nat
    using that by (simp add: dec_value_def)
  assume "needs_escape c"
  then have "(of_char c :: nat) < 100" by (cases rule: needs_escape_cases) simp_all
  then show ?thesis using d [of "of_char c"] by (simp add: escape_char_def)
qed

lemma escape_char_safe: "needs_escape c \<Longrightarrow> set (escape_char c) \<inter> {CHR 0x5C, CHR 0x27, CHR 0x22} = {}"
proof -
  have d: "char_of (48 + n) \<notin> {CHR 0x5C, CHR 0x27, CHR 0x22}" if "n < 10" for n :: nat
    using that unfolding insert_iff empty_iff char_eq_iff_nat by simp
  assume "needs_escape c"
  then have "(of_char c :: nat) div 10 < 10" by (cases rule: needs_escape_cases) simp_all
  moreover have "(of_char c :: nat) mod 10 < 10" by simp
  ultimately show ?thesis using d unfolding escape_char_def by auto
qed

lemma unescape_html_escape:
  "unescape (concat (map (\<lambda>c. if needs_escape c then escape_char c else [c]) src)) = src"
proof (induction src)
  case (Cons c src)
  have "c \<noteq> CHR ''&''" if "\<not> needs_escape c" using that by (auto simp: needs_escape_def)
  then show ?case using Cons by (simp add: unescape_escaped unescape_plain)
qed simp

section \<open>Properties\<close>

text \<open>C36: escaping always stays inside the array it allocates, its result can stand between quotes of either
  kind in the page, and a browser reads exactly the original text out of it.\<close>

theorem html_escape_safe:
  "\<exists>r. html_escape src = Inr r \<and> set r \<inter> {CHR 0x5C, CHR 0x27, CHR 0x22} = {} \<and> unescape r = src"
proof (intro exI conjI)
  let ?r = "concat (map (\<lambda>c. if needs_escape c then escape_char c else [c]) src)"
  show "html_escape src = Inr ?r" by (rule html_escape_runs)
  show "unescape ?r = src" by (rule unescape_html_escape)
  show "set ?r \<inter> {CHR 0x5C, CHR 0x27, CHR 0x22} = {}"
    using escape_char_safe by (induction src) (auto simp: needs_escape_def)
qed

text \<open>Four handlers ask for as many bytes as their buffer has and then write behind what they got.\<close>

lemma recv_full: "rq_recv req n = Some d \<Longrightarrow> length d = n \<Longrightarrow> recv_body n n req = Inl OOB_write"
  by (simp add: recv_body_def)

lemma recv_room: "rq_recv req n = Some d \<Longrightarrow> length d \<le> n \<Longrightarrow> n < m \<Longrightarrow> recv_body m n req = Inr (Some (cstr d))"
  by (simp add: recv_body_def)

lemma service_ops_run:
  assumes "sf_wf s"
  shows "\<exists>s' p'. service_set_blocked api sid b s p = Inr (s', p')"
    and "\<exists>r. service_add_custom api nm port proto b s p = Inr r"
    and "\<exists>r. service_remove_custom api port proto s p = Inr r"
  using svc.step_defined [of "(s, p)" api "Set_blocked sid b"] svc.step_defined [of "(s, p)" api "Add_custom nm port proto b"]
    svc.step_defined [of "(s, p)" api "Remove_custom port proto"] assms
  by (auto simp: is_defined_iff bindE_eq_Inr)

lemma bindE_eq_Inl: "bindE r k = Inl e \<longleftrightarrow> r = Inl e \<or> (\<exists>x. r = Inr x \<and> k x = Inl e)"
  by (cases r) auto

lemma conversion_errors:
  "u16_of_double x = Inl e \<Longrightarrow> e = Conv_range"
  "deref t = Inl e \<Longrightarrow> e = Null_deref"
  by (auto simp: u16_of_double_def guardE_def deref_def split: if_splits option.splits)

text \<open>The handlers of services and custom rules leave room for the NUL.\<close>

lemma set_service_roomy:
  assumes "recv_body 128 127 req = Inr body" and "sf_wf s"
  shows "set_service_handler api J req s p \<noteq> Inl OOB_write"
proof -
  have "service_set_blocked api sid b s p \<noteq> Inl OOB_write" for sid b
    using service_ops_run(1) [OF assms(2), of api sid b p] by auto
  then show ?thesis using assms(1)
    by (auto simp: set_service_handler_def with_json_def Let_def bindE_eq_Inl split: option.split)
qed

lemma add_custom_roomy:
  assumes "recv_body 192 191 req = Inr body" and "sf_wf s"
  shows "add_custom_port_handler api J req s p \<noteq> Inl OOB_write"
proof -
  have "service_add_custom api nm port proto b s p \<noteq> Inl OOB_write" for nm port proto b
    using service_ops_run(2) [OF assms(2), of api nm port proto b p] by auto
  then show ?thesis using assms(1)
    by (auto simp: add_custom_port_handler_def with_json_def bindE_eq_Inl split: option.split dest: conversion_errors)
qed

lemma remove_custom_roomy:
  assumes "recv_body 128 127 req = Inr body" and "sf_wf s"
  shows "remove_custom_port_handler api J req s p \<noteq> Inl OOB_write"
proof -
  have "service_remove_custom api port proto s p \<noteq> Inl OOB_write" for port proto
    using service_ops_run(3) [OF assms(2), of api port proto p] by auto
  then show ?thesis using assms(1)
    by (auto simp: remove_custom_port_handler_def with_json_def bindE_eq_Inl split: option.split dest: conversion_errors)
qed

text \<open>C35: a request body of 256 bytes or more makes the handlers of devices, domains and built-in ports
  write a byte behind their buffer, whatever it says; with such a body the handlers of services and
  custom rules never write outside theirs.\<close>

theorem full_body_overruns:
  assumes "\<And>n. n \<in> {127, 128, 191, 256} \<Longrightarrow> rq_recv req n = Some (take n body)"
    and "256 \<le> length body" and "sf_wf s"
  shows "update_port_rule_handler api J req s p = Inl OOB_write \<and>
    update_mac_handler J req d p = Inl OOB_write \<and>
    add_blocked_domain_handler api J req df p = Inl OOB_write \<and>
    remove_blocked_domain_handler api J req df p = Inl OOB_write \<and>
    set_service_handler api J req s p \<noteq> Inl OOB_write \<and>
    add_custom_port_handler api J req s p \<noteq> Inl OOB_write \<and>
    remove_custom_port_handler api J req s p \<noteq> Inl OOB_write"
proof -
  have r: "rq_recv req n = Some (take n body) \<and> length (take n body) = n" if "n \<in> {127, 128, 191, 256}" for n
    using assms(1) [OF that] assms(2) that by auto
  have "recv_body n n req = Inl OOB_write" if "n \<in> {127, 128, 191, 256}" for n
    using r [OF that] recv_full by blast
  then have full: "recv_body 256 256 req = Inl OOB_write" "recv_body 128 128 req = Inl OOB_write" by simp_all
  have "recv_body m n req = Inr (Some (cstr (take n body)))" if "n \<in> {127, 128, 191, 256}" "n < m" for n m
    using r [OF that(1)] recv_room [of req n "take n body" m] that(2) by simp
  then have room: "recv_body 128 127 req = Inr (Some (cstr (take 127 body)))"
    "recv_body 192 191 req = Inr (Some (cstr (take 191 body)))" by simp_all
  show ?thesis
    using set_service_roomy [OF room(1) assms(3), of api J p] add_custom_roomy [OF room(2) assms(3), of api J p]
      remove_custom_roomy [OF room(1) assms(3), of api J p]
    by (simp add: full update_port_rule_handler_def update_mac_handler_def add_blocked_domain_handler_def
        remove_blocked_domain_handler_def with_json_def)
qed

text \<open>A parser that accepts nothing and a client that sends 300 bytes.\<close>

definition no_json :: "unit json_api" where
  "no_json = \<lparr>cJSON_Parse = (\<lambda>_. None), cJSON_GetObjectItem = (\<lambda>_ _. None), valuestring = (\<lambda>_. None),
     valuedouble = (\<lambda>_. (0, 1)), cJSON_IsTrue = (\<lambda>_. False)\<rparr>"

definition long_post :: http_request where
  "long_post = \<lparr>rq_recv = (\<lambda>n. Some (take n (replicate 300 CHR ''x''))), rq_query = None, rq_value = (\<lambda>_ _ _. None)\<rparr>"

theorem full_body_overruns_witness:
  "update_mac_handler no_json long_post devices_boot plat0 = Inl OOB_write \<and>
   set_service_handler ram_api no_json long_post service_boot plat0 \<noteq> Inl OOB_write"
  using full_body_overruns [of long_post "replicate 300 CHR ''x''" service_boot ram_api no_json plat0 devices_boot domain_boot]
  by (simp add: long_post_def sf_wf_boot)

end
