(* ===== verification/Boot_Props.thy ===== *)
theory Boot_Props
  imports Boot Packet_Laws Domain_Props Portmap_Props Settings_Props Http_Props
begin

text \<open>
  What start-up promises. Every step of \<open>app_main\<close> before the web server always succeeds and
  implements one update of the router (\<open>boot_updates\<close>), a function of what the flash holds; the
  composition of the updates is the state the router starts with, and the prefixes of the list are
  the states frames meet while it starts.
\<close>

section \<open>The steps leave the contents of the flash alone\<close>

context nvs_reliable
begin

lemma open_keeps:
  "nvs_open api ns md f = (e, h, f1) \<Longrightarrow> view f1 = view f \<and> view (nvs_close api h f1) = view f \<and>
     disk f1 = disk f \<and> disk (nvs_close api h f1) = disk f"
  using open_ok [of ns md f h f1] open_err [of ns md f e h f1] by (cases "e = ESP_OK") (auto simp: close)

lemma get_portmap_tab_keeps:
  "get_portmap_tab api n p = (e, n1, p1) \<Longrightarrow> view (pflash p1) = view (pflash p) \<and> disk (pflash p1) = disk (pflash p)"
  by (auto simp: get_portmap_tab_def Let_def dest: open_keeps split: prod.splits if_splits sum.splits nvs_value.splits)

lemma load_service_rules_keeps:
  "load_service_rules api s p = (s1, p1) \<Longrightarrow> view (pflash p1) = view (pflash p) \<and> disk (pflash p1) = disk (pflash p)"
  by (auto simp: load_service_rules_def Let_def dest: open_keeps split: prod.splits if_splits)

lemma init_service_filter_keeps:
  "init_service_filter api s p = Inr (s1, p1) \<Longrightarrow> view (pflash p1) = view (pflash p) \<and> disk (pflash p1) = disk (pflash p)"
  using load_service_rules_keeps [of "s\<lparr>g_custom_rules := replicate MAX_CUSTOM_PORT_RULES zero_rule, g_custom_rule_count := 0\<rparr>" p]
  by (auto simp: init_service_filter_def Let_def bindE_eq_Inr dest!: plat_log_Inr split: prod.splits)

lemma init_domain_filter_keeps:
  "init_domain_filter api s p = (s1, p1) \<Longrightarrow> view (pflash p1) = view (pflash p) \<and> disk (pflash p1) = disk (pflash p)"
  by (auto simp: init_domain_filter_def Let_def dest: open_keeps split: prod.splits if_splits)

end

section \<open>Steps that implement updates\<close>

text \<open>
  \<open>implements v ok f u\<close>: on a flash with contents \<open>v\<close> and in a state that satisfies \<open>ok\<close>, step \<open>f\<close>
  succeeds, updates the state by \<open>u\<close>, keeps \<open>ok\<close> and leaves the contents alone.
\<close>

definition implements ::
    "('f \<Rightarrow> 'v) \<Rightarrow> 'v \<Rightarrow> ('s \<Rightarrow> bool) \<Rightarrow> ('s \<times> 'f plat \<Rightarrow> ('s \<times> 'f plat) cres) \<Rightarrow> ('s \<Rightarrow> 's) \<Rightarrow> bool" where
  "implements view v ok f u \<longleftrightarrow> (\<forall>r p. ok r \<longrightarrow> view (pflash p) = v \<longrightarrow>
     (\<exists>p'. f (r, p) = Inr (u r, p') \<and> ok (u r) \<and> view (pflash p') = v))"

lemma implementsI:
  assumes "\<And>r p. ok r \<Longrightarrow> view (pflash p) = v \<Longrightarrow>
    \<exists>p'. f (r, p) = Inr (u r, p') \<and> ok (u r) \<and> view (pflash p') = v"
  shows "implements view v ok f u"
  using assms by (simp add: implements_def)

lemma run_implements:
  assumes "list_all2 (implements view v ok) fs us" and "ok r" and "view (pflash p) = v"
  shows "\<exists>p'. run_steps fs (r, p) = Inr (fold (\<lambda>u. u) us r, p') \<and> ok (fold (\<lambda>u. u) us r) \<and> view (pflash p') = v"
  using assms
proof (induction fs us arbitrary: r p rule: list_all2_induct)
  case (Cons f fs u us)
  then obtain p1 where "f (r, p) = Inr (u r, p1)" "ok (u r)" "view (pflash p1) = v"
    unfolding implements_def by blast
  with Cons.IH [of "u r" p1] show ?case by simp
qed simp

lemma implements_log:
  assumes "\<And>p :: 'f plat. \<exists>p'. plat_log fmt args p = Inr p'" and "\<And>r. ok r \<Longrightarrow> ok (u r)"
  shows "implements view v ok (\<lambda>(r, p :: 'f plat). bindE (plat_log fmt args p) (\<lambda>p1. Inr (u r, p1))) u"
proof (rule implementsI)
  fix r and p :: "'f plat" assume "ok r" "view (pflash p) = v"
  moreover obtain p' where p': "plat_log fmt args p = Inr p'" using assms(1) by blast
  moreover have "pflash p' = pflash p" using plat_log_Inr [OF p'] by simp
  ultimately show "\<exists>p'. (case (r, p) of (r, p) \<Rightarrow> bindE (plat_log fmt args p) (\<lambda>p1. Inr (u r, p1))) = Inr (u r, p') \<and>
      ok (u r) \<and> view (pflash p') = v"
    using assms(2) by simp
qed

section \<open>The updates\<close>

text \<open>The state that was saved: the table of mappings, the list of domains and the port filter.\<close>

record saved =
  sv_portmap :: "portmap_entry list"
  sv_domains :: domain_filter
  sv_services :: service_filter

definition saved_in ::
    "('f \<Rightarrow> nvs_key \<Rightarrow> nvs_value option) \<Rightarrow> nat \<Rightarrow> saved \<Rightarrow> 'f plat \<Rightarrow> bool" where
  "saved_in view slots sv p \<longleftrightarrow>
     view (pflash p) (PARAM_NAMESPACE, NVS_KEY_PORTMAP) = Some (NvBlob (tab_bytes (sv_portmap sv))) \<and>
     tab_wf (sv_portmap sv) \<and> length (sv_portmap sv) = slots \<and>
     domains_on_disk view (sv_domains sv) p \<and> domains_wf (sv_domains sv) \<and>
     services_on_disk view (sv_services sv) p \<and> sf_wf (sv_services sv)"

definition reloaded :: "domain_filter \<Rightarrow> domain_filter" where
  "reloaded df = \<lparr>blocked_domains = blocked_domains df, blocked_domain_count = count_loaded (blocked_domains df)\<rparr>"

definition wifi_start :: "boot_env \<Rightarrow> router \<Rightarrow> router" where
  "wifi_start env r = r\<lparr>r_setup := Some (wifi_setup_of (be_aton env) (r_params r)),
     r_wifi := (r_wifi r)\<lparr>w_net := (if has_static (r_params r) then apply_portmap_tab (w_net (r_wifi r)) else w_net (r_wifi r))\<rparr>\<rparr>"

definition napt_start :: "router \<Rightarrow> router" where
  "napt_start r = r\<lparr>r_napt := r_napt r @ [my_ap_ip r]\<rparr>"

definition boot_updates :: "boot_env \<Rightarrow> wifi_params \<Rightarrow> saved \<Rightarrow> (router \<Rightarrow> router) list" where
  "boot_updates env c sv =
    [\<lambda>r. r\<lparr>r_params := c\<rparr>,
     \<lambda>r. r\<lparr>r_wifi := (r_wifi r)\<lparr>w_net := (w_net (r_wifi r))\<lparr>portmap_tab := sv_portmap sv\<rparr>\<rparr>\<rparr>,
     wifi_start env,
     napt_start,
     \<lambda>r. r\<lparr>r_input := init_netif_firewall (be_ap_handle env) (be_ap_netif env) (r_input r)\<rparr>,
     \<lambda>r. r\<lparr>r_domains := reloaded (sv_domains sv)\<rparr>,
     \<lambda>r. r\<lparr>r_services := sv_services sv\<rparr>,
     \<lambda>r. r,
     \<lambda>r. r\<lparr>r_dns := be_dns_task env\<rparr>,
     napt_start]"

definition router_ok :: "nat \<Rightarrow> router \<Rightarrow> bool" where
  "router_ok slots r \<longleftrightarrow> tab_wf (portmap_tab (w_net (r_wifi r))) \<and>
     length (portmap_tab (w_net (r_wifi r))) = slots \<and> sf_wf (r_services r)"

lemma apply_portmap_tab_keeps [simp]: "portmap_tab (apply_portmap_tab n) = portmap_tab n"
  by (simp add: apply_portmap_tab_calls)

lemma router_ok_off: "router_ok slots (router_off slots)"
  by (simp add: router_ok_def router_off_def net_boot_def tab_wf_def list_all_length zero_entry_def sf_wf_boot)

lemma wifi_init_runs:
  "\<exists>p'. wifi_init aton c n p = Inr (wifi_setup_of aton c, if has_static c then apply_portmap_tab n else n, p') \<and>
     pflash p' = pflash p"
proof -
  have "\<exists>l. plat_log ''connect to ap SSID %s'' [VStr (wp_ssid c)] q = Inr (q\<lparr>plog := l\<rparr>)" for q :: "'a plat"
    by (simp add: plat_log_def add_log_line_def) (rule exI, rule refl)
  then obtain l where "\<And>q :: 'a plat. plat_log ''connect to ap SSID %s'' [VStr (wp_ssid c)] q = Inr (q\<lparr>plog := l q\<rparr>)"
    by metis
  then show ?thesis by (simp add: wifi_init_def Let_def)
qed

section \<open>Start-up implements them\<close>

context nvs_reliable
begin

lemma load_config_from:
  "\<exists>p'. load_config api p = Inr (config_of (settings_in view p), p') \<and>
     view (pflash p') = view (pflash p) \<and> disk (pflash p') = disk (pflash p)"
  using load_config_reads unfolding reads_def by blast

lemma boot_implements:
  assumes "saved_in view slots sv p0"
  shows "list_all2 (implements (\<lambda>f. (view f, disk f)) (view (pflash p0), disk (pflash p0)) (router_ok slots))
    (butlast (app_main_steps api env)) (boot_updates env (config_of (settings_in view p0)) sv)"
proof -
  let ?v = "(view (pflash p0), disk (pflash p0))"
    and ?I = "\<lambda>f u. implements (\<lambda>f. (view f, disk f)) (view (pflash p0), disk (pflash p0)) (router_ok slots) f u"
  have 1: "?I (step_config api) (\<lambda>r. r\<lparr>r_params := config_of (settings_in view p0)\<rparr>)"
  proof (rule implementsI)
    fix r and p :: "'a plat" assume "router_ok slots r" "(view (pflash p), disk (pflash p)) = ?v"
    then show "\<exists>p'. step_config api (r, p) = Inr (r\<lparr>r_params := config_of (settings_in view p0)\<rparr>, p') \<and>
        router_ok slots (r\<lparr>r_params := config_of (settings_in view p0)\<rparr>) \<and> (view (pflash p'), disk (pflash p')) = ?v"
      using load_config_from [of p] by (auto simp: step_config_def router_ok_def settings_in_def)
  qed
  have 2: "?I (step_portmap api) (\<lambda>r. r\<lparr>r_wifi := (r_wifi r)\<lparr>w_net := (w_net (r_wifi r))\<lparr>portmap_tab := sv_portmap sv\<rparr>\<rparr>\<rparr>)"
  proof (rule implementsI)
    fix r and p :: "'a plat" assume r: "router_ok slots r" and p: "(view (pflash p), disk (pflash p)) = ?v"
    let ?n = "w_net (r_wifi r)"
    obtain p' where g: "get_portmap_tab api ?n p = (ESP_OK, ?n\<lparr>portmap_tab := sv_portmap sv\<rparr>, p')"
      using get_portmap_view [of p "sv_portmap sv" ?n] assms r p by (auto simp: saved_in_def router_ok_def)
    show "\<exists>p'. step_portmap api (r, p) =
          Inr (r\<lparr>r_wifi := (r_wifi r)\<lparr>w_net := ?n\<lparr>portmap_tab := sv_portmap sv\<rparr>\<rparr>\<rparr>, p') \<and>
        router_ok slots (r\<lparr>r_wifi := (r_wifi r)\<lparr>w_net := ?n\<lparr>portmap_tab := sv_portmap sv\<rparr>\<rparr>\<rparr>) \<and> (view (pflash p'), disk (pflash p')) = ?v"
      using g get_portmap_tab_keeps [OF g] r p assms by (simp add: step_portmap_def router_ok_def saved_in_def)
  qed
  have 3: "?I (step_wifi env) (wifi_start env)"
  proof (rule implementsI)
    fix r and p :: "'a plat" assume "router_ok slots r" "(view (pflash p), disk (pflash p)) = ?v"
    then show "\<exists>p'. step_wifi env (r, p) = Inr (wifi_start env r, p') \<and> router_ok slots (wifi_start env r) \<and>
        (view (pflash p'), disk (pflash p')) = ?v"
      using wifi_init_runs [of "be_aton env" "r_params r" "w_net (r_wifi r)" p]
      by (auto simp: step_wifi_def wifi_start_def router_ok_def)
  qed
  have 4: "?I (step_napt line) napt_start" if "percent \<notin> set line" for line
    unfolding step_napt_def napt_start_def
    using that by (intro implements_log) (simp_all add: router_ok_def)
  have 5: "?I (step_hook env) (\<lambda>r. r\<lparr>r_input := init_netif_firewall (be_ap_handle env) (be_ap_netif env) (r_input r)\<rparr>)"
    unfolding step_hook_def by (intro implements_log) (simp_all add: router_ok_def)
  have 6: "?I (step_domains api) (\<lambda>r. r\<lparr>r_domains := reloaded (sv_domains sv)\<rparr>)"
  proof (rule implementsI)
    fix r and p :: "'a plat" assume r: "router_ok slots r" and p: "(view (pflash p), disk (pflash p)) = ?v"
    obtain df p' where g: "init_domain_filter api (r_domains r) p = (df, p')"
      by (cases "init_domain_filter api (r_domains r) p")
    have "domains_on_disk view (sv_domains sv) p" "domains_wf (sv_domains sv)"
      using assms p by (simp_all add: saved_in_def domains_on_disk_def)
    then have "df = reloaded (sv_domains sv)" using init_from_image [of "sv_domains sv" p "r_domains r"] g by (simp add: reloaded_def)
    then show "\<exists>p'. step_domains api (r, p) = Inr (r\<lparr>r_domains := reloaded (sv_domains sv)\<rparr>, p') \<and>
        router_ok slots (r\<lparr>r_domains := reloaded (sv_domains sv)\<rparr>) \<and> (view (pflash p'), disk (pflash p')) = ?v"
      using g init_domain_filter_keeps [OF g] r p by (simp add: step_domains_def router_ok_def)
  qed
  have 7: "?I (step_services api) (\<lambda>r. r\<lparr>r_services := sv_services sv\<rparr>)"
  proof (rule implementsI)
    fix r and p :: "'a plat" assume r: "router_ok slots r" and p: "(view (pflash p), disk (pflash p)) = ?v"
    have sv: "services_on_disk view (sv_services sv) p" "sf_wf (sv_services sv)"
      using assms p by (simp_all add: saved_in_def services_on_disk_def)
    then obtain p' where g: "init_service_filter api (r_services r) p = Inr (sv_services sv, p')"
      using init_from_view [OF sv, of "r_services r"] r by (auto simp: router_ok_def)
    then show "\<exists>p'. step_services api (r, p) = Inr (r\<lparr>r_services := sv_services sv\<rparr>, p') \<and>
        router_ok slots (r\<lparr>r_services := sv_services sv\<rparr>) \<and> (view (pflash p'), disk (pflash p')) = ?v"
      using init_service_filter_keeps [OF g] r p sv(2) by (simp add: step_services_def router_ok_def)
  qed
  have 8: "?I step_packets (\<lambda>r. r)"
    unfolding step_packets_def init_packet_filter_def by (intro implements_log) simp_all
  have 9: "?I (start_dns_server env) (\<lambda>r. r\<lparr>r_dns := be_dns_task env\<rparr>)"
    by (intro implementsI) (simp add: start_dns_server_def router_ok_def)
  show ?thesis
    using 1 2 3 4 5 6 7 8 9 by (simp add: app_main_steps_def boot_updates_def)
qed

lemma boot_upto_runs:
  assumes "saved_in view slots sv p" and "n \<le> 10"
  shows "\<exists>p'. boot_upto n api env (router_off slots, p) =
      Inr (fold (\<lambda>u. u) (take n (boot_updates env (config_of (settings_in view p)) sv)) (router_off slots), p') \<and>
    view (pflash p') = view (pflash p) \<and> disk (pflash p') = disk (pflash p)"
proof -
  have len: "length (app_main_steps api env) = 11" by (simp add: app_main_steps_def)
  have "take n (app_main_steps api env) = take n (butlast (app_main_steps api env))"
    using assms(2) len by (simp add: take_butlast)
  then show ?thesis
    using run_implements [OF list_all2_takeI [OF boot_implements [OF assms(1), of env], of n] router_ok_off refl]
    by (auto simp: boot_upto_def)
qed

end

section \<open>After a restart\<close>

definition power_on :: "'f nvs_api \<Rightarrow> nat \<Rightarrow> 'f plat \<Rightarrow> router \<times> 'f plat" where
  "power_on api slots p = (router_off slots, \<lparr>plog = log_init, pflash = nvs_reset api (pflash p)\<rparr>)"

lemmas boot_state_simps = boot_updates_def router_off_def wifi_start_def napt_start_def router_input_def
  netif_input_def init_netif_firewall_def net_boot_def

context nvs_reliable
begin

lemma saved_after_reset:
  "saved_in disk slots sv p \<Longrightarrow> saved_in view slots sv (snd (power_on api slots p))"
  by (simp add: saved_in_def power_on_def domains_on_disk_def services_on_disk_def reset)

lemma boot_from_disk:
  assumes "saved_in disk slots sv p" and "n \<le> 10"
  obtains p' where "boot_upto n api env (power_on api slots p) =
      Inr (fold (\<lambda>u. u) (take n (boot_updates env (config_of (settings_in disk p)) sv)) (router_off slots), p')"
    "view (pflash p') = disk (pflash p)" "disk (pflash p') = disk (pflash p)"
proof -
  have "settings_in view (snd (power_on api slots p)) = settings_in disk p"
    by (simp add: settings_in_def power_on_def reset)
  then show thesis
    using boot_upto_runs [OF saved_after_reset [OF assms(1)] assms(2), of env] that
    by (auto simp: power_on_def reset)
qed

end

section \<open>The last step\<close>

lemma run_steps_append: "run_steps (fs @ gs) s = bindE (run_steps fs s) (run_steps gs)"
  by (induction fs arbitrary: s) (simp_all add: bindE_assoc cong: bindE_cong)

lemma app_main_last: "app_main api env s = bindE (boot_upto 10 api env s) (step_web api env)"
proof -
  have "app_main_steps api env = take 10 (app_main_steps api env) @ [step_web api env]"
    by (simp add: app_main_steps_def)
  then have "app_main api env s = bindE (boot_upto 10 api env s) (run_steps [step_web api env])"
    unfolding app_main_def boot_upto_def by (metis run_steps_append)
  moreover have "run_steps [step_web api env] = step_web api env"
    by (rule ext, simp) (simp add: bindE_def split: sum.split)
  ultimately show ?thesis by simp
qed

lemma start_webserver_bad:
  "render_config_page CONFIG_PAGE c = Inl Bad_format" "start_webserver CONFIG_PAGE b c = Inl Bad_format"
  by (simp_all add: render_config_page_def start_webserver_def html_escape_runs config_page_bad_format Let_def)

context nvs_reliable
begin

lemma step_web_formats:
  assumes "be_template env = CONFIG_PAGE"
  shows "step_web api env (r, p) = Inl Bad_format \<and> str_or (settings_in view p) ''lock'' ''0'' = ''0'' \<or>
    (\<exists>p'. step_web api env (r, p) = Inr (r, p')) \<and> str_or (settings_in view p) ''lock'' ''0'' \<noteq> ''0''"
proof -
  obtain p1 where "param_or api ''lock'' ''0'' p = Inr (str_or (settings_in view p) ''lock'' ''0'', p1)"
    using param_or_reads unfolding reads_def by blast
  then show ?thesis using start_webserver_bad(2) assms by (auto simp: step_web_def)
qed

end

section \<open>Properties\<close>


text \<open>C22: the hook is in place before the rules are: of the ten steps before the web server, frames that
  arrive before the fifth has run all pass, and between the fifth and the seventh they are decided by a
  port filter that blocks nothing, whatever was saved.\<close>

theorem boot_window:
  fixes q :: "'f plat"
  assumes "nvs_reliable api view disk handles" and "saved_in disk slots sv p" and "n \<le> 10"
    and "be_ap_handle env" and "be_ap_netif env"
  shows "\<exists>r p'. boot_upto n api env (power_on api slots p) = Inr (r, p') \<and>
    router_input frame r q =
      (if n < 5 then Inr (Pass, q)
       else ap_netif_input_hook (Some frame) devices_boot (if n < 7 then service_boot else sv_services sv) q)"
proof -
  obtain p' where b: "boot_upto n api env (power_on api slots p) =
      Inr (fold (\<lambda>u. u) (take n (boot_updates env (config_of (settings_in disk p)) sv)) (router_off slots), p')"
    using nvs_reliable.boot_from_disk [OF assms(1-3), of env] by auto
  have "n \<in> {0, 1, 2, 3, 4, 5, 6, 7, 8, 9, 10}"
    using assms(3) by (simp add: eval_nat_numeral le_Suc_eq)
  then show ?thesis
    using b assms(4,5) by (elim insertE emptyE) (simp_all add: boot_state_simps)
qed

text \<open>C34: with the configuration page of the source, start-up gets to the console only on routers whose web
  server was locked: otherwise \<open>snprintf\<close> is given the style sheet of the page as a format, in which
  \<open>%;\<close> is no conversion.\<close>

theorem start_up_formats_config_page:
  assumes "nvs_reliable api view disk handles" and "saved_in disk slots sv p" and "be_template env = CONFIG_PAGE"
  shows "if str_or (settings_in disk p) ''lock'' ''0'' = ''0''
    then app_main api env (power_on api slots p) = Inl Bad_format
    else \<exists>r p'. app_main api env (power_on api slots p) = Inr (r, p') \<and> r_web r = None"
proof -
  obtain p1 where b: "boot_upto 10 api env (power_on api slots p) =
      Inr (fold (\<lambda>u. u) (take 10 (boot_updates env (config_of (settings_in disk p)) sv)) (router_off slots), p1)"
    and v: "view (pflash p1) = disk (pflash p)"
    by (rule nvs_reliable.boot_from_disk [OF assms(1,2), of 10 env]) simp_all
  have "r_web (fold (\<lambda>u. u) (take 10 (boot_updates env (config_of (settings_in disk p)) sv)) (router_off slots)) = None"
    by (simp add: boot_state_simps)
  moreover have "settings_in view p1 = settings_in disk p" using v by (simp add: settings_in_def)
  ultimately show ?thesis
    using nvs_reliable.step_web_formats [OF assms(1,3), of _ p1] b by (fastforce simp: app_main_last)
qed

section \<open>A saved router\<close>

text \<open>A router that was told to block SSH.\<close>

definition ssh_blocked :: service_filter where
  "ssh_blocked = service_boot\<lparr>g_services := builtin_services[3 := (builtin_services ! 3)\<lparr>sr_blocked := True\<rparr>]\<rparr>"

definition ssh_saved :: saved where
  "ssh_saved = \<lparr>sv_portmap = replicate 32 zero_entry, sv_domains = domain_boot, sv_services = ssh_blocked\<rparr>"

definition ssh_plat :: "ram_flash plat" where
  "ssh_plat = \<lparr>plog = log_init, pflash = ram_empty\<lparr>rdisk :=
     [((PARAM_NAMESPACE, NVS_KEY_PORTMAP), NvBlob (tab_bytes (sv_portmap ssh_saved))),
      ((PARAM_NAMESPACE, NVS_KEY_DOMAINS), NvBlob (domains_bytes (blocked_domains domain_boot))),
      ((PARAM_NAMESPACE, NVS_KEY_SVC_BLOCKED), NvU32 (svc_mask (g_services ssh_blocked))),
      ((PARAM_NAMESPACE, NVS_KEY_CUSTOM_RULES), NvBlob (rules_bytes (g_custom_rules ssh_blocked)))]\<rparr>\<rparr>"

lemma ssh_blocked_wf: "sf_wf ssh_blocked"
proof -
  let ?f = "sr_blocked_update (\<lambda>_. False)"
  have m: "map ?f builtin_services = builtin_services"
    using sf_wf_boot by (simp add: sf_wf_def service_boot_def)
  have "length builtin_services = 16" by (simp add: builtin_services_def)
  then have "?f (builtin_services ! 3) = map ?f builtin_services ! 3" by (subst nth_map) simp_all
  then have "map ?f (g_services ssh_blocked) = builtin_services"
    by (simp add: ssh_blocked_def map_update m)
  then show ?thesis using sf_wf_boot by (simp add: sf_wf_def ssh_blocked_def)
qed

lemma ssh_saved_in: "saved_in (\<lambda>f. map_of (rdisk f)) 32 ssh_saved ssh_plat"
  by (simp add: saved_in_def ssh_saved_def ssh_plat_def domains_on_disk_def services_on_disk_def
      NVS_KEY_PORTMAP_def NVS_KEY_DOMAINS_def NVS_KEY_SVC_BLOCKED_def NVS_KEY_CUSTOM_RULES_def
      tab_wf_def list_all_length zero_entry_def domains_wf_boot ssh_blocked_wf)

text \<open>Frames of the sample device under the saved and under the initial port filter.\<close>

lemma ssh_frame:
  "\<exists>p'. ap_netif_input_hook (Some (sample_frame 22)) devices_boot ssh_blocked p = Inr (Drop, p')"
  "\<exists>p'. ap_netif_input_hook (Some (sample_frame 22)) devices_boot service_boot p = Inr (Pass, p')"
proof -
  let ?k = "\<lparr>pk_src = [2, 2, 2, 2, 2, 2], pk_proto = 6, pk_dport = 22\<rparr>"
  have "\<not> permits devices_boot ssh_blocked ?k" "permits devices_boot service_boot ?k" by code_simp+
  then show "\<exists>p'. ap_netif_input_hook (Some (sample_frame 22)) devices_boot ssh_blocked p = Inr (Drop, p')"
    "\<exists>p'. ap_netif_input_hook (Some (sample_frame 22)) devices_boot service_boot p = Inr (Pass, p')"
    using hook_verdict [OF sample_frame_facts(1), of 22 devices_boot ssh_blocked p]
      hook_verdict [OF sample_frame_facts(1), of 22 devices_boot service_boot p]
    by (auto simp: sample_frame_facts)
qed

text \<open>Access point found, everything started, the router's own address resolved to 1.\<close>

definition sample_env :: boot_env where
  "sample_env = \<lparr>be_aton = (\<lambda>_. 1), be_ap_handle = True, be_ap_netif = True, be_dns_task = True,
     be_httpd = True, be_template = []\<rparr>"


theorem boot_window_witness:
  "\<exists>r6 p6 r7 p7. boot_upto 6 ram_api sample_env (power_on ram_api 32 ssh_plat) = Inr (r6, p6) \<and>
     boot_upto 7 ram_api sample_env (power_on ram_api 32 ssh_plat) = Inr (r7, p7) \<and>
     (\<exists>q. router_input (sample_frame 22) r6 plat0 = Inr (Pass, q)) \<and>
     (\<exists>q. router_input (sample_frame 22) r7 plat0 = Inr (Drop, q))"
proof -
  have e: "be_ap_handle sample_env" "be_ap_netif sample_env" by (simp_all add: sample_env_def)
  note w = boot_window [OF ram.nvs_reliable_axioms ssh_saved_in _ e, of _ "sample_frame 22" plat0]
  from w [of 6] w [of 7] show ?thesis
    using ssh_frame [of plat0] by (auto simp: ssh_saved_def)
qed

theorem start_up_formats_config_page_witness:
  "app_main ram_api (sample_env\<lparr>be_template := CONFIG_PAGE\<rparr>) (power_on ram_api 32 ssh_plat) = Inl Bad_format"
proof -
  have "str_or (settings_in (\<lambda>f. map_of (rdisk f)) ssh_plat) ''lock'' ''0'' = ''0''"
    by (simp add: str_or_def str_setting_def settings_in_def ssh_plat_def NVS_KEY_PORTMAP_def NVS_KEY_DOMAINS_def
        NVS_KEY_SVC_BLOCKED_def NVS_KEY_CUSTOM_RULES_def)
  then show ?thesis
    using start_up_formats_config_page [OF ram.nvs_reliable_axioms ssh_saved_in, of "sample_env\<lparr>be_template := CONFIG_PAGE\<rparr>"]
    by simp
qed

end
