(* ===== verification/Http_State.thy ===== *)
theory Http_State
  imports Http_Server Domain_Store Service_Laws Settings_Props
begin

text \<open>
  The web server as a machine: requests are routed to the handlers, and the handlers work on the
  port filter, the domain list, the devices and the settings. Then what the pages promise: devices,
  the forms, and that no sequence of requests breaks the state.
\<close>

section \<open>Serving requests\<close>

record http_state =
  hs_services :: service_filter
  hs_domains :: domain_filter
  hs_devices :: devices
  hs_restart :: bool    \<comment> \<open>the restart timer runs\<close>

text \<open>What the server was started with: the libraries, the two pages and the routes.\<close>

record ('f, 'j) http_env =
  he_api :: "'f nvs_api"
  he_parse :: arg_parse
  he_json :: "'j json_api"
  he_dashboard :: string
  he_server :: webserver

fun handle :: "('f, 'j) http_env \<Rightarrow> http_handler \<Rightarrow> http_request \<Rightarrow> http_state \<times> 'f plat \<Rightarrow>
    (esp_err \<times> response \<times> http_state \<times> 'f plat) cres" where
  "handle E Index_get req (h, p) =
     bindE (index_get_handler (he_api E) (he_parse E) (ws_page (he_server E)) req (hs_restart h) p)
       (\<lambda>(e, r, b, p1). Inr (e, r, h\<lparr>hs_restart := b\<rparr>, p1))"
| "handle E Inspect_packet req (h, p) = (case inspect_packet_handler of (e, r) \<Rightarrow> Inr (e, r, h, p))"
| "handle E Logs_data req (h, p) = Inr (ESP_OK, Sent_chunks (logs_data_handler (plog p)), h, p)"
| "handle E Dashboard_get req (h, p) = (case dashboard_get_handler (he_dashboard E) of (e, r) \<Rightarrow> Inr (e, r, h, p))"
| "handle E Get_devices req (h, p) = Inr (ESP_OK, get_devices_handler (hs_devices h), h, p)"
| "handle E Update_mac req (h, p) =
     bindE (update_mac_handler (he_json E) req (hs_devices h) p) (\<lambda>(e, r, d, p1). Inr (e, r, h\<lparr>hs_devices := d\<rparr>, p1))"
| "handle E Get_port_rules req (h, p) = Inr (ESP_OK, get_port_rules_handler (hs_services h), h, p)"
| "handle E Update_port_rule req (h, p) =
     bindE (update_port_rule_handler (he_api E) (he_json E) req (hs_services h) p)
       (\<lambda>(e, r, s, p1). Inr (e, r, h\<lparr>hs_services := s\<rparr>, p1))"
| "handle E Get_blocked_domains req (h, p) = Inr (ESP_OK, get_blocked_domains_handler (hs_domains h), h, p)"
| "handle E Add_blocked_domain req (h, p) =
     bindE (add_blocked_domain_handler (he_api E) (he_json E) req (hs_domains h) p)
       (\<lambda>(e, r, df, p1). Inr (e, r, h\<lparr>hs_domains := df\<rparr>, p1))"
| "handle E Remove_blocked_domain req (h, p) =
     bindE (remove_blocked_domain_handler (he_api E) (he_json E) req (hs_domains h) p)
       (\<lambda>(e, r, df, p1). Inr (e, r, h\<lparr>hs_domains := df\<rparr>, p1))"
| "handle E Remove_blocked_domain_query req (h, p) =
     bindE (remove_blocked_domain_query_handler (he_api E) req (hs_domains h) p)
       (\<lambda>(e, r, df, p1). Inr (e, r, h\<lparr>hs_domains := df\<rparr>, p1))"
| "handle E Get_services req (h, p) = Inr (ESP_OK, get_services_handler (hs_services h), h, p)"
| "handle E Set_service req (h, p) =
     bindE (set_service_handler (he_api E) (he_json E) req (hs_services h) p)
       (\<lambda>(e, r, s, p1). Inr (e, r, h\<lparr>hs_services := s\<rparr>, p1))"
| "handle E Get_custom_ports req (h, p) = Inr (ESP_OK, get_custom_ports_handler (hs_services h), h, p)"
| "handle E Add_custom_port req (h, p) =
     bindE (add_custom_port_handler (he_api E) (he_json E) req (hs_services h) p)
       (\<lambda>(e, r, s, p1). Inr (e, r, h\<lparr>hs_services := s\<rparr>, p1))"
| "handle E Remove_custom_port req (h, p) =
     bindE (remove_custom_port_handler (he_api E) (he_json E) req (hs_services h) p)
       (\<lambda>(e, r, s, p1). Inr (e, r, h\<lparr>hs_services := s\<rparr>, p1))"

text \<open>A path and a method find their handler among the routes; anything else is answered by 404.\<close>

definition route :: "(string \<times> http_method \<times> http_handler) list \<Rightarrow> string \<Rightarrow> http_method \<Rightarrow> http_handler option" where
  "route rs uri m = map_of (map (\<lambda>(u, n, h). ((u, n), h)) rs) (uri, m)"

definition serve :: "('f, 'j) http_env \<Rightarrow> string \<times> http_method \<times> http_request \<Rightarrow> http_state \<times> 'f plat \<Rightarrow>
    (esp_err \<times> response \<times> http_state \<times> 'f plat) cres" where
  "serve E rq st = (case rq of (uri, m, req) \<Rightarrow> (case route (ws_routes (he_server E)) uri m of
       Some h \<Rightarrow> handle E h req st
     | None \<Rightarrow> (case http_404_error_handler of (e, r) \<Rightarrow> Inr (e, r, fst st, snd st))))"

definition serve_step :: "('f, 'j) http_env \<Rightarrow> string \<times> http_method \<times> http_request \<Rightarrow> http_state \<times> 'f plat \<Rightarrow>
    (http_state \<times> 'f plat) cres" where
  "serve_step E rq st = bindE (serve E rq st) (\<lambda>(_, _, h, p). Inr (h, p))"

section \<open>No request breaks the state\<close>

text \<open>The texts the libraries hand over are C strings.\<close>

definition c_texts :: "('f, 'j) http_env \<Rightarrow> bool" where
  "c_texts E \<longleftrightarrow> (\<forall>j s. valuestring (he_json E) j = Some s \<longrightarrow> is_cstr s)"

definition http_ok :: "http_state \<Rightarrow> bool" where
  "http_ok h \<longleftrightarrow> sf_wf (hs_services h) \<and> domains_wf (hs_domains h) \<and> devices_wf (hs_devices h)"

lemma with_jsonE:
  assumes "with_json sz cap msg J req bad k = Inr x"
  obtains m where "x = bad m" | j where "k j = Inr x"
proof -
  from assms obtain body where "(case body of None \<Rightarrow> Inr (bad msg)
      | Some buf \<Rightarrow> (case cJSON_Parse J buf of None \<Rightarrow> Inr (bad ''Invalid JSON'') | Some json \<Rightarrow> k json)) = Inr x"
    unfolding with_json_def bindE_eq_Inr by blast
  then show thesis using that by (cases body; cases "cJSON_Parse J (the body)") auto
qed

lemma set_device_status_snd_wf: "devices_wf d \<Longrightarrow> devices_wf (snd (set_device_status m t d))"
  using set_device_status_wf [of m t d "fst (set_device_status m t d)" "snd (set_device_status m t d)"] by simp

lemma update_mac_wf:
  "update_mac_handler J req d p = Inr (e, r, d', p') \<Longrightarrow> devices_wf d \<Longrightarrow> devices_wf d'"
  unfolding update_mac_handler_def
  by (erule with_jsonE)
    (auto simp: bindE_eq_Inr guardE_eq_Inr Let_def split: option.splits if_splits intro: set_device_status_snd_wf)

lemma update_port_rule_wf:
  "update_port_rule_handler api J req s p = Inr (e, r, s', p') \<Longrightarrow> sf_wf s \<Longrightarrow> sf_wf s'"
  unfolding update_port_rule_handler_def
  by (erule with_jsonE) (auto simp: bindE_eq_Inr Let_def split: option.splits intro: service_set_blocked_wf)

lemma set_service_wf:
  "set_service_handler api J req s p = Inr (e, r, s', p') \<Longrightarrow> sf_wf s \<Longrightarrow> sf_wf s'"
  unfolding set_service_handler_def
  by (erule with_jsonE) (auto simp: bindE_eq_Inr Let_def split: option.splits if_splits intro: service_set_blocked_wf)

lemma add_custom_port_wf:
  "add_custom_port_handler api J req s p = Inr (e, r, s', p') \<Longrightarrow> sf_wf s \<Longrightarrow> sf_wf s'"
  unfolding add_custom_port_handler_def
  by (erule with_jsonE) (auto simp: bindE_eq_Inr split: option.splits intro: service_add_custom_wf)

lemma remove_custom_port_wf:
  "remove_custom_port_handler api J req s p = Inr (e, r, s', p') \<Longrightarrow> sf_wf s \<Longrightarrow> sf_wf s'"
  unfolding remove_custom_port_handler_def
  by (erule with_jsonE) (auto simp: bindE_eq_Inr split: option.splits intro: service_remove_custom_wf)

lemma add_domain_wf:
  assumes "add_blocked_domain_handler api J req df p = Inr (e, r, df', p')" and "domains_wf df"
    and "\<And>j s. valuestring J j = Some s \<Longrightarrow> is_cstr s"
  shows "domains_wf df'"
  using assms(1) unfolding add_blocked_domain_handler_def
  by (rule with_jsonE)
    (use assms(2,3) in \<open>auto simp: bindE_eq_Inr split: option.splits intro: add_blocked_domain_names(1)\<close>)

lemma remove_domain_wf:
  "remove_blocked_domain_handler api J req df p = Inr (e, r, df', p') \<Longrightarrow> domains_wf df \<Longrightarrow> domains_wf df'"
  unfolding remove_blocked_domain_handler_def
  by (erule with_jsonE) (auto simp: bindE_eq_Inr split: option.splits intro: remove_blocked_domain_names(1))

lemma remove_domain_query_wf:
  "remove_blocked_domain_query_handler api req df p = Inr (e, r, df', p') \<Longrightarrow> domains_wf df \<Longrightarrow> domains_wf df'"
  unfolding remove_blocked_domain_query_handler_def
  by (auto simp: bindE_eq_Inr split: option.splits if_splits intro: remove_blocked_domain_names(1))

lemma handle_ok:
  assumes "handle E k req (h, p) = Inr (e, r, h', p')" and "http_ok h" and "c_texts E"
  shows "http_ok h'"
  using assms
  by (cases k) (auto simp: http_ok_def c_texts_def bindE_eq_Inr inspect_packet_handler_def dashboard_get_handler_def
      intro: update_mac_wf update_port_rule_wf set_service_wf add_custom_port_wf remove_custom_port_wf
        add_domain_wf remove_domain_wf remove_domain_query_wf)

text \<open>The parser and accessors of a JSON library, as far as the handlers rely on them.\<close>

locale json_library =
  fixes J :: "'j json_api"
  assumes valuestring_cstr: "valuestring J j = Some s \<Longrightarrow> is_cstr s"
begin

lemma step_ok:
  assumes "serve_step (E\<lparr>he_json := J\<rparr>) rq (h, p) = Inr (h', p')" and "http_ok h"
  shows "http_ok h'"
proof -
  obtain uri m req where rq: "rq = (uri, m, req)" by (cases rq)
  have "c_texts (E\<lparr>he_json := J\<rparr>)" using valuestring_cstr by (auto simp: c_texts_def)
  then show ?thesis
    using assms handle_ok [of "E\<lparr>he_json := J\<rparr>" _ req h p]
    by (auto simp: serve_step_def serve_def rq http_404_error_handler_def bindE_eq_Inr split: option.splits)
qed

end

sublocale json_library \<subseteq> web: op_system "serve_step (E\<lparr>he_json := J\<rparr>)" "\<lambda>(h, p). http_ok h" for E
  by unfold_locales (auto intro: step_ok)

text \<open>JSON values themselves are such a library, whatever parser makes them.\<close>

fun jval_item :: "jval \<Rightarrow> string \<Rightarrow> jval option" where
  "jval_item (JObj fs) k = map_of fs k"
| "jval_item _ k = None"

fun jval_text :: "jval \<Rightarrow> string option" where
  "jval_text (JStr s) = Some (cstr s)"
| "jval_text _ = None"

fun jval_number :: "jval \<Rightarrow> int \<times> int" where
  "jval_number (JInt i) = (i, 1)"
| "jval_number _ = (0, 1)"

fun_cases jval_textE: "jval_text j = Some s"

definition jval_json :: "(string \<Rightarrow> jval option) \<Rightarrow> jval json_api" where
  "jval_json parser = \<lparr>cJSON_Parse = parser, cJSON_GetObjectItem = jval_item, valuestring = jval_text,
     valuedouble = jval_number, cJSON_IsTrue = (\<lambda>j. j = JBool True)\<rparr>"

interpretation jval: json_library "jval_json parser" for parser
proof
  fix j s assume "valuestring (jval_json parser) j = Some s"
  then show "is_cstr s" by (auto simp: jval_json_def elim: jval_textE)
qed

section \<open>What the handlers are sent\<close>

definition posts :: "'j json_api \<Rightarrow> http_request \<Rightarrow> nat \<Rightarrow> 'j \<Rightarrow> bool" where
  "posts J req n j \<longleftrightarrow> (\<exists>body. rq_recv req n = Some body \<and> length body < n \<and> cJSON_Parse J (cstr body) = Some j)"

definition has_text :: "'j json_api \<Rightarrow> 'j \<Rightarrow> string \<Rightarrow> string \<Rightarrow> bool" where
  "has_text J j k t \<longleftrightarrow> (\<exists>i. cJSON_GetObjectItem J j k = Some i \<and> valuestring J i = Some t)"

lemma with_json_posts: "posts J req n j \<Longrightarrow> with_json n n msg J req bad k = k j"
  by (auto simp: posts_def with_json_def recv_body_def)

section \<open>Devices on the page\<close>

lemma mac_string_inj: "length m = length n \<Longrightarrow> mac_string m = mac_string n \<Longrightarrow> m = n"
  by (metis scan_mac_string)

lemma device_status_set:
  assumes "devices_wf d" and "m \<in> set (map dv_mac (known d))"
  shows "device_status x (snd (set_device_status m ''BLOCKED'' d)) = (if x = m then BLOCKED else device_status x d)"
proof -
  obtain i where i: "first_idx (\<lambda>e. dv_mac e = m) (known d) = Some i"
    using assms(2) by (cases "first_idx (\<lambda>e. dv_mac e = m) (known d)") (auto simp: first_idx_None)
  note I = first_idx_SomeD [OF i]
  have len: "length (known d) = device_count d" using assms(1) by (simp add: known_def devices_wf_def)
  let ?d = "d\<lparr>device_list := (device_list d)[i := (device_list d ! i)\<lparr>dv_status := BLOCKED\<rparr>]\<rparr>"
  have d': "snd (set_device_status m ''BLOCKED'' d) = ?d"
    using i by (simp add: set_device_status_def known_def Let_def)
  have k: "known ?d = (known d)[i := (known d ! i)\<lparr>dv_status := BLOCKED\<rparr>]"
    using known_status_update [OF assms(1)] I(1) len by simp
  have f: "first_idx (\<lambda>e. dv_mac e = x) (known ?d) = first_idx (\<lambda>e. dv_mac e = x) (known d)"
  proof -
    have "map dv_mac (known ?d) = map dv_mac (known d)"
      unfolding k using I(1) by (intro nth_equalityI) (auto simp: nth_list_update)
    then show ?thesis using first_idx_map [of "\<lambda>y. y = x" dv_mac] by metis
  qed
  have st: "device_status x e = (case first_idx (\<lambda>e. dv_mac e = x) (known e) of
      Some j \<Rightarrow> dv_status (known e ! j) | None \<Rightarrow> PENDING)" for e
    by (cases "first_idx (\<lambda>e. dv_mac e = x) (known e)")
      (auto simp: device_status_def known_def dest: first_idx_SomeD(1))
  show ?thesis
  proof (cases "x = m")
    case True
    then show ?thesis using st [of ?d] f i I(1) by (simp add: d' k)
  next
    case False
    have "(known ?d ! j) = known d ! j" if "first_idx (\<lambda>e. dv_mac e = x) (known d) = Some j" for j
      using first_idx_SomeD [OF that] I(2) False by (cases "j = i") (auto simp: k)
    then show ?thesis using st [of ?d] st [of d] f False by (auto simp: d' split: option.split)
  qed
qed

end
