(* ===== verification/Dashboard.thy ===== *)
theory Dashboard
  imports Http_State
begin

text \<open>
  The dashboard: the script of \<open>DASHBOARD_PAGE\<close> in \<open>main/pages.h\<close>, the client of the web server.

  The state is what the script changes of the page: the counters, the rows of the three lists, the log
  box, the input field and the alerts. A function of the script is a definition that gets the page and
  the state behind the network; an asynchronous call runs to its end before the next one starts.
  \<open>None\<close> for a list is the text it has before the first answer. Errors on the browser's console are left
  out. Texts are bytes; the characters of a page that are not ASCII stand only in its markup.
\<close>

section \<open>Requests and replies\<close>

text \<open>
  A failed request is no reply. \<open>resp.json()\<close> rejects a body that is no JSON, \<open>resp.text()\<close> of a JSON body
  is what \<open>cJSON_Print\<close> made of it, \<open>print\<close> below.
\<close>

datatype request = Get string | Post string jval

datatype body = Json jval | Plain string

datatype reply = Reply bool body    \<comment> \<open>\<open>resp.ok\<close>\<close>

type_synonym 's web = "request \<Rightarrow> 's \<Rightarrow> (reply option \<times> 's) cres"

fun resp_ok :: "reply \<Rightarrow> bool" where
  "resp_ok (Reply ok _) = ok"

fun resp_json :: "reply \<Rightarrow> jval option" where
  "resp_json (Reply _ (Json v)) = Some v"
| "resp_json (Reply _ (Plain _)) = None"

fun resp_text :: "(jval \<Rightarrow> string) \<Rightarrow> reply \<Rightarrow> string" where
  "resp_text print (Reply _ (Json v)) = print v"
| "resp_text print (Reply _ (Plain t)) = t"

text \<open>
  Reading JSON values as the language does: of two members of one name the later counts, at the place of
  the earlier; \<open>js_member\<close> is the value of \<open>v.name\<close>, \<open>None\<close> when it is undefined.
\<close>

fun js_member :: "string \<Rightarrow> jval \<Rightarrow> jval option" where
  "js_member k (JObj kvs) = map_of (rev kvs) k"
| "js_member k _ = None"

fun js_entries :: "jval \<Rightarrow> (string \<times> jval) list" where
  "js_entries (JObj kvs) = map (\<lambda>k. (k, the (map_of (rev kvs) k))) (rev (remdups (rev (map fst kvs))))"
| "js_entries _ = []"    \<comment> \<open>the entries of other values have numbers as keys\<close>

fun js_length :: "jval \<Rightarrow> jval option" where
  "js_length (JArr vs) = Some (JInt (int (length vs)))"
| "js_length (JStr s) = Some (JInt (int (length s)))"
| "js_length v = js_member ''length'' v"

text \<open>An object with one member, which is left out when its value is undefined.\<close>

definition js_object :: "string \<Rightarrow> jval option \<Rightarrow> (string \<times> jval) list" where
  "js_object k v = (case v of None \<Rightarrow> [] | Some x \<Rightarrow> [(k, x)])"

fun truthy :: "jval \<Rightarrow> bool" where
  "truthy (JStr s) = (s \<noteq> [])"
| "truthy (JInt n) = (n \<noteq> 0)"
| "truthy (JBool b) = b"
| "truthy _ = True"

section \<open>The page\<close>

record port_row =
  pr_port :: string
  pr_name :: string
  pr_desc :: string
  pr_checked :: bool

datatype device_button = Allow_button | Block_button

record device_row =
  dr_mac :: "jval option"
  dr_badge :: string
  dr_status :: string
  dr_access :: string
  dr_buttons :: "device_button list option"    \<comment> \<open>\<open>None\<close>: the text \<open>Protected\<close>\<close>

record page =
  totalDevices :: nat
  allowedDevices :: nat
  blockedDevices :: nat
  blockedDomainsCount :: "jval option"
  portControls :: "port_row list option"
  domainList :: "jval option list"
  deviceTable :: "device_row list option"
  logBox :: string
  domainInput :: string
  alerts :: "string list"

definition page_loaded :: page where
  "page_loaded = \<lparr>totalDevices = 0, allowedDevices = 0, blockedDevices = 0, blockedDomainsCount = Some (JInt 0),
     portControls = None, domainList = [], deviceTable = None, logBox = ''Loading logs...'', domainInput = [],
     alerts = []\<rparr>"

definition alert :: "string \<Rightarrow> page \<Rightarrow> page" where
  "alert t d = d\<lparr>alerts := alerts d @ [t]\<rparr>"

section \<open>Port rules\<close>

definition PORT_INFO :: "(string \<times> string \<times> string) list" where
  "PORT_INFO =
    [(''tcp_443'', ''HTTPS'', ''TCP 443''),
     (''tcp_80'', ''HTTP'', ''TCP 80''),
     (''udp_53'', ''DNS'', ''UDP 53''),
     (''tcp_22'', ''SSH'', ''TCP 22''),
     (''tcp_21'', ''FTP'', ''TCP 21''),
     (''tcp_25'', ''SMTP'', ''TCP 25''),
     (''tcp_110'', ''POP3'', ''TCP 110''),
     (''tcp_143'', ''IMAP'', ''TCP 143''),
     (''tcp_3389'', ''RDP'', ''TCP 3389''),
     (''udp_123'', ''NTP'', ''UDP 123'')]"

text \<open>\<open>info.icon\<close> is undefined for every entry, and a template writes that out.\<close>

definition port_rows :: "jval \<Rightarrow> port_row list" where
  "port_rows rules = concat (map (\<lambda>(port, enabled). case map_of PORT_INFO port of
       None \<Rightarrow> []
     | Some (name, desc) \<Rightarrow> [\<lparr>pr_port = port, pr_name = ''undefined '' @ name, pr_desc = desc, pr_checked = truthy enabled\<rparr>])
     (js_entries rules))"

definition fetchPortRules :: "'s web \<Rightarrow> page \<times> 's \<Rightarrow> (page \<times> 's) cres" where
  "fetchPortRules net ps = bindE (net (Get ''/port_rules'') (snd ps)) (\<lambda>(resp, s).
     Inr (case Option.bind resp resp_json of
            None \<Rightarrow> (fst ps, s)
          | Some rules \<Rightarrow> ((fst ps)\<lparr>portControls := Some (port_rows rules)\<rparr>, s)))"

section \<open>Logs\<close>

definition fetchLogs :: "(jval \<Rightarrow> string) \<Rightarrow> 's web \<Rightarrow> page \<times> 's \<Rightarrow> (page \<times> 's) cres" where
  "fetchLogs print net ps = bindE (net (Get ''/logs'') (snd ps)) (\<lambda>(res, s).
     Inr (case res of
            None \<Rightarrow> (fst ps, s)
          | Some r \<Rightarrow> let text = resp_text print r
              in ((fst ps)\<lparr>logBox := (if text = [] then ''No logs yet...'' else text)\<rparr>, s)))"

text \<open>A click on the switch of a row: the browser flips it, then calls \<open>updatePortRule\<close>.\<close>

definition updatePortRule ::
    "(jval \<Rightarrow> string) \<Rightarrow> 's web \<Rightarrow> string \<Rightarrow> bool \<Rightarrow> page \<times> 's \<Rightarrow> (page \<times> 's) cres" where
  "updatePortRule print net port enabled ps =
     bindE (net (Post ''/update_port_rule'' (JObj [(''port'', JStr port), (''enabled'', JBool enabled)])) (snd ps)) (\<lambda>(resp, s).
       case resp of
         None \<Rightarrow> Inr (alert ''Error updating port rule'' (fst ps), s)
       | Some r \<Rightarrow> if resp_ok r then fetchLogs print net (fst ps, s)
                   else Inr (alert ''Failed to update port rule'' (fst ps), s))"

definition click_switch :: "(jval \<Rightarrow> string) \<Rightarrow> 's web \<Rightarrow> nat \<Rightarrow> page \<times> 's \<Rightarrow> (page \<times> 's) cres" where
  "click_switch print net i ps = (case portControls (fst ps) of
       Some rows \<Rightarrow> if i < length rows
         then let row = (rows ! i)\<lparr>pr_checked := \<not> pr_checked (rows ! i)\<rparr>
              in updatePortRule print net (pr_port row) (pr_checked row) ((fst ps)\<lparr>portControls := Some (rows[i := row])\<rparr>, snd ps)
         else Inr ps
     | None \<Rightarrow> Inr ps)"

section \<open>Devices\<close>

definition protected_mac :: string where "protected_mac = ''8C:1D:96:5F:7D:A5''"

definition updateStats :: "nat \<Rightarrow> nat \<Rightarrow> nat \<Rightarrow> nat \<Rightarrow> page \<Rightarrow> page" where
  "updateStats n allowed blocked pending d = d\<lparr>totalDevices := n, allowedDevices := allowed, blockedDevices := blocked\<rparr>"

definition access_text :: "jval option \<Rightarrow> string \<Rightarrow> string" where
  "access_text mac status =
     (if mac = Some (JStr protected_mac) then ''OK Full Access''
      else if status = ''ALLOWED'' then ''Full Internet''
      else if status = ''BLOCKED'' then ''No Access''
      else ''Limited (Port Rules)'')"

definition device_buttons :: "jval option \<Rightarrow> string \<Rightarrow> device_button list option" where
  "device_buttons mac status =
     (if mac \<noteq> Some (JStr protected_mac)
      then Some ((if status \<noteq> ''ALLOWED'' then [Allow_button] else []) @
                 (if status \<noteq> ''BLOCKED'' then [Block_button] else []))
      else None)"

text \<open>The row of an element of the answer; without a status that is a text, building it throws.\<close>

definition device_row_of :: "jval \<Rightarrow> device_row option" where
  "device_row_of dev = (case js_member ''status'' dev of
       Some (JStr status) \<Rightarrow>
         let mac = js_member ''mac'' dev
         in Some \<lparr>dr_mac = mac, dr_badge = ''status-badge status-'' @ map c_tolower status, dr_status = status,
                  dr_access = access_text mac status, dr_buttons = device_buttons mac status\<rparr>
     | _ \<Rightarrow> None)"

text \<open>The rows up to the first element that throws, and whether none does.\<close>

fun device_rows :: "jval list \<Rightarrow> device_row list \<times> bool" where
  "device_rows [] = ([], True)"
| "device_rows (dev # devs) = (case device_row_of dev of
       None \<Rightarrow> ([], False)
     | Some row \<Rightarrow> (case device_rows devs of (rows, ok) \<Rightarrow> (row # rows, ok)))"

definition with_status :: "string \<Rightarrow> device_row list \<Rightarrow> nat" where
  "with_status st rows = length (filter (\<lambda>r. dr_status r = st) rows)"

definition show_devices :: "jval \<Rightarrow> page \<Rightarrow> page" where
  "show_devices devices d0 =
     (let d = d0\<lparr>deviceTable := Some []\<rparr>
      in if js_length devices = Some (JInt 0) then updateStats 0 0 0 0 d
         else case devices of
           JArr devs \<Rightarrow> (case device_rows devs of (rows, ok) \<Rightarrow>
             let d1 = d\<lparr>deviceTable := Some rows\<rparr>
             in if ok then updateStats (length devs) (with_status ''ALLOWED'' rows) (with_status ''BLOCKED'' rows)
                             (with_status ''PENDING'' rows) d1
                else d1)
         | _ \<Rightarrow> d)"    \<comment> \<open>nothing else has \<open>forEach\<close>\<close>

definition fetchDevices :: "'s web \<Rightarrow> page \<times> 's \<Rightarrow> (page \<times> 's) cres" where
  "fetchDevices net ps = bindE (net (Get ''/devices'') (snd ps)) (\<lambda>(resp, s).
     Inr (case Option.bind resp resp_json of
            None \<Rightarrow> (fst ps, s)
          | Some devices \<Rightarrow> (show_devices devices (fst ps), s)))"

definition updateMac ::
    "(jval \<Rightarrow> string) \<Rightarrow> 's web \<Rightarrow> jval option \<Rightarrow> string \<Rightarrow> page \<times> 's \<Rightarrow> (page \<times> 's) cres" where
  "updateMac print net mac status ps =
     bindE (net (Post ''/update_mac'' (JObj (js_object ''mac'' mac @ [(''status'', JStr status)]))) (snd ps)) (\<lambda>(response, s).
       case response of
         None \<Rightarrow> Inr (fst ps, s)
       | Some r \<Rightarrow> if resp_ok r then bindE (fetchDevices net (fst ps, s)) (fetchLogs print net)
                   else Inr (alert ''Failed to update device status'' (fst ps), s))"

text \<open>A click on a button of a row; \<open>yes\<close> is the answer to the question before a block.\<close>

definition click_device ::
    "(jval \<Rightarrow> string) \<Rightarrow> 's web \<Rightarrow> device_button \<Rightarrow> bool \<Rightarrow> jval option \<Rightarrow> page \<times> 's \<Rightarrow> (page \<times> 's) cres" where
  "click_device print net b yes mac ps = (case b of
       Allow_button \<Rightarrow> updateMac print net mac ''ALLOWED'' ps
     | Block_button \<Rightarrow> if yes then updateMac print net mac ''BLOCKED'' ps else Inr ps)"

section \<open>Domains\<close>

definition show_domains :: "jval \<Rightarrow> page \<Rightarrow> page" where
  "show_domains domains d0 =
     (let d = d0\<lparr>blockedDomainsCount := js_length domains, domainList := []\<rparr>
      in if js_length domains = Some (JInt 0) then d
         else case domains of
           JArr items \<Rightarrow> d\<lparr>domainList := map (js_member ''domain'') items\<rparr>
         | _ \<Rightarrow> d)"

definition fetchBlockedDomains :: "'s web \<Rightarrow> page \<times> 's \<Rightarrow> (page \<times> 's) cres" where
  "fetchBlockedDomains net ps = bindE (net (Get ''/blocked_domains'') (snd ps)) (\<lambda>(resp, s).
     Inr (case Option.bind resp resp_json of
            None \<Rightarrow> (fst ps, s)
          | Some domains \<Rightarrow> (show_domains domains (fst ps), s)))"

text \<open>The white space of ASCII; a typed name has no other.\<close>

definition js_space :: "char \<Rightarrow> bool" where
  "js_space c \<longleftrightarrow> (let n = (of_char c :: nat) in n = 32 \<or> (9 \<le> n \<and> n \<le> 13))"

definition trim :: "string \<Rightarrow> string" where
  "trim s = rev (dropWhile js_space (rev (dropWhile js_space s)))"

definition addDomain :: "(jval \<Rightarrow> string) \<Rightarrow> 's web \<Rightarrow> page \<times> 's \<Rightarrow> (page \<times> 's) cres" where
  "addDomain print net ps =
     (let domain = trim (domainInput (fst ps))
      in if domain = [] then Inr (alert ''Please enter a domain'' (fst ps), snd ps)
         else bindE (net (Post ''/add_domain'' (JObj [(''domain'', JStr domain)])) (snd ps)) (\<lambda>(resp, s).
           case resp of
             None \<Rightarrow> Inr (alert ''Error adding domain'' (fst ps), s)
           | Some r \<Rightarrow> if resp_ok r
               then bindE (fetchBlockedDomains net ((fst ps)\<lparr>domainInput := []\<rparr>, s)) (fetchLogs print net)
               else Inr (alert ''Failed to add domain'' (fst ps), s)))"

definition removeDomain :: "(jval \<Rightarrow> string) \<Rightarrow> 's web \<Rightarrow> bool \<Rightarrow> jval option \<Rightarrow> page \<times> 's \<Rightarrow> (page \<times> 's) cres" where
  "removeDomain print net yes domain ps =
     (if \<not> yes then Inr ps
      else bindE (net (Post ''/remove_domain'' (JObj (js_object ''domain'' domain))) (snd ps)) (\<lambda>(resp, s).
           case resp of
             None \<Rightarrow> Inr (alert ''Error removing domain'' (fst ps), s)
           | Some r \<Rightarrow> if resp_ok r
               then bindE (fetchBlockedDomains net (fst ps, s)) (fetchLogs print net)
               else Inr (alert ''Failed to remove domain'' (fst ps), s)))"

section \<open>The script\<close>

text \<open>
  The calls at the end of the script, by name. A name no function has ends the script with an error; the
  result says which name it was.
\<close>

definition script_functions :: "(jval \<Rightarrow> string) \<Rightarrow> 's web \<Rightarrow> (string \<times> (page \<times> 's \<Rightarrow> (page \<times> 's) cres)) list" where
  "script_functions print net =
    [(''fetchPortRules'', fetchPortRules net), (''fetchLogs'', fetchLogs print net), (''fetchDevices'', fetchDevices net),
     (''fetchBlockedDomains'', fetchBlockedDomains net), (''addDomain'', addDomain print net)]"

definition script_calls :: "string list" where
  "script_calls = [''fetchLogs'', ''fetchDevices'', ''fetchBlockedDomains'', ''fetchPortRules'', ''fetchServices'', ''fetchCustomPorts'']"

fun run_calls ::
    "(string \<times> (page \<times> 's \<Rightarrow> (page \<times> 's) cres)) list \<Rightarrow> string list \<Rightarrow> page \<times> 's \<Rightarrow> (string option \<times> page \<times> 's) cres" where
  "run_calls fs [] ps = Inr (None, ps)"
| "run_calls fs (c # cs) ps = (case map_of fs c of
       None \<Rightarrow> Inr (Some c, ps)
     | Some f \<Rightarrow> bindE (f ps) (run_calls fs cs))"

definition run_script :: "(jval \<Rightarrow> string) \<Rightarrow> 's web \<Rightarrow> page \<times> 's \<Rightarrow> (string option \<times> page \<times> 's) cres" where
  "run_script print net ps = run_calls (script_functions print net) script_calls ps"

section \<open>The router behind the network\<close>

text \<open>
  \<open>send\<close> makes the request of the HTTP daemon out of a body, \<open>bare\<close> is a request without one. None of
  the paths the script asks for redirects.
\<close>

fun reply_of :: "response \<Rightarrow> reply option" where
  "reply_of (Sent t) = Some (Reply True (Plain t))"
| "reply_of (Sent_json v) = Some (Reply True (Json v))"
| "reply_of (Sent_chunks ts) = Some (Reply True (Plain (concat ts)))"
| "reply_of (Sent_err e t) = Some (Reply False (Plain t))"
| "reply_of (Redirect u) = None"

fun router_web :: "('f, 'j) http_env \<Rightarrow> (jval \<Rightarrow> http_request) \<Rightarrow> http_request \<Rightarrow> (http_state \<times> 'f plat) web" where
  "router_web E send bare (Get u) st = bindE (serve E (u, HTTP_GET, bare) st) (\<lambda>(_, r, h, p). Inr (reply_of r, h, p))"
| "router_web E send bare (Post u v) st = bindE (serve E (u, HTTP_POST, send v) st) (\<lambda>(_, r, h, p). Inr (reply_of r, h, p))"

end
