(* ===== verification/Flash_Frame.thy ===== *)
theory Flash_Frame
  imports Service_Store Domain_Store Portmap_Props Settings_Props
begin

text \<open>
  Components share one NVS namespace. What one of them writes leaves the entries of the others alone:
  \<open>keeps K f f'\<close> says that the entries with a key in \<open>K\<close> have the same value in \<open>f'\<close> as in \<open>f\<close>, and are
  still on the disk when they were. Every operation that writes has a frame lemma here.
\<close>

section \<open>Entries that are kept\<close>

definition keeps ::
    "('f \<Rightarrow> nvs_key \<Rightarrow> nvs_value option) \<Rightarrow> ('f \<Rightarrow> nvs_key \<Rightarrow> nvs_value option) \<Rightarrow> string set \<Rightarrow> 'f \<Rightarrow> 'f \<Rightarrow> bool" where
  "keeps view disk K f f' \<longleftrightarrow> (\<forall>k \<in> K. view f' (PARAM_NAMESPACE, k) = view f (PARAM_NAMESPACE, k) \<and>
     (disk f (PARAM_NAMESPACE, k) = view f (PARAM_NAMESPACE, k) \<longrightarrow>
      disk f' (PARAM_NAMESPACE, k) = view f' (PARAM_NAMESPACE, k)))"

lemma keeps_refl [simp]: "keeps view disk K f f"
  by (simp add: keeps_def)

lemma keeps_trans: "keeps view disk K f g \<Longrightarrow> keeps view disk K g h \<Longrightarrow> keeps view disk K f h"
  by (simp add: keeps_def)

lemma keeps_mono: "keeps view disk K f g \<Longrightarrow> L \<subseteq> K \<Longrightarrow> keeps view disk L f g"
  by (auto simp: keeps_def)

lemma keeps_same: "view g = view f \<Longrightarrow> disk g = disk f \<Longrightarrow> keeps view disk K f g"
  by (simp add: keeps_def)

definition service_keys :: "string set" where
  "service_keys = {NVS_KEY_SVC_BLOCKED, NVS_KEY_CUSTOM_RULES}"

lemmas nvs_keys = service_keys_def NVS_KEY_SVC_BLOCKED_def NVS_KEY_CUSTOM_RULES_def NVS_KEY_DOMAINS_def NVS_KEY_PORTMAP_def

section \<open>The calls\<close>

context nvs_reliable
begin

lemma rw_handle:
  assumes "nvs_open api PARAM_NAMESPACE NVS_READWRITE f = (e, h, f1)"
  shows "e = ESP_OK \<and> keeps view disk K f f1 \<and> handles f1 h = Some (PARAM_NAMESPACE, NVS_READWRITE)"
  using assms open_rw [of PARAM_NAMESPACE f] open_ok [of PARAM_NAMESPACE NVS_READWRITE f h f1]
  by (auto intro: keeps_same)

lemma set_keeps:
  assumes "handles f h = Some (PARAM_NAMESPACE, NVS_READWRITE)" and "nvs_set api h k v f = (e, f1)" and "k \<notin> K"
  shows "e = ESP_OK \<and> keeps view disk K f f1 \<and> handles f1 h = Some (PARAM_NAMESPACE, NVS_READWRITE)"
  using assms set_succeeds [OF assms(1), of k v] set_ok [OF assms(1), of k v f1]
  by (auto simp: keeps_def)

lemma commit_keeps:
  assumes "handles f h = Some (PARAM_NAMESPACE, NVS_READWRITE)" and "nvs_commit api h f = (e, f1)"
  shows "e = ESP_OK \<and> keeps view disk K f f1 \<and> handles f1 h = Some (PARAM_NAMESPACE, NVS_READWRITE)"
  using assms commit_succeeds [OF assms(1)] commit_ok [OF assms(1), of f1]
  by (auto simp: keeps_def)

lemma close_keeps [simp]: "keeps view disk K f (nvs_close api h g) \<longleftrightarrow> keeps view disk K f g"
  by (simp add: keeps_def close)

lemma set_strs_keeps:
  assumes "handles f h = Some (PARAM_NAMESPACE, NVS_READWRITE)" and "set_strs api h kvs f = (e, f1)"
    and "fst ` set kvs \<inter> K = {}"
  shows "e = ESP_OK \<and> keeps view disk K f f1 \<and> handles f1 h = Some (PARAM_NAMESPACE, NVS_READWRITE)"
  using assms
proof (induction kvs arbitrary: f)
  case (Cons kv kvs)
  obtain k s where kv: "kv = (k, s)" by (cases kv)
  obtain e2 f2 where s: "nvs_set api h k (NvStr s) f = (e2, f2)" by (cases "nvs_set api h k (NvStr s) f")
  from set_keeps [OF Cons.prems(1) s, of K] Cons.prems(3) kv
  have 2: "e2 = ESP_OK" "keeps view disk K f f2" "handles f2 h = Some (PARAM_NAMESPACE, NVS_READWRITE)" by auto
  have "set_strs api h kvs f2 = (e, f1)" using Cons.prems(2) s 2(1) kv by simp
  from Cons.IH [OF 2(3) this] Cons.prems(3) 2(2) show ?case by (auto intro: keeps_trans)
qed simp

section \<open>The operations\<close>

lemma save_service_rules_keeps:
  assumes "save_service_rules api s p = Inr p'" and "K \<inter> service_keys = {}"
  shows "keeps view disk K (pflash p) (pflash p')"
proof -
  obtain e h f1 where o: "nvs_open api PARAM_NAMESPACE NVS_READWRITE (pflash p) = (e, h, f1)"
    by (cases "nvs_open api PARAM_NAMESPACE NVS_READWRITE (pflash p)")
  note 1 = rw_handle [OF o, of K]
  obtain e2 f2 where s2: "nvs_set api h NVS_KEY_SVC_BLOCKED (NvU32 (svc_mask (g_services s))) f1 = (e2, f2)"
    by (cases "nvs_set api h NVS_KEY_SVC_BLOCKED (NvU32 (svc_mask (g_services s))) f1")
  have "NVS_KEY_SVC_BLOCKED \<notin> K" "NVS_KEY_CUSTOM_RULES \<notin> K" using assms(2) by (auto simp: service_keys_def)
  with 1 s2 have 2: "keeps view disk K f1 f2" "handles f2 h = Some (PARAM_NAMESPACE, NVS_READWRITE)"
    using set_keeps [of f1 h NVS_KEY_SVC_BLOCKED _ e2 f2 K] by auto
  obtain e3 f3 where s3: "nvs_set api h NVS_KEY_CUSTOM_RULES (NvBlob (rules_bytes (g_custom_rules s))) f2 = (e3, f3)"
    by (cases "nvs_set api h NVS_KEY_CUSTOM_RULES (NvBlob (rules_bytes (g_custom_rules s))) f2")
  then have 3: "keeps view disk K f2 f3" "handles f3 h = Some (PARAM_NAMESPACE, NVS_READWRITE)"
    using set_keeps [OF 2(2) s3 \<open>NVS_KEY_CUSTOM_RULES \<notin> K\<close>] by auto
  obtain e4 f4 where s4: "nvs_commit api h f3 = (e4, f4)" by (cases "nvs_commit api h f3")
  note 4 = commit_keeps [OF 3(2) s4, of K]
  have "pflash p' = nvs_close api h f4"
    using assms(1) 1 by (auto simp: save_service_rules_def o s2 s3 s4 Let_def dest: plat_log_Inr)
  then show ?thesis using 1 2(1) 3(1) 4 by (auto intro: keeps_trans)
qed

lemma save_blocked_domains_keeps:
  assumes "NVS_KEY_DOMAINS \<notin> K"
  shows "keeps view disk K (pflash p) (pflash (save_blocked_domains api s p))"
proof -
  obtain e h f1 where o: "nvs_open api PARAM_NAMESPACE NVS_READWRITE (pflash p) = (e, h, f1)"
    by (cases "nvs_open api PARAM_NAMESPACE NVS_READWRITE (pflash p)")
  note 1 = rw_handle [OF o, of K]
  obtain e2 f2 where s2: "nvs_set api h NVS_KEY_DOMAINS (NvBlob (domains_bytes (blocked_domains s))) f1 = (e2, f2)"
    by (cases "nvs_set api h NVS_KEY_DOMAINS (NvBlob (domains_bytes (blocked_domains s))) f1")
  have 2: "e2 = ESP_OK \<and> keeps view disk K f1 f2 \<and> handles f2 h = Some (PARAM_NAMESPACE, NVS_READWRITE)"
    using set_keeps [OF _ s2 assms] 1 by auto
  obtain e3 f3 where s3: "nvs_commit api h f2 = (e3, f3)" by (cases "nvs_commit api h f2")
  have "keeps view disk K f2 f3" using commit_keeps [OF _ s3, of K] 2 by auto
  then show ?thesis
    using 1 2 by (auto simp: save_blocked_domains_def o s2 s3 Let_def intro: keeps_trans)
qed

lemma store_portmap_keeps:
  assumes "store_portmap api ok s p = Inr (e, p')" and "\<And>q q'. ok q = Inr q' \<Longrightarrow> pflash q' = pflash q"
    and "NVS_KEY_PORTMAP \<notin> K"
  shows "keeps view disk K (pflash p) (pflash p')"
proof -
  obtain e1 h f1 where o: "nvs_open api PARAM_NAMESPACE NVS_READWRITE (pflash p) = (e1, h, f1)"
    by (cases "nvs_open api PARAM_NAMESPACE NVS_READWRITE (pflash p)")
  note 1 = rw_handle [OF o, of K]
  obtain e2 f2 where s2: "nvs_set api h NVS_KEY_PORTMAP (NvBlob (tab_bytes (portmap_tab s))) f1 = (e2, f2)"
    by (cases "nvs_set api h NVS_KEY_PORTMAP (NvBlob (tab_bytes (portmap_tab s))) f1")
  have 2: "e2 = ESP_OK \<and> keeps view disk K f1 f2 \<and> handles f2 h = Some (PARAM_NAMESPACE, NVS_READWRITE)"
    using set_keeps [OF _ s2 assms(3)] 1 by auto
  obtain e3 f3 where s3: "nvs_commit api h f2 = (e3, f3)" by (cases "nvs_commit api h f2")
  have "e3 = ESP_OK \<and> keeps view disk K f2 f3" using commit_keeps [OF _ s3, of K] 2 by auto
  moreover from this obtain q where "ok (p\<lparr>pflash := f3\<rparr>) = Inr q" "pflash p' = nvs_close api h (pflash q)"
    using assms(1) 1 2 by (auto simp: store_portmap_def o s2 s3 bindE_eq_Inr)
  ultimately show ?thesis using assms(2) 1 2 by (fastforce intro: keeps_trans)
qed

lemma store_settings_keeps:
  assumes "store_settings api commit kvs p = (e, p')" and "fst ` set kvs \<inter> K = {}"
  shows "keeps view disk K (pflash p) (pflash p')"
proof -
  obtain e1 h f1 where o: "nvs_open api PARAM_NAMESPACE NVS_READWRITE (pflash p) = (e1, h, f1)"
    by (cases "nvs_open api PARAM_NAMESPACE NVS_READWRITE (pflash p)")
  note 1 = rw_handle [OF o, of K]
  obtain e2 f2 where s2: "set_strs api h kvs f1 = (e2, f2)" by (cases "set_strs api h kvs f1")
  have 2: "e2 = ESP_OK \<and> keeps view disk K f1 f2 \<and> handles f2 h = Some (PARAM_NAMESPACE, NVS_READWRITE)"
    using set_strs_keeps [OF _ s2 assms(2)] 1 by auto
  obtain e3 f3 where s3: "nvs_commit api h f2 = (e3, f3)" by (cases "nvs_commit api h f2")
  have "keeps view disk K f2 f3" using commit_keeps [OF _ s3, of K] 2 by auto
  then show ?thesis
    using assms(1) 1 2 by (cases commit) (auto simp: store_settings_def o s2 s3 intro: keeps_trans)
qed

lemma set_mac_keeps:
  assumes "set_mac api parse key argv p = (e, p')" and "key \<notin> K"
  shows "keeps view disk K (pflash p) (pflash p')"
proof (cases "p' = p")
  case False
  obtain e1 h f1 where o: "nvs_open api PARAM_NAMESPACE NVS_READWRITE (pflash p) = (e1, h, f1)"
    by (cases "nvs_open api PARAM_NAMESPACE NVS_READWRITE (pflash p)")
  note 1 = rw_handle [OF o, of K]
  obtain v where "(case nvs_set api h key v f1 of (err1, f2) \<Rightarrow>
      (case (if err1 = ESP_OK then nvs_commit api h f2 else (err1, f2)) of (err2, f3) \<Rightarrow>
        (err2, p\<lparr>pflash := nvs_close api h f3\<rparr>))) = (e, p')"
    using assms(1) False 1 by (auto simp: set_mac_def o Let_def split: option.splits list.splits)
  moreover obtain e2 f2 where s2: "nvs_set api h key v f1 = (e2, f2)" by (cases "nvs_set api h key v f1")
  moreover have 2: "e2 = ESP_OK \<and> keeps view disk K f1 f2 \<and> handles f2 h = Some (PARAM_NAMESPACE, NVS_READWRITE)"
    using set_keeps [OF _ s2 assms(2)] 1 by auto
  moreover obtain e3 f3 where s3: "nvs_commit api h f2 = (e3, f3)" by (cases "nvs_commit api h f2")
  moreover have "keeps view disk K f2 f3" using commit_keeps [OF _ s3, of K] 2 by auto
  ultimately show ?thesis using 1 by (auto intro: keeps_trans)
qed simp

lemma read_params_keeps:
  "read_params api ks p = Inr (vs, p') \<Longrightarrow> view (pflash p') = view (pflash p) \<and> disk (pflash p') = disk (pflash p)"
proof (induction ks arbitrary: p vs)
  case (Cons k ks)
  obtain e f' where g: "get_config_param_str api k p = Inr (e, str_setting (settings_in view p) k, p\<lparr>pflash := f'\<rparr>)"
    "view f' = view (pflash p)" "disk f' = disk (pflash p)"
    by (rule get_str_spec)
  with Cons show ?case by (fastforce simp: bindE_eq_Inr)
qed simp

end

end
