(* ===== verification/System.thy ===== *)
theory System
  imports Boot Http_State Flash_Frame
begin

text \<open>
  The running router: frames, radio events, DNS queries, requests and console commands in any order,
  as a step relation over the state of all components.

  Each step is one run of the code of the task that handles it. The console is the table of
  \<open>register_router\<close>; the commands of \<open>cmd_nvs\<close>, which can write any entry, are not part of the machine.
\<close>

section \<open>The console commands of the router\<close>

fun run_router_cmd ::
    "'f nvs_api \<Rightarrow> (string \<Rightarrow> u32) \<Rightarrow> arg_parse \<Rightarrow> router_cmd \<Rightarrow> string list \<Rightarrow> router \<Rightarrow> 'f plat \<Rightarrow>
     (esp_err \<times> router \<times> 'f plat) cres" where
  "run_router_cmd api aton parse Set_sta argv r p = bindE (set_sta api parse argv p) (\<lambda>(e, p1). Inr (e, r, p1))"
| "run_router_cmd api aton parse Set_sta_static argv r p =
     bindE (set_sta_static api parse argv p) (\<lambda>(e, p1). Inr (e, r, p1))"
| "run_router_cmd api aton parse Set_sta_mac argv r p = (case set_sta_mac api parse argv p of (e, p1) \<Rightarrow> Inr (e, r, p1))"
| "run_router_cmd api aton parse Set_ap_mac argv r p = (case set_ap_mac api parse argv p of (e, p1) \<Rightarrow> Inr (e, r, p1))"
| "run_router_cmd api aton parse Set_ap argv r p = bindE (set_ap api parse argv p) (\<lambda>(e, p1). Inr (e, r, p1))"
| "run_router_cmd api aton parse Set_ap_ip argv r p = bindE (set_ap_ip api parse argv p) (\<lambda>(e, p1). Inr (e, r, p1))"
| "run_router_cmd api aton parse Portmap_cmd argv r p =
     bindE (portmap api aton parse argv (w_net (r_wifi r)) p) (\<lambda>(e, n1, p1).
       Inr (e, r\<lparr>r_wifi := (r_wifi r)\<lparr>w_net := n1\<rparr>\<rparr>, p1))"
| "run_router_cmd api aton parse Show_cmd argv r p =
     bindE (show_cmd api (w_net (r_wifi r)) (my_ap_ip r) (connect_count (w_dev (r_wifi r))) p) (\<lambda>(_, p1).
       Inr (ESP_OK, r, p1))"

text \<open>\<open>esp_console_run\<close> finds the command by the first word.\<close>

definition console_run ::
    "'f nvs_api \<Rightarrow> (string \<Rightarrow> u32) \<Rightarrow> arg_parse \<Rightarrow> string list \<Rightarrow> router \<Rightarrow> 'f plat \<Rightarrow> (esp_err \<times> router \<times> 'f plat) cres" where
  "console_run api aton parse argv r p = (case argv of
       [] \<Rightarrow> Inr (ESP_ERR_INVALID_ARG, r, p)
     | name # _ \<Rightarrow> (case map_of (map (\<lambda>c. (cc_command c, cc_func c)) register_router) name of
           None \<Rightarrow> Inr (ESP_ERR_NOT_FOUND, r, p)
         | Some c \<Rightarrow> run_router_cmd api aton parse c argv r p))"

section \<open>The machine\<close>

text \<open>The state: the router, whether its restart timer runs, the DNS server's buffers, and the platform.\<close>

type_synonym 'f system = "router \<times> bool \<times> dns_state \<times> 'f plat"

definition http_view :: "router \<Rightarrow> bool \<Rightarrow> http_state" where
  "http_view r b = \<lparr>hs_services = r_services r, hs_domains = r_domains r, hs_devices = w_dev (r_wifi r), hs_restart = b\<rparr>"

definition http_put :: "http_state \<Rightarrow> router \<Rightarrow> router" where
  "http_put h r = r\<lparr>r_services := hs_services h, r_domains := hs_domains h, r_wifi := (r_wifi r)\<lparr>w_dev := hs_devices h\<rparr>\<rparr>"

datatype 'j event =
    Frame "byte list"
  | Radio "byte \<Rightarrow> esp_err" esp_err wifi_event    \<comment> \<open>with the results of \<open>esp_wifi_deauth_sta\<close> and \<open>esp_netif_get_dns_info\<close>\<close>
  | Query upstream "byte list"
  | Request string http_method http_request
  | Console "string \<Rightarrow> u32" "string list"

fun system_step :: "('f, 'j) http_env \<Rightarrow> 'j event \<Rightarrow> 'f system \<Rightarrow> 'f system cres" where
  "system_step E (Frame f) (r, b, q, p) = bindE (router_input f r p) (\<lambda>(_, p1). Inr (r, b, q, p1))"
| "system_step E (Radio deauth di ev) (r, b, q, p) =
     bindE (wifi_event_handler deauth di ev (r_wifi r) p) (\<lambda>(w1, p1). Inr (r\<lparr>r_wifi := w1\<rparr>, b, q, p1))"
| "system_step E (Query up pkt) (r, b, q, p) =
     (if \<not> r_dns r then Inr (r, b, q, p)
      else case dns_server_step up (r_domains r) pkt q p of
        Some x \<Rightarrow> bindE x (\<lambda>(_, q1, p1). Inr (r, b, q1, p1))
      | None \<Rightarrow> Inr (r\<lparr>r_dns := False\<rparr>, b, q, p))"    \<comment> \<open>the DNS task never comes back; the others go on\<close>
| "system_step E (Request uri m req) (r, b, q, p) = (case r_web r of
       None \<Rightarrow> Inr (r, b, q, p)
     | Some w \<Rightarrow> bindE (serve_step (E\<lparr>he_server := w\<rparr>) (uri, m, req) (http_view r b, p)) (\<lambda>(h1, p1).
         Inr (http_put h1 r, hs_restart h1, q, p1)))"
| "system_step E (Console aton argv) (r, b, q, p) =
     bindE (console_run (he_api E) aton (he_parse E) argv r p) (\<lambda>(_, r1, p1). Inr (r1, b, q, p1))"

section \<open>Handlers are runs of the components they call\<close>

lemma run_one: "step x s = Inr s' \<Longrightarrow> \<exists>xs. run_ops step xs s = Inr s'"
  by (rule exI [of _ "[x]"]) simp

lemma run_none: "\<exists>xs. run_ops step xs s = Inr s"
  by (rule exI [of _ "[]"]) simp

lemma service_runs:
  "update_port_rule_handler api J req s p = Inr (e, r, s', p') \<Longrightarrow> \<exists>xs. run_ops (service_step api) xs (s, p) = Inr (s', p')"
  "set_service_handler api J req s p = Inr (e, r, s', p') \<Longrightarrow> \<exists>xs. run_ops (service_step api) xs (s, p) = Inr (s', p')"
  "add_custom_port_handler api J req s p = Inr (e, r, s', p') \<Longrightarrow> \<exists>xs. run_ops (service_step api) xs (s, p) = Inr (s', p')"
  "remove_custom_port_handler api J req s p = Inr (e, r, s', p') \<Longrightarrow> \<exists>xs. run_ops (service_step api) xs (s, p) = Inr (s', p')"
proof -
  have b: "\<exists>xs. run_ops (service_step api) xs (s, p) = Inr (s', p')"
    if "service_set_blocked api sid b s p = Inr (s', p')" for sid b
    using that by (intro run_one [of _ "Set_blocked sid b"]) simp
  have a: "\<exists>xs. run_ops (service_step api) xs (s, p) = Inr (s', p')"
    if "service_add_custom api nm port proto bl s p = Inr (ok, s', p')" for nm port proto bl ok
    using that by (intro run_one [of _ "Add_custom nm port proto bl"]) simp
  have d: "\<exists>xs. run_ops (service_step api) xs (s, p) = Inr (s', p')"
    if "service_remove_custom api port proto s p = Inr (ok, s', p')" for port proto ok
    using that by (intro run_one [of _ "Remove_custom port proto"]) simp
  note n = run_none [of "service_step api" "(s, p)"]
  show "update_port_rule_handler api J req s p = Inr (e, r, s', p') \<Longrightarrow> \<exists>xs. run_ops (service_step api) xs (s, p) = Inr (s', p')"
    unfolding update_port_rule_handler_def
    by (erule with_jsonE) (use n in \<open>auto simp: bindE_eq_Inr Let_def split: option.splits intro: b\<close>)
  show "set_service_handler api J req s p = Inr (e, r, s', p') \<Longrightarrow> \<exists>xs. run_ops (service_step api) xs (s, p) = Inr (s', p')"
    unfolding set_service_handler_def
    by (erule with_jsonE) (use n in \<open>auto simp: bindE_eq_Inr Let_def split: option.splits if_splits intro: b\<close>)
  show "add_custom_port_handler api J req s p = Inr (e, r, s', p') \<Longrightarrow> \<exists>xs. run_ops (service_step api) xs (s, p) = Inr (s', p')"
    unfolding add_custom_port_handler_def
    by (erule with_jsonE) (use n in \<open>auto simp: bindE_eq_Inr split: option.splits intro: a\<close>)
  show "remove_custom_port_handler api J req s p = Inr (e, r, s', p') \<Longrightarrow> \<exists>xs. run_ops (service_step api) xs (s, p) = Inr (s', p')"
    unfolding remove_custom_port_handler_def
    by (erule with_jsonE) (use n in \<open>auto simp: bindE_eq_Inr split: option.splits intro: d\<close>)
qed

lemma domain_runs:
  "add_blocked_domain_handler api J req s p = Inr (e, r, s', p') \<Longrightarrow> \<exists>xs. run_ops (domain_step api) xs (s, p) = Inr (s', p')"
  "remove_blocked_domain_handler api J req s p = Inr (e, r, s', p') \<Longrightarrow> \<exists>xs. run_ops (domain_step api) xs (s, p) = Inr (s', p')"
  "remove_blocked_domain_query_handler api req s p = Inr (e, r, s', p') \<Longrightarrow> \<exists>xs. run_ops (domain_step api) xs (s, p) = Inr (s', p')"
proof -
  have a: "\<exists>xs. run_ops (domain_step api) xs (s, p) = Inr (s', p')"
    if "add_blocked_domain api (Some d) s p = Inr (ok, s', p')" for d ok
    using that by (intro run_one [of _ "Block d"]) simp
  have d: "\<exists>xs. run_ops (domain_step api) xs (s, p) = Inr (s', p')"
    if "remove_blocked_domain api (Some d) s p = Inr (ok, s', p')" for d ok
    using that by (intro run_one [of _ "Unblock d"]) simp
  note n = run_none [of "domain_step api" "(s, p)"]
  show "add_blocked_domain_handler api J req s p = Inr (e, r, s', p') \<Longrightarrow> \<exists>xs. run_ops (domain_step api) xs (s, p) = Inr (s', p')"
    unfolding add_blocked_domain_handler_def
    by (erule with_jsonE) (use n in \<open>auto simp: bindE_eq_Inr split: option.splits intro: a\<close>)
  show "remove_blocked_domain_handler api J req s p = Inr (e, r, s', p') \<Longrightarrow> \<exists>xs. run_ops (domain_step api) xs (s, p) = Inr (s', p')"
    unfolding remove_blocked_domain_handler_def
    by (erule with_jsonE) (use n in \<open>auto simp: bindE_eq_Inr split: option.splits intro: d\<close>)
  show "remove_blocked_domain_query_handler api req s p = Inr (e, r, s', p') \<Longrightarrow> \<exists>xs. run_ops (domain_step api) xs (s, p) = Inr (s', p')"
    unfolding remove_blocked_domain_query_handler_def
    using n by (auto simp: bindE_eq_Inr split: option.splits if_splits intro: d)
qed

end
