(* ===== verification/System_Laws.thy ===== *)
theory System_Laws
  imports System Boot_Props
begin

text \<open>
  The machine keeps its tables and their images in the flash in step: \<open>synced\<close> says that what is read,
  and what a restart would read, is the port filter in force, the port mappings in force, and a list of
  domains that blocks no other names than the list in force. Every step of the machine keeps it.
\<close>

section \<open>What is saved\<close>

definition svc_saved ::
    "('f \<Rightarrow> nvs_key \<Rightarrow> nvs_value option) \<Rightarrow> ('f \<Rightarrow> nvs_key \<Rightarrow> nvs_value option) \<Rightarrow> service_filter \<Rightarrow> 'f plat \<Rightarrow> bool" where
  "svc_saved view disk s p \<longleftrightarrow> sf_wf s \<and> services_on_disk view s p \<and> services_on_disk disk s p"

definition dom_saved ::
    "('f \<Rightarrow> nvs_key \<Rightarrow> nvs_value option) \<Rightarrow> ('f \<Rightarrow> nvs_key \<Rightarrow> nvs_value option) \<Rightarrow> domain_filter \<Rightarrow> 'f plat \<Rightarrow> bool" where
  "dom_saved view disk df p \<longleftrightarrow> domains_wf df \<and> (\<exists>D. domains_wf D \<and> domains_on_disk view D p \<and> domains_on_disk disk D p \<and>
     blocked_names D \<subseteq> blocked_names df)"

definition map_saved ::
    "('f \<Rightarrow> nvs_key \<Rightarrow> nvs_value option) \<Rightarrow> ('f \<Rightarrow> nvs_key \<Rightarrow> nvs_value option) \<Rightarrow> nat \<Rightarrow> net \<Rightarrow> 'f plat \<Rightarrow> bool" where
  "map_saved view disk slots n p \<longleftrightarrow> tab_wf (portmap_tab n) \<and> length (portmap_tab n) = slots \<and>
     portmap_on_disk view n p \<and> portmap_on_disk disk n p"

fun synced ::
    "('f \<Rightarrow> nvs_key \<Rightarrow> nvs_value option) \<Rightarrow> ('f \<Rightarrow> nvs_key \<Rightarrow> nvs_value option) \<Rightarrow> nat \<Rightarrow> 'f system \<Rightarrow> bool" where
  "synced view disk slots (r, b, q, p) \<longleftrightarrow> svc_saved view disk (r_services r) p \<and> dom_saved view disk (r_domains r) p \<and>
     map_saved view disk slots (w_net (r_wifi r)) p"

lemma saved_elsewhere:
  assumes "keeps view disk K (pflash p) (pflash p')"
  shows "service_keys \<subseteq> K \<Longrightarrow> svc_saved view disk s p \<Longrightarrow> svc_saved view disk s p'"
    and "NVS_KEY_DOMAINS \<in> K \<Longrightarrow> dom_saved view disk df p \<Longrightarrow> dom_saved view disk df p'"
    and "NVS_KEY_PORTMAP \<in> K \<Longrightarrow> map_saved view disk slots n p \<Longrightarrow> map_saved view disk slots n p'"
proof -
  have same: "view (pflash p') (PARAM_NAMESPACE, k) = view (pflash p) (PARAM_NAMESPACE, k)"
    "disk (pflash p) (PARAM_NAMESPACE, k) = view (pflash p) (PARAM_NAMESPACE, k) \<Longrightarrow>
     disk (pflash p') (PARAM_NAMESPACE, k) = view (pflash p) (PARAM_NAMESPACE, k)" if "k \<in> K" for k
    using assms that by (auto simp: keeps_def)
  show "service_keys \<subseteq> K \<Longrightarrow> svc_saved view disk s p \<Longrightarrow> svc_saved view disk s p'"
    using same [of NVS_KEY_SVC_BLOCKED] same [of NVS_KEY_CUSTOM_RULES]
    by (simp add: svc_saved_def services_on_disk_def service_keys_def)
  show "NVS_KEY_DOMAINS \<in> K \<Longrightarrow> dom_saved view disk df p \<Longrightarrow> dom_saved view disk df p'"
    using same [of NVS_KEY_DOMAINS] by (auto simp: dom_saved_def domains_on_disk_def)
  show "NVS_KEY_PORTMAP \<in> K \<Longrightarrow> map_saved view disk slots n p \<Longrightarrow> map_saved view disk slots n p'"
    using same [of NVS_KEY_PORTMAP] by (simp add: map_saved_def portmap_on_disk_def)
qed

lemma map_saved_tab: "portmap_tab n' = portmap_tab n \<Longrightarrow> map_saved view disk slots n' p = map_saved view disk slots n p"
  by (simp add: map_saved_def portmap_on_disk_def)

lemma synced_plat:
  assumes "synced view disk slots (r, b, q, p)" and "pflash p' = pflash p"
    and "r_services r' = r_services r" and "r_domains r' = r_domains r"
    and "portmap_tab (w_net (r_wifi r')) = portmap_tab (w_net (r_wifi r))"
  shows "synced view disk slots (r', b', q', p')"
proof -
  have "keeps view disk UNIV (pflash p) (pflash p')" using assms(2) by simp
  then show ?thesis
    using assms saved_elsewhere [of view disk UNIV p p'] by (simp add: map_saved_tab [OF assms(5)])
qed

lemma two_logs: "plat_log f as p = Inr p1 \<Longrightarrow> plat_log g bs p1 = Inr p2 \<Longrightarrow> pflash p2 = pflash p"
  by (auto dest!: plat_log_Inr simp del: plat_log_plain)

section \<open>The components\<close>

context nvs_reliable
begin

lemma service_step_keeps:
  "service_step api x (s, p) = Inr (s', p') \<Longrightarrow> keeps view disk (- service_keys) (pflash p) (pflash p')"
  by (cases x)
    (auto simp: service_set_blocked_def service_add_custom_def service_remove_custom_def Let_def bindE_eq_Inr
      dest!: plat_log_Inr save_service_rules_keeps [where K = "- service_keys"] split: if_splits option.splits)

lemma service_step_saved:
  "svc_saved view disk s p \<Longrightarrow> service_step api x (s, p) = Inr (s', p') \<Longrightarrow> svc_saved view disk s' p'"
  using svc.step_inv [of "(s, p)" api x "(s', p')"]
  by (cases x) (auto simp: svc_saved_def cres_simps intro: set_blocked_on_disk add_custom_on_disk remove_custom_on_disk)

lemma service_run:
  assumes "\<exists>xs. run_ops (service_step api) xs (s, p) = Inr (s', p')" and "svc_saved view disk s p"
  shows "svc_saved view disk s' p' \<and> keeps view disk (- service_keys) (pflash p) (pflash p')"
proof -
  obtain xs where "run_ops (service_step api) xs (s, p) = Inr (s', p')" using assms(1) by blast
  then show ?thesis using assms(2)
  proof (induction xs arbitrary: s p)
    case (Cons x xs)
    then obtain t u where "service_step api x (s, p) = Inr (t, u)" "run_ops (service_step api) xs (t, u) = Inr (s', p')"
      by (auto simp: bindE_eq_Inr)
    with Cons show ?case using service_step_keeps service_step_saved by (blast intro: keeps_trans)
  qed simp
qed

lemma add_domain_saved:
  assumes "add_blocked_domain api (Some d) s p = Inr (ok, s', p')" and "is_cstr d" and "dom_saved view disk s p"
  shows "dom_saved view disk s' p' \<and> keeps view disk (- {NVS_KEY_DOMAINS}) (pflash p) (pflash p')"
proof -
  have wf: "domains_wf s" using assms(3) by (simp add: dom_saved_def)
  note n = add_blocked_domain_names [OF assms(1) wf assms(2)]
  from assms(1) show ?thesis
  proof (cases rule: add_blocked_domain_cases)
    case (fresh d' p1 p2)
    then show ?thesis
      using two_logs [OF fresh(8,9)] fresh(10) n(1) save_blocked_domains_disk [of s' p2]
        save_blocked_domains_keeps [of "- {NVS_KEY_DOMAINS}" p2 s'] by (auto simp: dom_saved_def)
  qed (use assms(3) n in \<open>auto simp: dom_saved_def\<close>)
qed

lemma remove_domain_saved:
  assumes "remove_blocked_domain api (Some d) s p = Inr (ok, s', p')" and "dom_saved view disk s p"
  shows "dom_saved view disk s' p' \<and> keeps view disk (- {NVS_KEY_DOMAINS}) (pflash p) (pflash p')"
proof -
  have wf: "domains_wf s" using assms(2) by (simp add: dom_saved_def)
  note n = remove_blocked_domain_names [OF assms(1) wf]
  from assms(1) show ?thesis
  proof (cases rule: remove_blocked_domain_cases)
    case (cleared d' i p1 p2)
    then show ?thesis
      using two_logs [OF cleared(6,7)] cleared(8) n(1) save_blocked_domains_disk [of s' p2]
        save_blocked_domains_keeps [of "- {NVS_KEY_DOMAINS}" p2 s'] by (auto simp: dom_saved_def)
  qed (use assms(2) in simp)
qed

lemma add_portmap_saved:
  assumes "add_portmap api proto mport daddr dport n p = Inr (e, n', p')" and "map_saved view disk slots n p"
  shows "map_saved view disk slots n' p' \<and> keeps view disk (- {NVS_KEY_PORTMAP}) (pflash p) (pflash p')"
proof (cases "first_idx (\<lambda>e. pm_valid e = 0) (portmap_tab n)")
  case None
  then show ?thesis using assms by (simp add: add_portmap_def)
next
  case (Some i)
  then have "\<exists>t. store_portmap api (plat_log ''New portmap table stored'' []) t p = Inr (e, p')"
    using assms(1) by (auto simp: add_portmap_def Let_def bindE_eq_Inr split: if_splits simp del: store_log)
  then obtain t where st: "store_portmap api (plat_log ''New portmap table stored'' []) t p = Inr (e, p')" by blast
  then have "e = ESP_OK" unfolding store_log by (auto dest: store_portmap_disk)
  then have ok: "add_portmap api proto mport daddr dport n p = Inr (ESP_OK, n', p')" using assms(1) by simp
  have "keeps view disk (- {NVS_KEY_PORTMAP}) (pflash p) (pflash p')"
    using store_portmap_keeps [OF st] by (auto dest: plat_log_Inr simp del: plat_log_plain)
  then show ?thesis
    using tab_wf_add [OF ok] add_portmap_stored [OF ok] assms(2) by (simp add: map_saved_def)
qed

lemma del_portmap_saved:
  assumes "del_portmap api proto mport n p = Inr (e, n', p')" and "map_saved view disk slots n p"
  shows "map_saved view disk slots n' p' \<and> keeps view disk (- {NVS_KEY_PORTMAP}) (pflash p) (pflash p')"
proof (cases "first_idx (\<lambda>e. pm_valid e \<noteq> 0 \<and> pm_mport e = mport \<and> pm_proto e = proto) (portmap_tab n)")
  case None
  then show ?thesis using assms by (simp add: del_portmap_def)
next
  case (Some i)
  let ?t = "n\<lparr>portmap_tab := (portmap_tab n)[i := (portmap_tab n ! i)\<lparr>pm_valid := 0\<rparr>]\<rparr>"
  have st: "store_portmap api Inr ?t p = Inr (e, p')" and tab: "portmap_tab n' = portmap_tab ?t"
    using assms(1) Some by (auto simp: del_portmap_def Let_def bindE_eq_Inr split: if_splits)
  have d: "portmap_on_disk disk ?t p' \<and> portmap_on_disk view ?t p'"
    using store_portmap_disk(2) [of "\<lambda>p. p" ?t p e p'] st by simp
  have "length (pm_pad (portmap_tab n ! i)) = 2"
    using first_idx_SomeD(1) [OF Some] assms(2) by (simp add: map_saved_def tab_wf_def list_all_length)
  then have "tab_wf (portmap_tab ?t)"
    using assms(2) by (simp add: map_saved_def tab_wf_def list_all_update)
  moreover have "keeps view disk (- {NVS_KEY_PORTMAP}) (pflash p) (pflash p')"
    using store_portmap_keeps [OF st] by simp
  ultimately show ?thesis
    using d assms(2) map_saved_tab [OF tab, of view disk slots p'] by (simp add: map_saved_def)
qed

end

section \<open>The handlers\<close>

definition saved_keys :: "string set" where
  "saved_keys = insert NVS_KEY_DOMAINS (insert NVS_KEY_PORTMAP service_keys)"

lemma saved_keys_subset:
  "service_keys \<subseteq> saved_keys" "NVS_KEY_DOMAINS \<in> saved_keys" "NVS_KEY_PORTMAP \<in> saved_keys"
  "NVS_KEY_DOMAINS \<notin> service_keys" "NVS_KEY_PORTMAP \<notin> service_keys" "NVS_KEY_PORTMAP \<noteq> NVS_KEY_DOMAINS"
  "NVS_KEY_DOMAINS \<noteq> NVS_KEY_PORTMAP" "NVS_KEY_DOMAINS \<notin> - {NVS_KEY_DOMAINS}"
  "service_keys \<subseteq> - {NVS_KEY_DOMAINS}" "service_keys \<subseteq> - {NVS_KEY_PORTMAP}"
  by (auto simp: saved_keys_def nvs_keys)

text \<open>The part of the machine the web server works on.\<close>

definition web_saved ::
    "('f \<Rightarrow> nvs_key \<Rightarrow> nvs_value option) \<Rightarrow> ('f \<Rightarrow> nvs_key \<Rightarrow> nvs_value option) \<Rightarrow> nat \<Rightarrow> net \<Rightarrow> http_state \<Rightarrow> 'f plat \<Rightarrow> bool" where
  "web_saved view disk slots n h p \<longleftrightarrow> svc_saved view disk (hs_services h) p \<and> dom_saved view disk (hs_domains h) p \<and>
     map_saved view disk slots n p"

lemma web_saved_keeps:
  "web_saved view disk slots n h p \<Longrightarrow> keeps view disk saved_keys (pflash p) (pflash p') \<Longrightarrow> web_saved view disk slots n h p'"
  using saved_elsewhere [of view disk saved_keys p p'] by (simp add: web_saved_def saved_keys_subset)

context nvs_reliable
begin

lemma settings_keep:
  "set_sta api parse argv p = Inr (e, p') \<Longrightarrow> keeps view disk saved_keys (pflash p) (pflash p')"
  "set_sta_static api parse argv p = Inr (e, p') \<Longrightarrow> keeps view disk saved_keys (pflash p) (pflash p')"
  "set_ap api parse argv p = Inr (e, p') \<Longrightarrow> keeps view disk saved_keys (pflash p) (pflash p')"
  "set_ap_ip api parse argv p = Inr (e, p') \<Longrightarrow> keeps view disk saved_keys (pflash p) (pflash p')"
proof -
  have k: "keeps view disk saved_keys (pflash p) (pflash p')"
    if "store_settings api c kvs p = (e, p')" and "fst ` set kvs \<inter> saved_keys = {}" for c kvs
    using that by (rule store_settings_keeps)
  show "set_sta api parse argv p = Inr (e, p') \<Longrightarrow> keeps view disk saved_keys (pflash p) (pflash p')"
    unfolding set_sta_def
    by (auto simp: bindE_eq_Inr split: option.splits list.splits dest!: k simp: saved_keys_def nvs_keys)
  show "set_sta_static api parse argv p = Inr (e, p') \<Longrightarrow> keeps view disk saved_keys (pflash p) (pflash p')"
    unfolding set_sta_static_def
    by (auto simp: bindE_eq_Inr split: option.splits list.splits dest!: k simp: saved_keys_def nvs_keys)
  show "set_ap api parse argv p = Inr (e, p') \<Longrightarrow> keeps view disk saved_keys (pflash p) (pflash p')"
    unfolding set_ap_def
    by (auto simp: bindE_eq_Inr split: option.splits list.splits dest!: k simp: saved_keys_def nvs_keys)
  show "set_ap_ip api parse argv p = Inr (e, p') \<Longrightarrow> keeps view disk saved_keys (pflash p) (pflash p')"
    unfolding set_ap_ip_def
    by (auto simp: bindE_eq_Inr split: option.splits list.splits dest!: k simp: saved_keys_def nvs_keys)
qed

text \<open>The three forms of the configuration page.\<close>

lemma bind_param_Inr:
  "bind_param r none k = Inr x \<longleftrightarrow> (r = Inr None \<and> x = none) \<or> (\<exists>t. r = Inr (Some t) \<and> k t = Inr x)"
  by (cases r) (auto simp: bind_param_def split: option.splits)

lemma forms_keep:
  "ap_form api parse req buf (b, p) = Inr (b', p') \<Longrightarrow> keeps view disk saved_keys (pflash p) (pflash p')"
  "sta_form api parse req buf (b, p) = Inr (b', p') \<Longrightarrow> keeps view disk saved_keys (pflash p) (pflash p')"
  "static_form api parse req buf (b, p) = Inr (b', p') \<Longrightarrow> keeps view disk saved_keys (pflash p) (pflash p')"
  by (auto simp: ap_form_def sta_form_def static_form_def bind_param_Inr bindE_eq_Inr dest: settings_keep)

lemma index_keeps:
  "index_get_handler api parse page req b p = Inr (e, r, b', p') \<Longrightarrow> keeps view disk saved_keys (pflash p) (pflash p')"
  by (auto simp: index_get_handler_def bindE_eq_Inr split: option.splits if_splits dest!: forms_keep intro: keeps_trans)

lemma domain_handlers_saved:
  assumes "dom_saved view disk df p"
  shows "add_blocked_domain_handler api J req df p = Inr (e, r, df', p') \<Longrightarrow>
      (\<And>j s. valuestring J j = Some s \<Longrightarrow> is_cstr s) \<Longrightarrow>
      dom_saved view disk df' p' \<and> keeps view disk (- {NVS_KEY_DOMAINS}) (pflash p) (pflash p')"
    and "remove_blocked_domain_handler api J req df p = Inr (e, r, df', p') \<Longrightarrow>
      dom_saved view disk df' p' \<and> keeps view disk (- {NVS_KEY_DOMAINS}) (pflash p) (pflash p')"
    and "remove_blocked_domain_query_handler api req df p = Inr (e, r, df', p') \<Longrightarrow>
      dom_saved view disk df' p' \<and> keeps view disk (- {NVS_KEY_DOMAINS}) (pflash p) (pflash p')"
proof -
  let ?G = "dom_saved view disk df' p' \<and> keeps view disk (- {NVS_KEY_DOMAINS}) (pflash p) (pflash p')"
  have a: "?G" if "add_blocked_domain api (Some d) df p = Inr (ok, df', p')" "is_cstr d" for d ok
    using add_domain_saved [OF that assms] .
  have d: "?G" if "remove_blocked_domain api (Some d) df p = Inr (ok, df', p')" for d ok
    using remove_domain_saved [OF that assms] .
  show ?G if "add_blocked_domain_handler api J req df p = Inr (e, r, df', p')"
    and "\<And>j s. valuestring J j = Some s \<Longrightarrow> is_cstr s"
    using that(1) unfolding add_blocked_domain_handler_def
    by (rule with_jsonE)
      (use assms that(2) in \<open>auto simp: bindE_eq_Inr split: option.splits dest!: a\<close>)
  show ?G if "remove_blocked_domain_handler api J req df p = Inr (e, r, df', p')"
    using that unfolding remove_blocked_domain_handler_def
    by (rule with_jsonE) (use assms in \<open>auto simp: bindE_eq_Inr split: option.splits dest!: d\<close>)
  show ?G if "remove_blocked_domain_query_handler api req df p = Inr (e, r, df', p')"
    using that assms unfolding remove_blocked_domain_query_handler_def
    by (auto simp: bindE_eq_Inr split: option.splits if_splits dest!: d)
qed

lemma web_saved_services:
  assumes "web_saved view disk slots n h p" and "\<exists>xs. run_ops (service_step api) xs (hs_services h, p) = Inr (s', p')"
  shows "web_saved view disk slots n (h\<lparr>hs_services := s'\<rparr>) p'"
  using service_run [OF assms(2)] assms(1) saved_elsewhere [of view disk "- service_keys" p p']
  by (simp add: web_saved_def saved_keys_subset)

lemma web_saved_domains:
  assumes "web_saved view disk slots n h p"
    and "dom_saved view disk df' p' \<and> keeps view disk (- {NVS_KEY_DOMAINS}) (pflash p) (pflash p')"
  shows "web_saved view disk slots n (h\<lparr>hs_domains := df'\<rparr>) p'"
  using assms saved_elsewhere [of view disk "- {NVS_KEY_DOMAINS}" p p']
  by (simp add: web_saved_def saved_keys_subset)

lemma web_saved_devices: "web_saved view disk slots n (h\<lparr>hs_devices := d\<rparr>) p = web_saved view disk slots n h p"
  "web_saved view disk slots n (h\<lparr>hs_restart := b\<rparr>) p = web_saved view disk slots n h p"
  by (simp_all add: web_saved_def)

lemma update_mac_flash: "update_mac_handler J req d p = Inr (e, r, d', p') \<Longrightarrow> pflash p' = pflash p"
  unfolding update_mac_handler_def
  by (erule with_jsonE)
    (auto simp: bindE_eq_Inr guardE_eq_Inr Let_def simp del: plat_log_plain dest!: plat_log_Inr split: option.splits if_splits)

lemma web_saved_flash:
  "web_saved view disk slots n h p \<Longrightarrow> pflash p' = pflash p \<Longrightarrow> web_saved view disk slots n h p'"
  using web_saved_keeps [of view disk slots n h p p'] by simp

lemma handle_saved:
  assumes "handle E k req (h, p) = Inr (e, r, h', p')" and "he_api E = api" and "c_texts E"
    and w: "web_saved view disk slots n h p"
  shows "web_saved view disk slots n h' p'"
proof -
  have D: "dom_saved view disk (hs_domains h) p" using w by (simp add: web_saved_def)
  have C: "\<And>j s. valuestring (he_json E) j = Some s \<Longrightarrow> is_cstr s" using assms(3) by (auto simp: c_texts_def)
  have I: "web_saved view disk slots n h p'" if "index_get_handler api (he_parse E) page req b p = Inr (e, r, b', p')" for page b b'
    using web_saved_keeps [OF w index_keeps [OF that]] .
  show ?thesis
    using assms(1,2) w
    by (cases k)
      (auto simp: bindE_eq_Inr inspect_packet_handler_def dashboard_get_handler_def web_saved_devices
        dest: update_mac_flash service_runs
        intro: I web_saved_flash web_saved_services [OF w] domain_handlers_saved(1) [OF D _ C, THEN web_saved_domains [OF w]]
          domain_handlers_saved(2,3) [OF D, THEN web_saved_domains [OF w]])
qed

section \<open>The console\<close>

lemma show_keeps:
  assumes "show_cmd api n ip c p = Inr (t, p')"
  shows "keeps view disk saved_keys (pflash p) (pflash p')"
proof -
  obtain vs where "read_params api show_keys p = Inr (vs, p')" using assms by (auto simp: show_cmd_def bindE_eq_Inr)
  from read_params_keeps [OF this] show ?thesis by (auto intro: keeps_same)
qed

lemma portmap_saved:
  assumes "portmap api aton parse argv n p = Inr (e, n', p')" and "map_saved view disk slots n p"
  shows "map_saved view disk slots n' p' \<and> keeps view disk (- {NVS_KEY_PORTMAP}) (pflash p) (pflash p')"
  using assms unfolding portmap_def
  by (auto simp: bindE_eq_Inr Let_def dest: add_portmap_saved del_portmap_saved split: option.splits list.splits if_splits)

lemma run_router_cmd_saved:
  assumes "run_router_cmd api aton parse c argv r p = Inr (e, r', p')" and "synced view disk slots (r, b, q, p)"
  shows "synced view disk slots (r', b, q, p')"
proof (cases "c = Portmap_cmd")
  case True
  then obtain n1 where "portmap api aton parse argv (w_net (r_wifi r)) p = Inr (e, n1, p')"
    and r': "r' = r\<lparr>r_wifi := (r_wifi r)\<lparr>w_net := n1\<rparr>\<rparr>"
    using assms(1) by (auto simp: bindE_eq_Inr)
  from portmap_saved [OF this(1), of slots] assms(2)
  have "map_saved view disk slots n1 p'" "keeps view disk (- {NVS_KEY_PORTMAP}) (pflash p) (pflash p')" by simp_all
  then show ?thesis
    using assms(2) r' saved_elsewhere [of view disk "- {NVS_KEY_PORTMAP}" p p'] by (simp add: saved_keys_subset)
next
  case False
  have mac: "keeps view disk saved_keys (pflash p) (pflash p')" if "set_mac api parse k argv p = (e, p')" "k \<notin> saved_keys" for k
    using set_mac_keeps [OF that] .
  have ks: "''mac'' \<notin> saved_keys" "''ap_mac'' \<notin> saved_keys" by (simp_all add: saved_keys_def nvs_keys)
  have "keeps view disk saved_keys (pflash p) (pflash p') \<and> r' = r"
    using assms(1) False
    by (cases c) (auto simp: bindE_eq_Inr set_sta_mac_def set_ap_mac_def split: prod.splits
        intro: settings_keep show_keeps mac [OF _ ks(1)] mac [OF _ ks(2)])
  then show ?thesis
    using assms(2) saved_elsewhere [of view disk saved_keys p p'] by (simp add: saved_keys_subset)
qed

lemma console_run_saved:
  assumes "console_run api aton parse argv r p = Inr (e, r', p')" and "synced view disk slots (r, b, q, p)"
  shows "synced view disk slots (r', b, q, p')"
  using assms unfolding console_run_def
  by (auto simp del: synced.simps split: list.splits option.splits intro: run_router_cmd_saved)

section \<open>Frames, radio events and queries\<close>

lemma packet_allowed_flash: "is_packet_allowed src proto sport dport d s p = Inr (ok, p') \<Longrightarrow> pflash p' = pflash p"
  using is_packet_allowed_permits [of src proto sport dport d s p] by auto

lemma router_input_flash: "router_input f r p = Inr (v, p') \<Longrightarrow> pflash p' = pflash p"
  by (cases "inspected f")
    (auto simp: router_input_def netif_input_def hook_inspected hook_uninspected bindE_eq_Inr
      dest: packet_allowed_flash split: input_fn.splits if_splits)

lemma handler_frame:
  assumes "wifi_event_handler deauth di ev w p = Inr (w', p')"
  shows "pflash p' = pflash p \<and> portmap_tab (w_net w') = portmap_tab (w_net w)"
proof (cases ev)
  case (STA_GOT_IP ip)
  have "portmap_tab (apply_portmap_tab (delete_portmap_tab n)) = portmap_tab n" for n
    by (simp add: delete_portmap_tab_calls)
  then show ?thesis using assms STA_GOT_IP by (cases "di = ESP_OK") (auto simp: on_got_ip_def Let_def)
next
  case (AP_STACONNECTED m aid)
  then show ?thesis using assms by (auto simp: on_ap_connected_def Let_def split: if_splits)
next
  case (AP_STADISCONNECTED m)
  then show ?thesis using assms by (auto simp: on_ap_disconnected_def Let_def)
qed (use assms in auto)

lemma dns_step_flash: "dns_server_step up df pkt q p = Some (Inr (a, q', p')) \<Longrightarrow> pflash p' = pflash p"
  by (auto simp: dns_server_step_def Let_def bindE_eq_Inr simp del: plat_log_plain dest!: plat_log_Inr
      split: if_splits option.splits sum.splits parsed.splits)

section \<open>Every step\<close>

lemma system_step_saved:
  assumes "system_step E ev s = Inr s'" and "he_api E = api" and "c_texts E" and "synced view disk slots s"
  shows "synced view disk slots s'"
proof -
  obtain r b q p where s: "s = (r, b, q, p)" by (cases s)
  note sy = assms(4) [unfolded s]
  show ?thesis
  proof (cases ev)
    case (Request uri m req)
    show ?thesis
    proof (cases "r_web r")
      case (Some w)
      let ?E = "E\<lparr>he_server := w\<rparr>"
      from assms(1) obtain h1 p1 where h: "serve_step ?E (uri, m, req) (http_view r b, p) = Inr (h1, p1)"
        and s': "s' = (http_put h1 r, hs_restart h1, q, p1)"
        using s Request Some by (auto simp: bindE_eq_Inr)
      have "c_texts ?E" "he_api ?E = api" using assms(2,3) by (simp_all add: c_texts_def)
      moreover have w: "web_saved view disk slots (w_net (r_wifi r)) (http_view r b) p"
        using sy by (simp add: web_saved_def http_view_def)
      ultimately have "web_saved view disk slots (w_net (r_wifi r)) h1 p1"
        using h handle_saved [of ?E]
        by (auto simp: serve_step_def serve_def http_404_error_handler_def bindE_eq_Inr split: option.splits)
      then show ?thesis using s' by (simp add: web_saved_def http_put_def)
    qed (use assms s Request in simp)
  next
    case (Console aton argv)
    then show ?thesis
      using assms(1-3) sy console_run_saved s by (auto simp: bindE_eq_Inr simp del: synced.simps)
  next
    case (Frame f)
    then show ?thesis
      using assms(1) s synced_plat [OF sy] by (auto simp: bindE_eq_Inr simp del: synced.simps dest: router_input_flash)
  next
    case (Radio deauth di e)
    then show ?thesis
      using assms(1) s synced_plat [OF sy] by (auto simp: bindE_eq_Inr simp del: synced.simps dest: handler_frame)
  next
    case (Query up pkt)
    then show ?thesis
      using assms(1) s synced_plat [OF sy]
      by (auto simp: bindE_eq_Inr simp del: synced.simps split: if_splits option.splits dest: dns_step_flash)
  qed
qed

end

end
