(* ===== verification/Http_State_Props.thy ===== *)
theory Http_State_Props
  imports Http_State Service_Store
begin

text \<open>
  What the pages promise: requests keep the state well formed, the page of devices names each device
  in a way that blocks it, and the forms store what was typed, decoded once too often.
\<close>

section \<open>Sequences of requests\<close>

lemma length_filter_take: "length (filter P (take n xs)) \<le> n"
  by (rule order_trans [OF length_filter_le]) simp

text \<open>C20: no sequence of requests, whatever is posted to whatever path, breaks the tables of the
  firewall: every result state is well formed, and the three listings stay within their capacities.\<close>

theorem requests_keep_state:
  assumes "c_texts E" and "http_ok h" and "run_ops (serve_step E) rqs (h, p) = Inr (h', p')"
  shows "http_ok h' \<and>
    (\<exists>a. get_custom_ports_handler (hs_services h') = Sent_json (JArr a) \<and> length a \<le> MAX_CUSTOM_PORT_RULES) \<and>
    (\<exists>a. get_blocked_domains_handler (hs_domains h') = Sent_json (JArr a) \<and> length a \<le> MAX_BLOCKED_DOMAINS) \<and>
    (\<exists>a. get_devices_handler (hs_devices h') = Sent_json (JArr a) \<and> length a \<le> MAX_DEVICES)"
proof -
  have "json_library (he_json E)" using assms(1) by (simp add: json_library_def c_texts_def)
  from json_library.step_ok [OF this, of E]
  have "op_system (serve_step E) (\<lambda>(h, p). http_ok h)" by unfold_locales auto
  from op_system.run_inv [OF this _ assms(3)] have ok: "http_ok h'" using assms(2) by simp
  then have "device_count (hs_devices h') \<le> MAX_DEVICES" "blocked_domain_count (hs_domains h') \<le> MAX_BLOCKED_DOMAINS"
    using domains_wfD [of "hs_domains h'"] by (simp_all add: http_ok_def devices_wf_def MAX_BLOCKED_DOMAINS_def)
  then show ?thesis
    using ok length_filter_take [of cr_active MAX_CUSTOM_PORT_RULES "g_custom_rules (hs_services h')"]
      order_trans [OF length_filter_take, of "blocked_domain_count (hs_domains h')" MAX_BLOCKED_DOMAINS]
    by (simp add: get_custom_ports_handler_def get_blocked_domains_handler_def get_devices_handler_def min_le_iff_disj)
qed

section \<open>Blocking a device from the page\<close>

text \<open>C19: the text the list of devices shows for a device, sent back with status BLOCKED, blocks exactly
  that device.\<close>

theorem page_blocks_device:
  assumes "devices_wf d" and "list_all (\<lambda>e. length (dv_mac e) = 6) (known d)"
    and "get_devices_handler d = Sent_json (JArr items)" and "JObj [(''mac'', JStr shown), st] \<in> set items"
    and "posts J req 128 json" and "has_text J json ''mac'' shown" and "has_text J json ''status'' ''BLOCKED''"
  shows "\<exists>d' p'. update_mac_handler J req d p = Inr (ESP_OK, Sent ''OK'', d', p') \<and> pflash p' = pflash p \<and>
    (\<forall>m. length m = 6 \<longrightarrow> device_status m d' = (if mac_string m = shown then BLOCKED else device_status m d))"
proof -
  from assms(3,4) obtain e where e: "e \<in> set (known d)" "shown = mac_string (dv_mac e)"
    by (auto simp: get_devices_handler_def known_def)
  have len: "length (dv_mac e) = 6" using assms(2) e(1) by (auto simp: list_all_iff)
  have scan: "scan_mac 6 shown = dv_mac e" using scan_mac_string [of "dv_mac e"] len e(2) by simp
  have ex: "dv_mac e \<in> set (map dv_mac (known d))" using e(1) by simp
  then have "mac_exists (dv_mac e) d" by (simp add: mac_exists_iff)
  moreover have "percent \<notin> set shown" using mac_string_chars e(2) by simp
  ultimately obtain p' where "update_mac_handler J req d p =
      Inr (ESP_OK, Sent ''OK'', snd (set_device_status (dv_mac e) ''BLOCKED'' d), p')" "pflash p' = pflash p"
    using assms(6,7) len
    by (auto simp: update_mac_handler_def with_json_posts [OF assms(5)] has_text_def scan deref_def Let_def)
  moreover have "device_status m (snd (set_device_status (dv_mac e) ''BLOCKED'' d)) =
      (if mac_string m = shown then BLOCKED else device_status m d)" if "length m = 6" for m
    using device_status_set [OF assms(1) ex, of m] mac_string_inj [of m "dv_mac e"] len that e(2) by auto
  ultimately show ?thesis by blast
qed

section \<open>The forms\<close>

lemma query_param_encoded:
  assumes "rq_value req buf k 64 = Some e" and "encodes t e" and "is_cstr t"
  shows "query_param req buf k = Inr (Some t)"
proof -
  have "is_cstr e" "url_decode e = t" using encodes_is_cstr [OF assms(2,3)] encodes_decode [OF assms(2)] by auto
  then have "preprocess_arg e = Inr t" using preprocess_arg_decoded [of e] assms(3) by (simp add: cstr_is_cstr)
  then show ?thesis using assms(1) by (simp add: query_param_def)
qed

lemma bind_param_Some [simp]: "bind_param (Inr (Some t)) s k = k t"
  by (simp add: bind_param_def)

text \<open>The words of the uplink form are those of a command line.\<close>

lemma sta_argv_words:
  "sta_argv s pw u i = ''set_sta'' # [s, pw] @ option_words (optional (CHR ''u'') (if pw \<noteq> [] then Some u else None) @
     optional (CHR ''a'') (if u \<noteq> [] then Some i else None))"
  by (auto simp: sta_argv_def optional_def option_words_def)

context configured
begin

lemma cmd_then_restart:
  assumes "cmd_ok c" and "cmd_commits c"
  obtains p' p'' where "cmd_run api parse c p = Inr (ESP_OK, p')"
    "load_config api (p'\<lparr>pflash := nvs_reset api (pflash p')\<rparr>) = Inr (cmd_update c (config_of (settings_in view p)), p'')"
proof -
  from cmd_run_spec [OF assms(1), of p] assms(2) obtain p' where p': "cmd_run api parse c p = Inr (ESP_OK, p')"
    "settings_in view p' = writes (cmd_writes c) (settings_in view p)" "settings_in disk p' = settings_in view p'" by blast
  obtain p'' where "load_config api (p'\<lparr>pflash := nvs_reset api (pflash p')\<rparr>) = Inr (config_of (settings_in disk p'), p'')"
    by (rule restart_load)
  then show thesis using that p' config_of_writes [OF assms(1)] by metis
qed

end

text \<open>C31: the access point form and the uplink form store their fields through the console commands, which
  decode the texts once more after the handler has: what the router reads after the restart is not
  what was typed but its decoding. The identity of the uplink form depends on the user name, and the
  user name on the password.\<close>

theorem forms_decode_twice:
  assumes "nvs_reliable api view disk handles" and "arg_parser parse"
    and "encodes s es" and "encodes pw epw" and "encodes u eu" and "encodes i ei"
    and "plain_arg s" and "plain_arg pw" and "is_cstr u" and "is_cstr i"
  shows "(rq_value req buf ''ap_ssid'' 64 = Some es \<and> rq_value req buf ''ap_password'' 64 = Some epw \<longrightarrow>
      (\<exists>p' p''. ap_form api parse req buf (b, p) = Inr (True, p') \<and>
        load_config api (p'\<lparr>pflash := nvs_reset api (pflash p')\<rparr>) =
          Inr ((config_of (settings_in view p))\<lparr>wp_ap_ssid := decoded s, wp_ap_passwd := decoded pw\<rparr>, p''))) \<and>
    (rq_value req buf ''ssid'' 64 = Some es \<and> rq_value req buf ''password'' 64 = Some epw \<and>
     rq_value req buf ''ent_username'' 64 = Some eu \<and> rq_value req buf ''ent_identity'' 64 = Some ei \<longrightarrow>
      (\<exists>p' p''. sta_form api parse req buf (b, p) = Inr (True, p') \<and>
        load_config api (p'\<lparr>pflash := nvs_reset api (pflash p')\<rparr>) =
          Inr ((config_of (settings_in view p))\<lparr>wp_ssid := decoded s, wp_passwd := decoded pw,
            wp_ent_username := (if pw \<noteq> [] then u else []), wp_ent_identity := (if u \<noteq> [] then i else [])\<rparr>, p'')))"
proof (intro conjI impI)
  note c = configured.intro [OF assms(1,2)]
  have cs: "is_cstr s" "is_cstr pw" using assms(7,8) by (simp_all add: plain_arg_def)
  note q = query_param_encoded [of req buf]
  assume v: "rq_value req buf ''ap_ssid'' 64 = Some es \<and> rq_value req buf ''ap_password'' 64 = Some epw"
  obtain p' p'' where "cmd_run api parse (Cmd_ap s pw) p = Inr (ESP_OK, p')"
    "load_config api (p'\<lparr>pflash := nvs_reset api (pflash p')\<rparr>) = Inr (cmd_update (Cmd_ap s pw) (config_of (settings_in view p)), p'')"
    by (rule configured.cmd_then_restart [OF c, of "Cmd_ap s pw" p]) (use assms(7,8) in simp_all)
  then show "\<exists>p' p''. ap_form api parse req buf (b, p) = Inr (True, p') \<and>
      load_config api (p'\<lparr>pflash := nvs_reset api (pflash p')\<rparr>) =
        Inr ((config_of (settings_in view p))\<lparr>wp_ap_ssid := decoded s, wp_ap_passwd := decoded pw\<rparr>, p'')"
    using v by (simp add: ap_form_def q [OF _ assms(3) cs(1)] q [OF _ assms(4) cs(2)])
next
  note c = configured.intro [OF assms(1,2)]
  have cs: "is_cstr s" "is_cstr pw" using assms(7,8) by (simp_all add: plain_arg_def)
  note q = query_param_encoded [of req buf]
  let ?c = "Cmd_sta s pw (if pw \<noteq> [] then Some u else None) (if u \<noteq> [] then Some i else None)"
  assume v: "rq_value req buf ''ssid'' 64 = Some es \<and> rq_value req buf ''password'' 64 = Some epw \<and>
     rq_value req buf ''ent_username'' 64 = Some eu \<and> rq_value req buf ''ent_identity'' 64 = Some ei"
  obtain p' p'' where "cmd_run api parse ?c p = Inr (ESP_OK, p')"
    "load_config api (p'\<lparr>pflash := nvs_reset api (pflash p')\<rparr>) = Inr (cmd_update ?c (config_of (settings_in view p)), p'')"
    by (rule configured.cmd_then_restart [OF c, of ?c p]) (use assms(7,8) in simp_all)
  then show "\<exists>p' p''. sta_form api parse req buf (b, p) = Inr (True, p') \<and>
      load_config api (p'\<lparr>pflash := nvs_reset api (pflash p')\<rparr>) =
        Inr ((config_of (settings_in view p))\<lparr>wp_ssid := decoded s, wp_passwd := decoded pw,
          wp_ent_username := (if pw \<noteq> [] then u else []), wp_ent_identity := (if u \<noteq> [] then i else [])\<rparr>, p'')"
    using v
    by (simp add: sta_form_def sta_argv_words q [OF _ assms(3) cs(1)] q [OF _ assms(4) cs(2)] q [OF _ assms(5,9)]
        q [OF _ assms(6,10)] if_distrib [of "case_option [] (\<lambda>t. t)"] cong: if_cong)
qed

text \<open>A client on the access point with the three pages of the router open.\<close>

definition sample_http :: "jval \<Rightarrow> (ram_flash, jval) http_env" where
  "sample_http j = \<lparr>he_api = ram_api, he_parse = simple_parse, he_json = jval_json (\<lambda>_. Some j), he_dashboard = [],
     he_server = \<lparr>ws_page = [], ws_routes = uri_handlers\<rparr>\<rparr>"

definition sample_post :: http_request where
  "sample_post = \<lparr>rq_recv = (\<lambda>n. Some ''{}''), rq_query = None, rq_value = (\<lambda>_ _ _. None)\<rparr>"

definition http_boot :: http_state where
  "http_boot = \<lparr>hs_services = service_boot, hs_domains = domain_boot, hs_devices = devices_boot, hs_restart = False\<rparr>"

lemma http_ok_boot: "http_ok http_boot"
  by (simp add: http_ok_def http_boot_def sf_wf_boot domains_wf_boot devices_wf_boot)

lemma jval_texts: "c_texts (sample_http j)"
  using jval.valuestring_cstr by (auto simp: c_texts_def sample_http_def)

definition web_rule :: jval where
  "web_rule = JObj [(''name'', JStr ''web''), (''port'', JInt 8080), (''proto'', JStr ''tcp''), (''blocked'', JBool True)]"

theorem requests_keep_state_witness:
  "\<exists>h' p'. run_ops (serve_step (sample_http web_rule))
      [(''/nowhere'', HTTP_GET, sample_post), (''/custom_ports/add'', HTTP_POST, sample_post)] (http_boot, plat0) = Inr (h', p') \<and>
    http_ok h' \<and> hs_services h' \<noteq> hs_services http_boot"
proof -
  obtain s1 p1 where add: "service_add_custom ram_api (Some ''web'') 8080 SVC_PROTO_TCP True service_boot plat0 = Inr (True, s1, p1)"
    by (rule boot_add [of 8080]) simp
  have none: "first_idx (same_rule 8080 SVC_PROTO_TCP) (g_custom_rules service_boot) = None"
    by (simp add: service_boot_def first_idx_None same_rule_def zero_rule_def)
  have "service_boot \<noteq> s1"
    using add sf_wf_boot none
    by (cases rule: service_add_custom_cases) (auto simp: service_boot_def zero_rule_def MAX_CUSTOM_PORT_RULES_def)
  moreover have "run_ops (serve_step (sample_http web_rule))
      [(''/nowhere'', HTTP_GET, sample_post), (''/custom_ports/add'', HTTP_POST, sample_post)] (http_boot, plat0) =
      Inr (http_boot\<lparr>hs_services := s1\<rparr>, p1)"
    using add by (simp add: serve_step_def serve_def route_def sample_http_def uri_handlers_def http_404_error_handler_def
        add_custom_port_handler_def with_json_def recv_body_def sample_post_def jval_json_def web_rule_def cstr_def
        u16_of_double_def trunc_frac_def deref_def proto_of_text_def strcaseeq_def http_boot_def)
  ultimately show ?thesis
    using requests_keep_state [OF jval_texts http_ok_boot] by (fastforce simp: http_boot_def)
qed

theorem page_blocks_device_witness:
  "\<exists>d' p'. update_mac_handler (jval_json (\<lambda>_. Some (JObj [(''mac'', JStr ''02:02:02:02:02:02''), (''status'', JStr ''BLOCKED'')])))
      sample_post (add_device [2, 2, 2, 2, 2, 2] devices_boot) plat0 = Inr (ESP_OK, Sent ''OK'', d', p') \<and>
    device_status [2, 2, 2, 2, 2, 2] d' = BLOCKED"
proof -
  let ?d = "add_device [2, 2, 2, 2, 2, 2] devices_boot" and ?m = "''02:02:02:02:02:02''"
  let ?J = "jval_json (\<lambda>_. Some (JObj [(''mac'', JStr ?m), (''status'', JStr ''BLOCKED'')]))"
  have known: "known ?d = [\<lparr>dv_mac = [2, 2, 2, 2, 2, 2], dv_status = PENDING\<rparr>]"
    unfolding add_device_known [OF devices_wf_boot]
    by (simp add: devices_boot_def known_def mac_exists_def MAX_DEVICES_def)
  have ms: "mac_string [2, 2, 2, 2, 2, 2] = ?m" by code_simp
  have items: "get_devices_handler ?d = Sent_json (JArr [JObj [(''mac'', JStr ?m), (''status'', JStr ''PENDING'')]])"
    using known ms by (simp add: get_devices_handler_def known_def)
  have "posts ?J sample_post 128 (JObj [(''mac'', JStr ?m), (''status'', JStr ''BLOCKED'')])"
    by (simp add: posts_def sample_post_def jval_json_def)
  moreover have "has_text ?J (JObj [(''mac'', JStr ?m), (''status'', JStr ''BLOCKED'')]) ''mac'' ?m"
    "has_text ?J (JObj [(''mac'', JStr ?m), (''status'', JStr ''BLOCKED'')]) ''status'' ''BLOCKED''"
    by (simp_all add: has_text_def jval_json_def cstr_def)
  moreover have "length [2, 2, 2, 2, 2, 2::byte] = 6" by simp
  ultimately show ?thesis
    using page_blocks_device [OF add_device_wf [OF devices_wf_boot] _ items, of ?m "(''status'', JStr ''PENDING'')" ?J sample_post
        "JObj [(''mac'', JStr ?m), (''status'', JStr ''BLOCKED'')]" plat0] known ms
    by (auto simp: items)
qed

definition sample_form :: http_request where
  "sample_form = \<lparr>rq_recv = (\<lambda>_. None), rq_query = Some ''ap_ssid=net&ap_password=pass%2Bword'',
     rq_value = (\<lambda>q k n. map_of [(''ap_ssid'', ''net''), (''ap_password'', ''pass%2Bword'')] k)\<rparr>"

theorem forms_decode_twice_witness:
  "\<exists>p' p''. ap_form ram_api simple_parse sample_form ''ap_ssid=net&ap_password=pass%2Bword'' (False, plat0) = Inr (True, p') \<and>
    encodes ''pass+word'' ''pass%2Bword'' \<and>
    load_config ram_api (p'\<lparr>pflash := nvs_reset ram_api (pflash p')\<rparr>) =
      Inr ((config_of (settings_in (\<lambda>f. map_of (rview f)) plat0))\<lparr>wp_ap_ssid := ''net'', wp_ap_passwd := ''pass word''\<rparr>, p'')"
proof -
  have c: "char_of (43 :: nat) = CHR ''+''" by code_simp
  have plain: "encodes ''net'' ''net''" "encodes ''word'' ''word''" by (simp_all add: encodes.intros)
  have "encodes (CHR 0x2B # ''word'') (''%2B'' @ ''word'')"
    using encodes.quoted [OF plain(2), of "CHR ''2''" 2 "CHR ''B''" 11] c by (simp add: hex_value_def)
  then have e: "encodes ''pass+word'' ''pass%2Bword''" by (auto intro!: encodes.plain)
  have d: "decoded ''net'' = ''net''" "decoded ''pass+word'' = ''pass word''" by code_simp+
  show ?thesis
    using forms_decode_twice [OF ram.nvs_reliable_axioms simple.arg_parser_axioms plain(1) e encodes.none encodes.none,
        of sample_form "''ap_ssid=net&ap_password=pass%2Bword''" False plat0] e
    by (simp add: plain_arg_def sample_form_def d del: url_decode.simps)
qed

end
