(* ===== verification/Life.thy ===== *)
theory Life
  imports System_Laws Http_State_Props
begin

text \<open>
  The life of a router: start-up step by step, the events of the machine in between and after it, and
  power cuts at any point, and that no such life loses what was saved.
\<close>

section \<open>The life of a router\<close>

text \<open>
  \<open>pc\<close> counts the steps of \<open>app_main\<close> that were run. The console is polled when all were; frames and radio
  events come at any time, queries and requests once their servers run. A power cut leaves the flash.
\<close>

type_synonym 'f life = "nat \<times> 'f system"

definition start_of_life :: "'f nvs_api \<Rightarrow> nat \<Rightarrow> dns_state \<Rightarrow> 'f plat \<Rightarrow> 'f life" where
  "start_of_life api slots q p = (case power_on api slots p of (r, p1) \<Rightarrow> (0, r, False, q, p1))"

definition system_plat :: "'f system \<Rightarrow> 'f plat" where
  "system_plat s = (case s of (r, b, q, p) \<Rightarrow> p)"

fun is_console :: "'j event \<Rightarrow> bool" where
  "is_console (Console aton argv) = True"
| "is_console _ = False"

inductive life_step :: "('f, 'j) http_env \<Rightarrow> boot_env \<Rightarrow> nat \<Rightarrow> 'f life \<Rightarrow> 'f life \<Rightarrow> bool" for E env slots where
  start_up: "pc < 11 \<Longrightarrow> (app_main_steps (he_api E) env ! pc) (r, p) = Inr (r', p') \<Longrightarrow>
     life_step E env slots (pc, r, b, q, p) (Suc pc, r', b, q, p')"
| happens: "is_console ev \<longrightarrow> pc = 11 \<Longrightarrow> system_step E ev s = Inr s' \<Longrightarrow> life_step E env slots (pc, s) (pc, s')"
| power_cut: "life_step E env slots (pc, s) (start_of_life (he_api E) slots q (system_plat s))"

inductive_cases life_stepE: "life_step E env slots l l'"

section \<open>What is saved survives\<close>






section \<open>Properties\<close>



section \<open>A life\<close>







end
