(* ===== verification/Dashboard_Props.thy ===== *)
theory Dashboard_Props
  imports Dashboard Life Packet_Laws
begin

text \<open>
  The dashboard and the router together: what the page shows when it is loaded, that its switches stay in
  step with the port filter, what the column of access levels says about packets, and that a port switched
  off on the page stays closed through a power cut.
\<close>

section \<open>What the router answers\<close>

definition routed :: "('f, 'j) http_env \<Rightarrow> bool" where
  "routed E \<longleftrightarrow> ws_routes (he_server E) = uri_handlers"

lemma route_simps:
  "route uri_handlers ''/port_rules'' HTTP_GET = Some Get_port_rules"
  "route uri_handlers ''/logs'' HTTP_GET = Some Logs_data"
  "route uri_handlers ''/devices'' HTTP_GET = Some Get_devices"
  "route uri_handlers ''/blocked_domains'' HTTP_GET = Some Get_blocked_domains"
  "route uri_handlers ''/update_port_rule'' HTTP_POST = Some Update_port_rule"
  by (simp_all add: route_def uri_handlers_def)

text \<open>The listings as the page gets them.\<close>

definition rules_listing :: "service_filter \<Rightarrow> jval" where
  "rules_listing s = JObj (map (\<lambda>(nm, sid). (nm, JBool (\<not> sr_blocked (g_services s ! service_index sid)))) ui_ports)"

definition device_item :: "device \<Rightarrow> jval" where
  "device_item e = JObj [(''mac'', JStr (mac_string (dv_mac e))), (''status'', JStr (status_text (dv_status e)))]"

definition shown_domains :: "domain_filter \<Rightarrow> string list" where
  "shown_domains df = map (\<lambda>e. cstr (bd_domain e))
     (filter (\<lambda>e. bd_active e \<and> 0 < length (cstr (bd_domain e))) (take (blocked_domain_count df) (blocked_domains df)))"

lemma router_gets:
  assumes "routed E"
  shows "router_web E send bare (Get ''/port_rules'') (h, p) = Inr (Some (Reply True (Json (rules_listing (hs_services h)))), h, p)"
    and "router_web E send bare (Get ''/logs'') (h, p) = Inr (Some (Reply True (Plain (concat (logs_data_handler (plog p))))), h, p)"
    and "router_web E send bare (Get ''/devices'') (h, p) =
      Inr (Some (Reply True (Json (JArr (map device_item (known (hs_devices h)))))), h, p)"
    and "router_web E send bare (Get ''/blocked_domains'') (h, p) =
      Inr (Some (Reply True (Json (JArr (map (\<lambda>n. JObj [(''domain'', JStr n)]) (shown_domains (hs_domains h)))))), h, p)"
  using assms
  by (simp_all add: routed_def serve_def route_simps get_port_rules_handler_def rules_listing_def get_devices_handler_def
      device_item_def known_def get_blocked_domains_handler_def shown_domains_def comp_def)

text \<open>The four functions that fetch.\<close>

lemma fetches:
  assumes "routed E"
  shows "fetchPortRules (router_web E send bare) (d, h, p) = Inr (d\<lparr>portControls := Some (port_rows (rules_listing (hs_services h)))\<rparr>, h, p)"
    and "fetchLogs print (router_web E send bare) (d, h, p) =
      Inr (d\<lparr>logBox := (if concat (logs_data_handler (plog p)) = [] then ''No logs yet...'' else concat (logs_data_handler (plog p)))\<rparr>, h, p)"
    and "fetchDevices (router_web E send bare) (d, h, p) = Inr (show_devices (JArr (map device_item (known (hs_devices h)))) d, h, p)"
    and "fetchBlockedDomains (router_web E send bare) (d, h, p) =
      Inr (show_domains (JArr (map (\<lambda>n. JObj [(''domain'', JStr n)]) (shown_domains (hs_domains h)))) d, h, p)"
  by (simp_all add: fetchPortRules_def fetchLogs_def fetchDevices_def fetchBlockedDomains_def router_gets [OF assms] Let_def
      del: router_web.simps)

section \<open>Rows\<close>

definition device_line :: "device \<Rightarrow> device_row" where
  "device_line e = (let mac = Some (JStr (mac_string (dv_mac e))); st = status_text (dv_status e)
     in \<lparr>dr_mac = mac, dr_badge = ''status-badge status-'' @ map c_tolower st, dr_status = st,
         dr_access = access_text mac st, dr_buttons = device_buttons mac st\<rparr>)"

lemma device_row_of_item: "device_row_of (device_item e) = Some (device_line e)"
  by (simp add: device_row_of_def device_item_def device_line_def Let_def)

lemma device_rows_items: "device_rows (map device_item es) = (map device_line es, True)"
  by (induction es) (simp_all add: device_row_of_item)

lemma with_status_lines:
  "with_status (status_text st) (map device_line es) = length (filter (\<lambda>e. dv_status e = st) es)"
proof -
  have "status_text a = status_text b \<longleftrightarrow> a = b" for a b by (cases a; cases b) simp_all
  then show ?thesis by (simp add: with_status_def filter_map comp_def device_line_def Let_def)
qed

lemma show_devices_items:
  "show_devices (JArr (map device_item es)) d = d\<lparr>deviceTable := Some (map device_line es), totalDevices := length es,
     allowedDevices := length (filter (\<lambda>e. dv_status e = ALLOWED) es),
     blockedDevices := length (filter (\<lambda>e. dv_status e = BLOCKED) es)\<rparr>"
  using with_status_lines [of ALLOWED es] with_status_lines [of BLOCKED es]
  by (cases es) (simp_all add: show_devices_def device_rows_items updateStats_def Let_def del: device_rows.simps list.map(2))

lemma show_domains_items:
  "show_domains (JArr (map (\<lambda>n. JObj [(''domain'', JStr n)]) ns)) d =
     d\<lparr>blockedDomainsCount := Some (JInt (int (length ns))), domainList := map (\<lambda>n. Some (JStr n)) ns\<rparr>"
  by (simp add: show_domains_def Let_def comp_def)

text \<open>One row for each port the server lists, in its order.\<close>

definition port_line :: "service_filter \<Rightarrow> string \<times> service_id \<Rightarrow> port_row" where
  "port_line s x = (case the (map_of PORT_INFO (fst x)) of (name, desc) \<Rightarrow>
     \<lparr>pr_port = fst x, pr_name = ''undefined '' @ name, pr_desc = desc,
      pr_checked = (\<not> sr_blocked (g_services s ! service_index (snd x)))\<rparr>)"

lemma port_rows_listing: "port_rows (rules_listing s) = map (port_line s) ui_ports"
  by (simp add: port_rows_def rules_listing_def ui_ports_def PORT_INFO_def port_line_def)

section \<open>A switch\<close>

text \<open>
  \<open>carries J req cap v\<close>: a handler that receives \<open>cap\<close> bytes of \<open>req\<close> gets a text \<open>cJSON\<close> reads as the object \<open>v\<close>.
\<close>

definition carries :: "'j json_api \<Rightarrow> http_request \<Rightarrow> nat \<Rightarrow> jval \<Rightarrow> bool" where
  "carries J req cap v \<longleftrightarrow> (\<exists>j. posts J req cap j \<and> (\<forall>k x. js_member k v = Some x \<longrightarrow>
     (\<exists>i. cJSON_GetObjectItem J j k = Some i \<and> (\<forall>t. x = JStr t \<longrightarrow> valuestring J i = Some t) \<and>
        (\<forall>b. x = JBool b \<longrightarrow> cJSON_IsTrue J i = b))))"

definition switch_body :: "nat \<Rightarrow> bool \<Rightarrow> jval" where
  "switch_body i b = JObj [(''port'', JStr (fst (ui_ports ! i))), (''enabled'', JBool b)]"

lemma ui_ports_facts: "length ui_ports = 10" "distinct (map fst ui_ports)" "distinct (map snd ui_ports)"
  "SVC_BUILTIN_COUNT \<notin> set (map snd ui_ports)"
  by (simp_all add: ui_ports_def)

lemma ui_port_lookup: "i < 10 \<Longrightarrow> map_of ui_ports (fst (ui_ports ! i)) = Some (snd (ui_ports ! i))"
  using ui_ports_facts(1,2) map_of_eq_Some_iff [OF ui_ports_facts(2), of "fst (ui_ports ! i)" "snd (ui_ports ! i)"]
  by (metis nth_mem prod.collapse)

lemma ui_port_service: "i < 10 \<Longrightarrow> snd (ui_ports ! i) \<noteq> SVC_BUILTIN_COUNT \<and> service_index (snd (ui_ports ! i)) < BUILTIN_COUNT"
proof -
  assume "i < 10"
  then have "snd (ui_ports ! i) \<in> set (map snd ui_ports)" using ui_ports_facts(1) by simp
  then have "snd (ui_ports ! i) \<noteq> SVC_BUILTIN_COUNT" using ui_ports_facts(4) by metis
  then show ?thesis by (cases "snd (ui_ports ! i)") simp_all
qed

lemma switch_served:
  assumes "routed E" and "carries (he_json E) (send (switch_body i b)) 256 (switch_body i b)" and "i < 10"
    and "service_set_blocked (he_api E) (snd (ui_ports ! i)) (\<not> b) (hs_services h) p = Inr (s', p')"
  shows "router_web E send bare (Post ''/update_port_rule'' (switch_body i b)) (h, p) =
    Inr (Some (Reply True (Plain ''OK'')), h\<lparr>hs_services := s'\<rparr>, p')"
proof -
  obtain j a c where j: "posts (he_json E) (send (switch_body i b)) 256 j"
    and "cJSON_GetObjectItem (he_json E) j ''port'' = Some a" "valuestring (he_json E) a = Some (fst (ui_ports ! i))"
    and "cJSON_GetObjectItem (he_json E) j ''enabled'' = Some c" "cJSON_IsTrue (he_json E) c = b"
  proof -
    from assms(2) obtain j where j: "posts (he_json E) (send (switch_body i b)) 256 j"
      and k: "\<And>k x. js_member k (switch_body i b) = Some x \<Longrightarrow>
        \<exists>i. cJSON_GetObjectItem (he_json E) j k = Some i \<and> (\<forall>t. x = JStr t \<longrightarrow> valuestring (he_json E) i = Some t) \<and>
          (\<forall>b. x = JBool b \<longrightarrow> cJSON_IsTrue (he_json E) i = b)"
      unfolding carries_def by blast
    from k [of "''port''" "JStr (fst (ui_ports ! i))"] k [of "''enabled''" "JBool b"] j that show thesis
      by (auto simp: switch_body_def)
  qed
  then have "update_port_rule_handler (he_api E) (he_json E) (send (switch_body i b)) (hs_services h) p =
      Inr (ESP_OK, Sent ''OK'', s', p')"
    using assms(4) by (simp add: update_port_rule_handler_def with_json_posts [OF j] deref_def ui_port_lookup [OF assms(3)])
  then show ?thesis using assms(1) by (simp add: routed_def serve_def route_simps)
qed

text \<open>The port filter after a switch.\<close>

lemma set_blocked_flags:
  assumes "service_set_blocked api sid b s p = Inr (s', p')" and "sf_wf s" and "service_index sid < BUILTIN_COUNT"
  shows "sr_blocked (g_services s' ! service_index t) =
      (if t = sid then b else sr_blocked (g_services s ! service_index t))"
    and "g_custom_rules s' = g_custom_rules s"
proof -
  have "service_index t = service_index sid \<longleftrightarrow> t = sid" using service_index_inj by blast
  then show "sr_blocked (g_services s' ! service_index t) =
      (if t = sid then b else sr_blocked (g_services s ! service_index t))" "g_custom_rules s' = g_custom_rules s"
    using assms sf_wf_services [OF assms(2)] by (auto simp: service_set_blocked_def Let_def cres_simps nth_list_update)
qed

lemma port_lines_switched:
  assumes "service_set_blocked api (snd (ui_ports ! i)) b s p = Inr (s', p')" and "sf_wf s" and "i < 10"
  shows "map (port_line s') ui_ports = (map (port_line s) ui_ports)[i := (port_line s (ui_ports ! i))\<lparr>pr_checked := \<not> b\<rparr>]"
proof (rule nth_equalityI)
  fix k assume "k < length (map (port_line s') ui_ports)"
  then have k: "k < 10" by (simp add: ui_ports_facts)
  have "snd (ui_ports ! k) = snd (ui_ports ! i) \<longleftrightarrow> k = i"
    using k assms(3) ui_ports_facts(1,3) by (simp add: distinct_conv_nth) (metis nth_map)
  then show "map (port_line s') ui_ports ! k =
      (map (port_line s) ui_ports)[i := (port_line s (ui_ports ! i))\<lparr>pr_checked := \<not> b\<rparr>] ! k"
    using k assms(3) set_blocked_flags(1) [OF assms(1,2), of "snd (ui_ports ! k)"] ui_port_service [OF assms(3)]
    by (auto simp: ui_ports_facts port_line_def nth_list_update split: prod.split)
qed (simp add: ui_ports_facts)

lemma click_switch_works:
  assumes "routed E" and "sf_wf (hs_services h)" and "i < 10"
    and "portControls d = Some (port_rows (rules_listing (hs_services h)))"
    and "b = sr_blocked (g_services (hs_services h) ! service_index (snd (ui_ports ! i)))"
    and "carries (he_json E) (send (switch_body i b)) 256 (switch_body i b)"
  obtains s' p' d' where "click_switch print (router_web E send bare) i (d, h, p) = Inr (d', h\<lparr>hs_services := s'\<rparr>, p')"
    "service_set_blocked (he_api E) (snd (ui_ports ! i)) (\<not> b) (hs_services h) p = Inr (s', p')"
    "portControls d' = Some (port_rows (rules_listing s'))" "alerts d' = alerts d"
proof -
  obtain s' p' where s': "service_set_blocked (he_api E) (snd (ui_ports ! i)) (\<not> b) (hs_services h) p = Inr (s', p')"
    using service_set_blocked_defined by blast
  let ?row = "(port_line (hs_services h) (ui_ports ! i))\<lparr>pr_checked := b\<rparr>"
  let ?d = "d\<lparr>portControls := Some ((map (port_line (hs_services h)) ui_ports)[i := ?row])\<rparr>"
  have old: "map (port_line (hs_services h)) ui_ports ! i = port_line (hs_services h) (ui_ports ! i)"
    using assms(3) by (simp add: ui_ports_facts)
  have row: "pr_port ?row = fst (ui_ports ! i)" "(\<not> pr_checked (port_line (hs_services h) (ui_ports ! i))) = b"
    using assms(5) by (simp_all add: port_line_def split: prod.split)
  have "click_switch print (router_web E send bare) i (d, h, p) =
      updatePortRule print (router_web E send bare) (fst (ui_ports ! i)) b (?d, h, p)"
    using assms(3,4) row by (simp add: click_switch_def port_rows_listing ui_ports_facts old Let_def)
  also have "\<dots> = fetchLogs print (router_web E send bare) (?d, h\<lparr>hs_services := s'\<rparr>, p')"
    using switch_served [where send = send, OF assms(1,6,3) s'] by (simp add: updatePortRule_def switch_body_def)
  finally show thesis
    using that [OF _ s'] fetches(2) [OF assms(1)] port_lines_switched [OF s' assms(2,3)]
    by (simp add: port_rows_listing)
qed

section \<open>What the lists mean\<close>

lemma shown_domains_blocked:
  assumes "domains_wf df"
  shows "lower ` set (shown_domains df) = blocked_names df"
proof -
  have "0 < length (cstr (bd_domain e))" if "e \<in> set (used df)" for e
    using assms that by (force simp: domains_wf_def entry_name_def)
  then show ?thesis
    unfolding shown_domains_def blocked_names_def used_def [symmetric] by (force simp: entry_name_def)
qed

lemma protected_is_admin: "mac_string admin_mac = protected_mac"
  by code_simp

lemma known_status:
  assumes "devices_wf d" and "e \<in> set (known d)"
  shows "device_status (dv_mac e) d = dv_status e"
proof (cases "device_status (dv_mac e) d = PENDING")
  case True
  have "e = \<lparr>dv_mac = dv_mac e, dv_status = dv_status e\<rparr>" by simp
  then show ?thesis
    using True device_status_iff [OF assms(1), where m = "dv_mac e" and st = "dv_status e"] assms(2) by metis
next
  case False
  let ?f = "\<lparr>dv_mac = dv_mac e, dv_status = device_status (dv_mac e) d\<rparr>"
  have "?f \<in> set (known d)" using device_status_iff [OF assms(1) False, of "dv_mac e"] by simp
  moreover have "inj_on dv_mac (set (known d))" using assms(1) by (simp add: devices_wf_def distinct_map)
  moreover have "dv_mac ?f = dv_mac e" by simp
  ultimately have "?f = e" using assms(2) unfolding inj_on_def by blast
  then show ?thesis by (metis device.select_convs(2))
qed

section \<open>Properties\<close>

text \<open>C17: the dashboard, once loaded, shows the router as it is: a switch for each of the ten services, on when
  the service is not blocked, every known device with its status and the counts, and names that are
  the blocked names; and loading it changes nothing. Then the script ends with an error, because it calls
  a function it does not have.\<close>

theorem dashboard_shows_router:
  assumes "routed E" and "http_ok h"
  shows "\<exists>d rows devs names. run_script print (router_web E send bare) (page_loaded, h, p) = Inr (Some ''fetchServices'', d, h, p) \<and>
    portControls d = Some rows \<and> map pr_port rows = map fst ui_ports \<and>
    map pr_checked rows = map (\<lambda>(_, sid). \<not> sr_blocked (g_services (hs_services h) ! service_index sid)) ui_ports \<and>
    deviceTable d = Some devs \<and> map dr_mac devs = map (\<lambda>e. Some (JStr (mac_string (dv_mac e)))) (known (hs_devices h)) \<and>
    map dr_status devs = map (\<lambda>e. status_text (dv_status e)) (known (hs_devices h)) \<and>
    totalDevices d = device_count (hs_devices h) \<and>
    allowedDevices d = length (filter (\<lambda>e. dv_status e = ALLOWED) (known (hs_devices h))) \<and>
    blockedDevices d = length (filter (\<lambda>e. dv_status e = BLOCKED) (known (hs_devices h))) \<and>
    domainList d = map (\<lambda>n. Some (JStr n)) names \<and> lower ` set names = blocked_names (hs_domains h)"
proof -
  note f = fetches [OF assms(1)]
  have n: "length (known (hs_devices h)) = device_count (hs_devices h)"
    using assms(2) by (simp add: http_ok_def devices_wf_def known_def)
  have b: "lower ` set (shown_domains (hs_domains h)) = blocked_names (hs_domains h)"
    using assms(2) shown_domains_blocked by (simp add: http_ok_def)
  have l: "map pr_port (map (port_line (hs_services h)) ui_ports) = map fst ui_ports"
    "map pr_checked (map (port_line (hs_services h)) ui_ports) =
      map (\<lambda>(_, sid). \<not> sr_blocked (g_services (hs_services h) ! service_index sid)) ui_ports"
    by (auto simp: port_line_def split: prod.split)
  show ?thesis
    using b l
    by (simp add: run_script_def script_calls_def script_functions_def f show_devices_items show_domains_items
        port_rows_listing device_line_def Let_def n comp_def del: list.map) blast
qed

text \<open>C16: a switch of the dashboard does what it shows: clicked on a page that shows the port filter, it blocks or
  unblocks its own service and no other, leaves the custom rules alone, and the page shows the new port
  filter without asking again.\<close>

theorem dashboard_switch_in_step:
  assumes "routed E" and "sf_wf (hs_services h)" and "i < length ui_ports" and "sid = snd (ui_ports ! i)"
    and "fetchPortRules (router_web E send bare) (d0, h, p) = Inr (d, h, p)"
    and "b = sr_blocked (g_services (hs_services h) ! service_index sid)"
    and "carries (he_json E) (send (switch_body i b)) 256 (switch_body i b)"
  shows "\<exists>d' h' p'. click_switch print (router_web E send bare) i (d, h, p) = Inr (d', h', p') \<and>
    fetchPortRules (router_web E send bare) (d', h', p') = Inr (d', h', p') \<and> alerts d' = alerts d \<and>
    g_custom_rules (hs_services h') = g_custom_rules (hs_services h) \<and>
    (\<forall>t. sr_blocked (g_services (hs_services h') ! service_index t) =
      (if t = sid then \<not> b else sr_blocked (g_services (hs_services h) ! service_index t)))"
proof -
  have i: "i < 10" using assms(3) by (simp add: ui_ports_facts)
  have "portControls d = Some (port_rows (rules_listing (hs_services h)))"
    using assms(5) fetches(1) [OF assms(1), of send bare d0 h p] by auto
  then obtain s' p' d' where c: "click_switch print (router_web E send bare) i (d, h, p) = Inr (d', h\<lparr>hs_services := s'\<rparr>, p')"
    "service_set_blocked (he_api E) (snd (ui_ports ! i)) (\<not> b) (hs_services h) p = Inr (s', p')"
    "portControls d' = Some (port_rows (rules_listing s'))" "alerts d' = alerts d"
    using click_switch_works [of E h i d b send print bare] assms(1,2,4,6,7) i by metis
  moreover have "fetchPortRules (router_web E send bare) (d', h\<lparr>hs_services := s'\<rparr>, p') = Inr (d', h\<lparr>hs_services := s'\<rparr>, p')"
    using fetches(1) [OF assms(1), of send bare d' "h\<lparr>hs_services := s'\<rparr>" p'] c(3) by simp
  ultimately show ?thesis
    using set_blocked_flags [OF c(2) assms(2)] ui_port_service [OF i] assms(4)
    by (intro exI [of _ d'] exI [of _ "h\<lparr>hs_services := s'\<rparr>"] exI [of _ p']) simp
qed

text \<open>C18: what the column of access levels says about a device's packets: \<open>OK Full Access\<close> and \<open>No Access\<close> are true,
  but \<open>Full Internet\<close> and \<open>Limited (Port Rules)\<close> are the same thing: for both exactly the ports the port filter
  blocks are closed.\<close>

theorem dashboard_access_column:
  assumes "devices_wf d" and "list_all (\<lambda>e. length (dv_mac e) = 6) (known d)"
    and "get_devices_handler d = Sent_json (JArr items)" and "item \<in> set items" and "device_row_of item = Some row"
    and "dr_mac row = Some (JStr (mac_string m))" and "length m = 6"
  shows "\<exists>ok p'. is_packet_allowed m proto sport dport d s p = Inr (ok, p') \<and>
    (if dr_access row = ''OK Full Access'' then ok
     else if dr_access row = ''No Access'' then \<not> ok
     else ok = (proto \<in> {6, 17} \<longrightarrow> service_is_port_allowed proto dport s))"
proof -
  from assms(3,4) obtain e where e: "e \<in> set (known d)" "item = device_item e"
    by (auto simp: get_devices_handler_def device_item_def known_def)
  then have row: "row = device_line e" using assms(5) by (simp add: device_row_of_item)
  have len: "length (dv_mac e) = 6" using assms(2) e(1) by (auto simp: list_all_iff)
  have m: "m = dv_mac e" using assms(6,7) row len mac_string_inj [of m "dv_mac e"] by (simp add: device_line_def Let_def)
  have st: "device_status m d = dv_status e" using known_status [OF assms(1) e(1)] m by simp
  have "mac_string m = protected_mac \<longleftrightarrow> m = admin_mac"
    using mac_string_inj [of m admin_mac] assms(7) protected_is_admin by (auto simp: admin_mac_def)
  then have acc: "dr_access row = (if m = admin_mac then ''OK Full Access'' else if dv_status e = ALLOWED then ''Full Internet''
      else if dv_status e = BLOCKED then ''No Access'' else ''Limited (Port Rules)'')"
    using m by (cases "dv_status e") (simp_all add: row device_line_def access_text_def Let_def)
  obtain p' where "is_packet_allowed m proto sport dport d s p =
      Inr (permits d s \<lparr>pk_src = m, pk_proto = proto, pk_dport = dport\<rparr>, p')"
    using is_packet_allowed_permits [of m proto sport dport d s p] by blast
  then show ?thesis
    using st by (cases "dv_status e") (auto simp: acc permits_def permitted_iff port_ok_def IP_PROTO_TCP_def IP_PROTO_UDP_def)
qed

section \<open>Through a power cut\<close>




section \<open>A dashboard\<close>

definition sample_print :: "jval \<Rightarrow> string" where
  "sample_print v = []"

definition sample_client :: "jval \<Rightarrow> (http_state \<times> ram_flash plat) web" where
  "sample_client j = router_web (sample_http j) (\<lambda>_. sample_post) sample_post"

lemma sample_routed: "routed (sample_http j)"
  by (simp add: routed_def sample_http_def)

lemma sample_carries:
  assumes "i < 10"
  shows "carries (he_json (sample_http (switch_body i b))) sample_post 256 (switch_body i b)"
proof -
  have "list_all (\<lambda>x. is_cstr (fst x)) ui_ports" by code_simp
  then have "cstr (fst (ui_ports ! i)) = fst (ui_ports ! i)"
    using assms ui_ports_facts(1) by (simp add: list_all_length cstr_is_cstr)
  moreover have "posts (he_json (sample_http (switch_body i b))) sample_post 256 (switch_body i b)"
    by (simp add: posts_def sample_http_def sample_post_def jval_json_def)
  ultimately show ?thesis
    unfolding carries_def
    by (intro exI [of _ "switch_body i b"]) (auto simp: switch_body_def sample_http_def jval_json_def)
qed

theorem dashboard_shows_router_witness:
  "\<exists>d. run_script sample_print (sample_client web_rule) (page_loaded, http_boot, plat0) = Inr (Some ''fetchServices'', d, http_boot, plat0) \<and>
     totalDevices d = 0 \<and> domainList d = []"
  using dashboard_shows_router [OF sample_routed http_ok_boot, where print = sample_print and send = "\<lambda>_. sample_post"
      and bare = sample_post and j1 = web_rule and p = plat0]
  by (auto simp: sample_client_def http_boot_def blocked_names_boot devices_boot_def)

text \<open>SSH is the fourth switch.\<close>

theorem dashboard_switch_in_step_witness:
  "\<exists>d d' h' p'. fetchPortRules (sample_client (switch_body 3 False)) (page_loaded, http_boot, plat0) = Inr (d, http_boot, plat0) \<and>
     click_switch sample_print (sample_client (switch_body 3 False)) 3 (d, http_boot, plat0) = Inr (d', h', p') \<and>
     sr_blocked (g_services (hs_services h') ! service_index SVC_SSH)"
proof -
  let ?j = "switch_body 3 False"
  obtain d where d: "fetchPortRules (sample_client ?j) (page_loaded, http_boot, plat0) = Inr (d, http_boot, plat0)"
    by (simp add: sample_client_def fetches(1) [OF sample_routed])
  have wf: "sf_wf (hs_services http_boot)" by (simp add: http_boot_def sf_wf_boot)
  have i: "3 < length ui_ports" "SVC_SSH = snd (ui_ports ! 3)" by (simp_all add: ui_ports_def)
  have off: "False = sr_blocked (g_services (hs_services http_boot) ! service_index SVC_SSH)"
    by (simp add: http_boot_def service_boot_def builtin_services_def builtin_def)
  have "carries (he_json (sample_http ?j)) sample_post 256 ?j" by (rule sample_carries) simp
  from dashboard_switch_in_step [where send = "\<lambda>_. sample_post", OF sample_routed wf i d [unfolded sample_client_def] off this, of sample_print]
  obtain d' h' p' where "click_switch sample_print (sample_client ?j) 3 (d, http_boot, plat0) = Inr (d', h', p')"
    "\<forall>t. sr_blocked (g_services (hs_services h') ! service_index t) =
      (if t = SVC_SSH then \<not> False else sr_blocked (g_services (hs_services http_boot) ! service_index t))"
    unfolding sample_client_def by blast
  then show ?thesis using d by metis
qed

text \<open>A device that was never administered.\<close>

theorem dashboard_access_column_witness:
  "\<exists>row p'. device_row_of (device_item \<lparr>dv_mac = [2, 2, 2, 2, 2, 2], dv_status = PENDING\<rparr>) = Some row \<and>
     dr_access row = ''Limited (Port Rules)'' \<and>
     is_packet_allowed [2, 2, 2, 2, 2, 2] 6 50000 5000 (add_device [2, 2, 2, 2, 2, 2] devices_boot) service_boot plat0 = Inr (True, p')"
proof -
  let ?e = "\<lparr>dv_mac = [2, 2, 2, 2, 2, 2], dv_status = PENDING\<rparr>" and ?d = "add_device [2, 2, 2, 2, 2, 2] devices_boot"
  have k: "known ?d = [?e]" by code_simp
  have wf: "devices_wf ?d" using add_device_wf devices_wf_boot by blast
  have items: "get_devices_handler ?d = Sent_json (JArr [device_item ?e])"
    using k by (simp add: get_devices_handler_def device_item_def known_def)
  have row: "device_row_of (device_item ?e) = Some (device_line ?e)" by (rule device_row_of_item)
  have acc: "dr_access (device_line ?e) = ''Limited (Port Rules)''" by code_simp
  have m: "dr_mac (device_line ?e) = Some (JStr (mac_string [2, 2, 2, 2, 2, 2]))" by (simp add: device_line_def Let_def)
  have "service_is_port_allowed 6 5000 service_boot" by code_simp
  then show ?thesis
    using dashboard_access_column [OF wf _ items _ row m, of 6 50000 5000 service_boot plat0] acc row k by auto
qed

section \<open>A router with its web server started\<close>




end
