(* ===== verification/Cmd_System.thy ===== *)
theory Cmd_System
  imports Argtable
begin

text \<open>
  The system commands of the console: \<open>components/cmd_system/cmd_system.c\<close>.

  The chip is a parameter: a record of what its information calls answer, and which calls of the sleep
  driver succeed. A command collects the calls it makes, in order; \<open>Off\<close> is a command that does not
  return, because the chip sleeps or restarts, \<open>Stopped\<close> one that \<open>ESP_ERROR_CHECK\<close> ends.
\<close>

section \<open>The chip\<close>

datatype chip_call =
    Sleep_disable_all                \<comment> \<open>\<open>esp_sleep_disable_wakeup_source(ESP_SLEEP_WAKEUP_ALL)\<close>\<close>
  | Sleep_timer "64 word"            \<comment> \<open>\<open>esp_sleep_enable_timer_wakeup\<close>, in microseconds\<close>
  | Sleep_ext1 "64 word" int         \<comment> \<open>\<open>esp_sleep_enable_ext1_wakeup\<close>: pins and level\<close>
  | Gpio_wakeup int bool             \<comment> \<open>\<open>gpio_wakeup_enable\<close>: pin, wake on high\<close>
  | Sleep_gpio                       \<comment> \<open>\<open>esp_sleep_enable_gpio_wakeup\<close>\<close>
  | Uart_threshold int int           \<comment> \<open>\<open>uart_set_wakeup_threshold\<close>\<close>
  | Sleep_uart int                   \<comment> \<open>\<open>esp_sleep_enable_uart_wakeup\<close>\<close>
  | Gpio_isolate int                 \<comment> \<open>\<open>rtc_gpio_isolate\<close>\<close>
  | Uart_wait_idle int               \<comment> \<open>\<open>uart_wait_tx_idle_polling\<close>\<close>
  | Deep_sleep_start
  | Light_sleep_start
  | Chip_restart

datatype wakeup_cause = Cause_gpio | Cause_uart | Cause_timer | Cause_other nat

text \<open>
  \<open>ch_esp32\<close> says whether the target is the ESP32 or the ESP32-S2, \<open>ch_uart\<close> is
  \<open>CONFIG_ESP_CONSOLE_UART_NUM\<close>, \<open>ch_pad\<close> is \<open>GPIO_IS_VALID_DIGITAL_IO_PAD\<close>.
\<close>

record chip =
  ch_esp32 :: bool
  ch_uart :: int
  ch_pad :: "int \<Rightarrow> bool"
  ch_ok :: "chip_call \<Rightarrow> bool"
  ch_cause :: wakeup_cause

datatype cmd_end = Exit int | Stopped | Off

type_synonym calls = "chip_call list"

definition make_call :: "chip_call \<Rightarrow> (calls \<Rightarrow> 'r) \<Rightarrow> calls \<Rightarrow> 'r" where
  "make_call x k cs = k (cs @ [x])"

text \<open>\<open>ESP_ERROR_CHECK\<close> of a call, and of one that is made only under a condition.\<close>

definition check_call :: "chip \<Rightarrow> chip_call \<Rightarrow> (calls \<Rightarrow> cmd_end \<times> calls) \<Rightarrow> calls \<Rightarrow> cmd_end \<times> calls" where
  "check_call c x k cs = (if ch_ok c x then k (cs @ [x]) else (Stopped, cs @ [x]))"

definition check_call_if ::
    "bool \<Rightarrow> chip \<Rightarrow> chip_call \<Rightarrow> (calls \<Rightarrow> cmd_end \<times> calls) \<Rightarrow> calls \<Rightarrow> cmd_end \<times> calls" where
  "check_call_if b c x k cs = (if b then check_call c x k cs else k cs)"

section \<open>Information\<close>

record chip_info =
  ci_is_esp32 :: bool
  ci_cores :: nat
  ci_wifi :: bool
  ci_ble :: bool
  ci_bt :: bool
  ci_emb_flash :: bool
  ci_revision :: nat

definition cr_lf :: string where "cr_lf = [CHR 0x0D, CHR 0x0A]"
definition tab :: string where "tab = [CHR 0x09]"

definition get_version :: "string \<Rightarrow> chip_info \<Rightarrow> 32 word \<Rightarrow> int \<times> string" where
  "get_version idf_version info size_flash_chip = (0,
     ''IDF Version:'' @ idf_version @ cr_lf @
     ''Chip info:'' @ cr_lf @
     tab @ ''model:'' @ (if ci_is_esp32 info then ''ESP32'' else ''Unknow'') @ cr_lf @
     tab @ ''cores:'' @ dec_of_nat (ci_cores info) @ cr_lf @
     tab @ ''feature:'' @ (if ci_wifi info then ''/802.11bgn'' else []) @ (if ci_ble info then ''/BLE'' else []) @
       (if ci_bt info then ''/BT'' else []) @
       (if ci_emb_flash info then ''/Embedded-Flash:'' else ''/External-Flash:'') @
       dec_of_nat (unat (size_flash_chip div (1024 * 1024))) @ '' MB'' @ cr_lf @
     tab @ ''revision number:'' @ dec_of_nat (ci_revision info) @ cr_lf)"

definition restart_cmd :: "calls \<Rightarrow> cmd_end \<times> calls" where
  "restart_cmd cs = make_call Chip_restart (\<lambda>cs. (Off, cs)) cs"

definition free_mem :: "32 word \<Rightarrow> int \<times> string" where
  "free_mem free_heap = (0, dec_of_nat (unat free_heap) @ [CHR 0x0A])"

definition heap_size :: "32 word \<Rightarrow> int \<times> string" where
  "heap_size min_free = (0, ''min heap size: '' @ dec_of_nat (unat min_free))"

text \<open>
  \<open>tasks\<close>: \<open>n\<close> is the number of tasks when the buffer is allocated, \<open>task_list\<close> the text \<open>vTaskList\<close>
  then writes into it. The configuration leaves the affinity column out.
\<close>

definition tasks_info :: "bool \<Rightarrow> nat \<Rightarrow> string \<Rightarrow> (int \<times> string) cres" where
  "tasks_info allocated n task_list =
     (let bytes_per_task = 40
      in if \<not> allocated then Inr (1, [])
         else guardE (length task_list < n * bytes_per_task) OOB_write
           (Inr (0, ''Task Name'' @ tab @ ''Status'' @ tab @ ''Prio'' @ tab @ ''HWM'' @ tab @ ''Task#'' @ [CHR 0x0A] @ task_list)))"

section \<open>Sleep\<close>

definition deep_sleep_args :: "arg_entry list" where
  "deep_sleep_args =
    [arg_int0 (Some ''t'') (Some ''time'') ''<t>'' ''Wake up time, ms'',
     arg_int0 None (Some ''io'') ''<n>'' ''If specified, wakeup using GPIO with given number'',
     arg_int0 None (Some ''io_level'') ''<0|1>'' ''GPIO level to trigger wakeup'']"

text \<open>\<open>1000ULL * ival[0]\<close>: the argument is converted to 64 bits, the product wraps.\<close>

definition wakeup_time_us :: "arg_value list \<Rightarrow> 64 word" where
  "wakeup_time_us t = 1000 * word_of_int (ival t)"

definition deep_sleep_pin :: "chip \<Rightarrow> int \<Rightarrow> arg_value list \<Rightarrow> (calls \<Rightarrow> cmd_end \<times> calls) \<Rightarrow> calls \<Rightarrow> cmd_end \<times> calls" where
  "deep_sleep_pin c io_num lev k cs =
     (if \<not> ch_pad c io_num then (Exit 1, cs)
      else
        let level = (if length lev > 0 then ival lev else 0)
        in if length lev > 0 \<and> level \<noteq> 0 \<and> level \<noteq> 1 then (Exit 1, cs)
           else check_call_if (ch_esp32 c) c (Sleep_ext1 (push_bit (nat io_num) 1) level) k cs)"

definition deep_sleep :: "chip \<Rightarrow> arg_parse \<Rightarrow> string list \<Rightarrow> calls \<Rightarrow> cmd_end \<times> calls" where
  "deep_sleep c parse argv = (case parse deep_sleep_args argv of
       Some [time, io, io_level] \<Rightarrow>
         check_call_if (length time > 0) c (Sleep_timer (wakeup_time_us time))
           ((if length io > 0 then deep_sleep_pin c (ival io) io_level else (\<lambda>k. k))
             (\<lambda>cs. make_call Deep_sleep_start (\<lambda>cs. (Off, cs)) (if ch_esp32 c then cs @ [Gpio_isolate 12] else cs)))
     | _ \<Rightarrow> (\<lambda>cs. (Exit 1, cs)))"

definition light_sleep_args :: "arg_entry list" where
  "light_sleep_args =
    [arg_int0 (Some ''t'') (Some ''time'') ''<t>'' ''Wake up time, ms'',
     arg_intn None (Some ''io'') ''<n>'' 0 8 ''If specified, wakeup using GPIO with given number'',
     arg_intn None (Some ''io_level'') ''<0|1>'' 0 8 ''GPIO level to trigger wakeup'']"

text \<open>The loop over the pairs of a pin and a level.\<close>

fun light_sleep_pins :: "chip \<Rightarrow> (arg_value \<times> arg_value) list \<Rightarrow> (calls \<Rightarrow> cmd_end \<times> calls) \<Rightarrow> calls \<Rightarrow> cmd_end \<times> calls" where
  "light_sleep_pins c [] k cs = k cs"
| "light_sleep_pins c ((io, lev) # ps) k cs =
     (let io_num = ival [io]; level = ival [lev]
      in if level \<noteq> 0 \<and> level \<noteq> 1 then (Exit 1, cs)
         else check_call c (Gpio_wakeup io_num (level \<noteq> 0)) (light_sleep_pins c ps k) cs)"

definition light_sleep_start :: "chip \<Rightarrow> calls \<Rightarrow> cmd_end \<times> calls" where
  "light_sleep_start c cs = (Exit 0, cs @ [Uart_wait_idle (ch_uart c), Light_sleep_start])"

definition light_sleep :: "chip \<Rightarrow> arg_parse \<Rightarrow> string list \<Rightarrow> calls \<Rightarrow> cmd_end \<times> calls" where
  "light_sleep c parse argv = (case parse light_sleep_args argv of
       Some [time, io, io_level] \<Rightarrow>
         make_call Sleep_disable_all
           (check_call_if (length time > 0) c (Sleep_timer (wakeup_time_us time))
             (\<lambda>cs. if length io \<noteq> length io_level then (Exit 1, cs)
               else light_sleep_pins c (zip io io_level)
                 (check_call_if (length io > 0) c Sleep_gpio
                   (check_call_if (ch_uart c \<le> 1) c (Uart_threshold (ch_uart c) 3)
                     (check_call_if (ch_uart c \<le> 1) c (Sleep_uart (ch_uart c)) (light_sleep_start c)))) cs))
     | _ \<Rightarrow> (\<lambda>cs. (Exit 1, cs)))"

text \<open>What \<open>light_sleep\<close> prints after the chip woke up.\<close>

definition cause_str :: "wakeup_cause \<Rightarrow> string" where
  "cause_str cause = (case cause of
       Cause_gpio \<Rightarrow> ''GPIO''
     | Cause_uart \<Rightarrow> ''UART''
     | Cause_timer \<Rightarrow> ''timer''
     | Cause_other n \<Rightarrow> ''unknown'')"

section \<open>The command table\<close>

datatype system_cmd = Sys_version | Sys_restart | Sys_free | Sys_heap | Sys_tasks | Sys_deep_sleep | Sys_light_sleep

definition register_free :: "(string \<times> string \<times> system_cmd \<times> arg_entry list) list" where
  "register_free = [(''free'', ''Get the current size of free heap memory'', Sys_free, [])]"

definition register_heap :: "(string \<times> string \<times> system_cmd \<times> arg_entry list) list" where
  "register_heap = [(''heap'',
     ''Get minimum size of free heap memory that was available during program execution'', Sys_heap, [])]"

definition register_version :: "(string \<times> string \<times> system_cmd \<times> arg_entry list) list" where
  "register_version = [(''version'', ''Get version of chip and SDK'', Sys_version, [])]"

definition register_restart :: "(string \<times> string \<times> system_cmd \<times> arg_entry list) list" where
  "register_restart = [(''restart'', ''Software reset of the chip'', Sys_restart, [])]"

definition register_deep_sleep :: "(string \<times> string \<times> system_cmd \<times> arg_entry list) list" where
  "register_deep_sleep = [(''deep_sleep'',
     ''Enter deep sleep mode. '' @ ''Two wakeup modes are supported: timer and GPIO. '' @
     ''If no wakeup option is specified, will sleep indefinitely.'', Sys_deep_sleep, deep_sleep_args)]"

definition register_light_sleep :: "(string \<times> string \<times> system_cmd \<times> arg_entry list) list" where
  "register_light_sleep = [(''light_sleep'',
     ''Enter light sleep mode. '' @ ''Two wakeup modes are supported: timer and GPIO. '' @
     ''Multiple GPIO pins can be specified using pairs of '' @
     [CHR 0x27] @ ''io'' @ [CHR 0x27] @ '' and '' @ [CHR 0x27] @ ''io_level'' @ [CHR 0x27] @ '' arguments. '' @
     ''Will also wake up on UART input.'', Sys_light_sleep, light_sleep_args)]"

definition register_tasks :: "(string \<times> string \<times> system_cmd \<times> arg_entry list) list" where
  "register_tasks = [(''tasks'', ''Get information about running tasks'', Sys_tasks, [])]"

text \<open>The configurations of the repository all have \<open>WITH_TASKS_INFO\<close>.\<close>

definition register_system :: "(string \<times> string \<times> system_cmd \<times> arg_entry list) list" where
  "register_system = register_free @ register_heap @ register_version @ register_restart @
     register_deep_sleep @ register_light_sleep @ register_tasks"

section \<open>Which sources wake the chip\<close>

text \<open>
  The sources that are enabled after a sequence of calls. A source stays enabled until all are
  disabled, or the chip was off.
\<close>

record wakeup =
  wk_timer :: "64 word option"
  wk_ext1 :: "(64 word \<times> int) option"
  wk_pins :: "(int \<times> bool) list"    \<comment> \<open>configured pins\<close>
  wk_gpio :: bool                    \<comment> \<open>and whether they wake\<close>
  wk_uart :: "int option"

definition no_wakeup :: wakeup where
  "no_wakeup = \<lparr>wk_timer = None, wk_ext1 = None, wk_pins = [], wk_gpio = False, wk_uart = None\<rparr>"

fun wakeup_call :: "chip_call \<Rightarrow> wakeup \<Rightarrow> wakeup" where
  "wakeup_call Sleep_disable_all w = w\<lparr>wk_timer := None, wk_ext1 := None, wk_gpio := False, wk_uart := None\<rparr>"
| "wakeup_call (Sleep_timer t) w = w\<lparr>wk_timer := Some t\<rparr>"
| "wakeup_call (Sleep_ext1 m l) w = w\<lparr>wk_ext1 := Some (m, l)\<rparr>"
| "wakeup_call (Gpio_wakeup n b) w = w\<lparr>wk_pins := wk_pins w @ [(n, b)]\<rparr>"
| "wakeup_call Sleep_gpio w = w\<lparr>wk_gpio := True\<rparr>"
| "wakeup_call (Sleep_uart n) w = w\<lparr>wk_uart := Some n\<rparr>"
| "wakeup_call _ w = w"

definition wakeup_of :: "calls \<Rightarrow> wakeup" where
  "wakeup_of cs = fold wakeup_call cs no_wakeup"

lemma wakeup_of_simps [simp]:
  "wakeup_of [] = no_wakeup" "wakeup_of (cs @ ds) = fold wakeup_call ds (wakeup_of cs)"
  by (simp_all add: wakeup_of_def)

lemmas sleep_defs = check_call_def check_call_if_def make_call_def deep_sleep_pin_def light_sleep_start_def

lemma light_sleep_pins_all:
  assumes "length ios = length levels" and "set levels \<subseteq> {0, 1}" and "\<And>n b. ch_ok c (Gpio_wakeup n b)"
  shows "light_sleep_pins c (zip (map AInt ios) (map AInt levels)) k cs =
    k (cs @ map (\<lambda>(n, l). Gpio_wakeup n (l = 1)) (zip ios levels))"
  using assms(1,2)
proof (induction ios levels arbitrary: cs rule: list_induct2)
  case (Cons n ns l ls)
  then have "l = 0 \<or> l = 1" by auto
  then show ?case using Cons assms(3) by (auto simp: check_call_def ival_def)
qed simp

lemma wakeup_pins:
  "fold wakeup_call (map (\<lambda>(n, l). Gpio_wakeup n (l = 1)) ps) w =
     w\<lparr>wk_pins := wk_pins w @ map (\<lambda>(n, l). (n, l = 1)) ps\<rparr>"
  by (induction ps arbitrary: w) auto

section \<open>Properties\<close>

text \<open>An accepted \<open>light_sleep\<close> wakes up by exactly what was asked for and the console, whatever
  earlier commands enabled; a refused one has disabled every source but perhaps its own timer.\<close>

theorem light_sleep_sources:
  assumes "parse light_sleep_args argv = Some [map AInt t, map AInt ios, map AInt levels]"
    and "length t \<le> 1" and "set levels \<subseteq> {0, 1}" and "\<And>x. ch_ok c x"
  shows "\<exists>e cs'. light_sleep c parse argv cs = (e, cs') \<and>
    e = (if length ios = length levels then Exit 0 else Exit 1) \<and>
    wk_timer (wakeup_of cs') = (if t = [] then None else Some (1000 * word_of_int (hd t))) \<and>
    wk_ext1 (wakeup_of cs') = None \<and>
    wk_uart (wakeup_of cs') = (if length ios = length levels \<and> ch_uart c \<le> 1 then Some (ch_uart c) else None) \<and>
    wk_gpio (wakeup_of cs') = (length ios = length levels \<and> ios \<noteq> []) \<and>
    wk_pins (wakeup_of cs') = wk_pins (wakeup_of cs) @
      (if length ios = length levels then zip ios (map (\<lambda>l. l = 1) levels) else [])"
proof (cases "length ios = length levels")
  case False
  then show ?thesis
    using assms(1,2,4) by (cases t) (auto simp: light_sleep_def sleep_defs wakeup_time_us_def ival_def)
next
  case True
  have z: "map (\<lambda>(n, l). (n, l = 1)) (zip ios levels) = zip ios (map (\<lambda>l. l = 1) levels)"
    by (simp add: zip_map2)
  note pins = light_sleep_pins_all [OF True assms(3), of c] assms(4)
  show ?thesis
    using assms(1,2,4) True pins
    by (cases t) (auto simp: light_sleep_def sleep_defs wakeup_time_us_def ival_def wakeup_pins z)
qed

text \<open>An ESP32 whose driver accepts everything, with valid pins up to 39.\<close>

definition sample_chip :: chip where
  "sample_chip = \<lparr>ch_esp32 = True, ch_uart = 0, ch_pad = (\<lambda>i. 0 \<le> i \<and> i < 40), ch_ok = (\<lambda>_. True), ch_cause = Cause_timer\<rparr>"

theorem light_sleep_sources_witness:
  "\<exists>cs'. light_sleep sample_chip (\<lambda>_ _. Some [[AInt 5], [AInt 4, AInt 15], [AInt 1, AInt 0]]) [''light_sleep''] [Sleep_ext1 1 0] = (Exit 0, cs') \<and>
    wk_timer (wakeup_of cs') = Some 5000 \<and> wk_ext1 (wakeup_of cs') = None \<and>
    wk_pins (wakeup_of cs') = [(4, True), (15, False)]"
proof -
  have "wk_pins (wakeup_of [Sleep_ext1 1 0]) = []" by (simp add: wakeup_of_def no_wakeup_def)
  then show ?thesis
    using light_sleep_sources [of "\<lambda>_ _. Some [[AInt 5], [AInt 4, AInt 15], [AInt 1, AInt 0]]" "[''light_sleep'']"
        "[5]" "[4, 15]" "[1, 0]" sample_chip "[Sleep_ext1 1 0]"]
    by (auto simp: sample_chip_def)
qed

text \<open>A \<open>deep_sleep\<close> that is refused because of its pin or level leaves the timer it set enabled, so
  that the next \<open>deep_sleep\<close> without an option does not sleep indefinitely but wakes after that time; a
  negative time is a period of more than half a million years.\<close>

theorem refused_deep_sleep_arms_timer:
  assumes "parse deep_sleep_args argv1 = Some [[AInt t], [AInt n], lev]" and "\<not> ch_pad c n \<or> (\<exists>l. lev = [AInt l] \<and> l \<notin> {0, 1})"
    and "parse deep_sleep_args argv2 = Some [[], [], []]" and "\<And>x. ch_ok c x" and "- (2 ^ 31) \<le> t" and "t < 2 ^ 31"
  shows "\<exists>cs1 cs2. deep_sleep c parse argv1 cs = (Exit 1, cs1) \<and> deep_sleep c parse argv2 cs1 = (Off, cs2) \<and>
    wk_timer (wakeup_of cs2) = Some (1000 * word_of_int t) \<and>
    uint (1000 * word_of_int t :: 64 word) = (if t < 0 then 2 ^ 64 + 1000 * t else 1000 * t)"
proof -
  have "deep_sleep c parse argv1 cs = (Exit 1, cs @ [Sleep_timer (1000 * word_of_int t)])"
    using assms(1,2,4) by (auto simp: deep_sleep_def sleep_defs wakeup_time_us_def ival_def)
  moreover have "\<exists>cs2. deep_sleep c parse argv2 (cs @ [Sleep_timer (1000 * word_of_int t)]) = (Off, cs2) \<and>
      wk_timer (wakeup_of cs2) = Some (1000 * word_of_int t)"
    using assms(3,4) by (auto simp: deep_sleep_def sleep_defs)
  moreover have "uint (1000 * word_of_int t :: 64 word) = (if t < 0 then 2 ^ 64 + 1000 * t else 1000 * t)"
  proof -
    have "uint (1000 * word_of_int t :: 64 word) = (1000 * t) mod 2 ^ 64"
      by (simp add: uint_word_ariths unsigned_of_int take_bit_eq_mod mod_mult_right_eq)
    moreover have "(1000 * t) mod 2 ^ 64 = 1000 * t" if "0 \<le> t" using that assms(6) by (intro mod_pos_pos_trivial) simp_all
    moreover have "(1000 * t) mod 2 ^ 64 = 2 ^ 64 + 1000 * t" if "t < 0"
    proof -
      have "(1000 * t) mod 2 ^ 64 = (2 ^ 64 + 1000 * t) mod 2 ^ 64" by simp
      also have "\<dots> = 2 ^ 64 + 1000 * t" using that assms(5) by (intro mod_pos_pos_trivial) simp_all
      finally show ?thesis .
    qed
    ultimately show ?thesis by auto
  qed
  ultimately show ?thesis by blast
qed

theorem refused_deep_sleep_arms_timer_witness:
  "\<exists>cs1 cs2. deep_sleep sample_chip (\<lambda>_ argv. if length argv = 1 then Some [[], [], []] else Some [[AInt 5], [AInt 99], []])
      [''deep_sleep'', ''-t'', ''5'', ''--io'', ''99''] [] = (Exit 1, cs1) \<and>
    deep_sleep sample_chip (\<lambda>_ argv. if length argv = 1 then Some [[], [], []] else Some [[AInt 5], [AInt 99], []])
      [''deep_sleep''] cs1 = (Off, cs2) \<and>
    wk_timer (wakeup_of cs2) = Some 5000"
  using refused_deep_sleep_arms_timer [of "\<lambda>_ argv. if length argv = 1 then Some [[], [], []] else Some [[AInt 5], [AInt 99], []]"
      "[''deep_sleep'', ''-t'', ''5'', ''--io'', ''99'']" 5 99 "[]" sample_chip "[''deep_sleep'']" "[]"]
  by (simp add: sample_chip_def)

end
