(* ===== verification/Log_Race.thy ===== *)
theory Log_Race
  imports Log_Buffer
begin

text \<open>
  The ring of log lines without its lock: \<open>add_log_line\<close> is called by the tasks of the radio, the DNS
  server, the web server, the IP stack and the console, and nothing orders their accesses. Here a call is
  the sequence of its accesses to the two globals, byte by byte, and the tasks interleave. The
  format is rendered by the calling task; it enters as the text \<open>r\<close>. Accesses to a byte and to an
  aligned \<open>int\<close> are indivisible on the chip.
\<close>

section \<open>Memory and tasks\<close>

record log_mem =
  lm_bytes :: "string list"
  lm_index :: nat

definition log_mem_init :: log_mem where
  "log_mem_init = \<lparr>lm_bytes = replicate LOG_BUFFER_SIZE (replicate LOG_LINE_MAX_LEN NUL), lm_index = 0\<rparr>"

text \<open>
  Where a task is in \<open>add_log_line\<close>: outside, in \<open>vsnprintf\<close> with a line, a position and what is left to
  write, before the increment, and after its read of the index.
\<close>

datatype log_task = Idle | Copying nat nat string | Copied | Bumping nat

text \<open>The address of the line is computed when \<open>vsnprintf\<close> is called.\<close>

definition call_log :: "string \<Rightarrow> log_mem \<Rightarrow> log_task" where
  "call_log r m = Copying (lm_index m) 0 (take (LOG_LINE_MAX_LEN - 1) r @ [NUL])"

fun task_step :: "log_task \<Rightarrow> log_mem \<Rightarrow> (log_task \<times> log_mem) option" where
  "task_step Idle m = None"
| "task_step (Copying i k []) m = Some (Copied, m)"
| "task_step (Copying i k (c # cs)) m =
     Some (Copying i (k + 1) cs, m\<lparr>lm_bytes := (lm_bytes m)[i := (lm_bytes m ! i)[k := c]]\<rparr>)"
| "task_step Copied m = Some (Bumping (lm_index m), m)"
| "task_step (Bumping v) m = Some (Idle, m\<lparr>lm_index := (v + 1) mod LOG_BUFFER_SIZE\<rparr>)"

type_synonym race = "(nat \<Rightarrow> log_task) \<times> log_mem"

inductive race_step :: "race \<Rightarrow> race \<Rightarrow> bool" where
  call_it: "T t = Idle \<Longrightarrow> is_cstr r \<Longrightarrow> race_step (T, m) (T(t := call_log r m), m)"
| go_on: "task_step (T t) m = Some (x, m') \<Longrightarrow> race_step (T, m) (T(t := x), m')"

inductive_cases race_stepE: "race_step (T, m) s'"

section \<open>No task leaves the arrays\<close>

fun task_ok :: "log_task \<Rightarrow> bool" where
  "task_ok (Copying i k cs) \<longleftrightarrow> i < LOG_BUFFER_SIZE \<and> k + length cs \<le> LOG_LINE_MAX_LEN \<and> (cs \<noteq> [] \<longrightarrow> last cs = NUL)"
| "task_ok _ = True"

definition line_ok :: "string \<Rightarrow> bool" where
  "line_ok l \<longleftrightarrow> length l = LOG_LINE_MAX_LEN \<and> l ! (LOG_LINE_MAX_LEN - 1) = NUL"

definition race_inv :: "race \<Rightarrow> bool" where
  "race_inv s \<longleftrightarrow> (\<forall>t. task_ok (fst s t)) \<and> length (lm_bytes (snd s)) = LOG_BUFFER_SIZE \<and>
     list_all line_ok (lm_bytes (snd s)) \<and> lm_index (snd s) < LOG_BUFFER_SIZE"

lemma line_ok_NUL: "line_ok l \<Longrightarrow> NUL \<in> set l"
  by (auto simp: line_ok_def LOG_LINE_MAX_LEN_def in_set_conv_nth intro!: exI [of _ 127])

lemma race_inv_init: "race_inv (\<lambda>_. Idle, log_mem_init)"
  by (simp add: race_inv_def log_mem_init_def list_all_length line_ok_def LOG_BUFFER_SIZE_def LOG_LINE_MAX_LEN_def)

lemma call_log_ok: "race_inv (T, m) \<Longrightarrow> task_ok (call_log r m)"
  by (simp add: race_inv_def call_log_def LOG_LINE_MAX_LEN_def)

lemma line_ok_write:
  assumes "line_ok l" and "k + length (c # cs) \<le> LOG_LINE_MAX_LEN" and "last (c # cs) = NUL"
  shows "line_ok (l[k := c])"
  using assms by (cases cs) (auto simp: line_ok_def nth_list_update)

lemma task_step_ok:
  assumes "task_step x m = Some (x', m')" and "task_ok x" and "length (lm_bytes m) = LOG_BUFFER_SIZE"
    and "list_all line_ok (lm_bytes m)" and "lm_index m < LOG_BUFFER_SIZE"
  shows "task_ok x' \<and> length (lm_bytes m') = LOG_BUFFER_SIZE \<and> list_all line_ok (lm_bytes m') \<and> lm_index m' < LOG_BUFFER_SIZE"
  using assms
proof (cases x)
  case (Copying i k cs)
  then show ?thesis
  proof (cases cs)
    case (Cons c ds)
    have "line_ok (lm_bytes m ! i)" using assms(2-4) Copying by (simp add: list_all_length)
    then have "line_ok ((lm_bytes m ! i)[k := c])"
      using line_ok_write assms(2) Copying Cons by (metis list.discI task_ok.simps(1))
    then show ?thesis using assms Copying Cons by (auto simp: list_all_update split: if_splits)
  qed (use assms in auto)
qed (use assms in \<open>auto simp: LOG_BUFFER_SIZE_def\<close>)

lemma race_step_inv: "race_step s s' \<Longrightarrow> race_inv s \<Longrightarrow> race_inv s'"
proof (induction rule: race_step.induct)
  case (call_it T t r m)
  then show ?case using call_log_ok by (auto simp: race_inv_def)
next
  case (go_on T t m x m')
  then show ?case using task_step_ok [of "T t" m x m'] by (auto simp: race_inv_def)
qed

lemma race_reachable_inv: "race_step\<^sup>*\<^sup>* s s' \<Longrightarrow> race_inv s \<Longrightarrow> race_inv s'"
  by (induction rule: rtranclp_induct) (auto intro: race_step_inv)

text \<open>Every line a reader finds is a string inside its array.\<close>

definition ring_of :: "log_mem \<Rightarrow> log_state" where
  "ring_of m = \<lparr>log_buffer = map cstr (lm_bytes m), log_index = lm_index m\<rparr>"

lemma ring_of_init: "ring_of log_mem_init = log_init"
  by (simp add: ring_of_def log_mem_init_def log_init_def cstr_def LOG_LINE_MAX_LEN_def)

lemma line_ok_cstr: "line_ok l \<Longrightarrow> length (cstr l) < LOG_LINE_MAX_LEN"
proof (rule ccontr)
  let ?n = "LOG_LINE_MAX_LEN - 1"
  assume l: "line_ok l" and "\<not> length (cstr l) < LOG_LINE_MAX_LEN"
  then have n: "?n < length (cstr l)" by (simp add: LOG_LINE_MAX_LEN_def)
  then have "cstr l ! ?n \<noteq> NUL" using is_cstr_cstr [of l] by (metis is_cstr_def nth_mem)
  then show False using l n by (simp add: cstr_def takeWhile_nth line_ok_def)
qed

lemma ring_of_wf: "race_inv (T, m) \<Longrightarrow> log_wf (ring_of m)"
  using line_ok_cstr by (auto simp: race_inv_def ring_of_def log_wf_def list_all_iff)

section \<open>Schedules\<close>

text \<open>The tasks named by a list go on in its order; no new call is made.\<close>

fun run_schedule :: "nat list \<Rightarrow> race \<Rightarrow> race option" where
  "run_schedule [] s = Some s"
| "run_schedule (t # ts) (T, m) =
     (case task_step (T t) m of None \<Rightarrow> None | Some (x, m') \<Rightarrow> run_schedule ts (T(t := x), m'))"

lemma run_schedule_append:
  "run_schedule (ts @ us) s = (case run_schedule ts s of None \<Rightarrow> None | Some s' \<Rightarrow> run_schedule us s')"
  by (induction ts s rule: run_schedule.induct) (auto split: option.splits)

lemma run_schedule_steps: "run_schedule ts s = Some s' \<Longrightarrow> race_step\<^sup>*\<^sup>* s s'"
proof (induction ts s rule: run_schedule.induct)
  case (2 t ts T m)
  then show ?case
    by (auto split: option.splits prod.splits intro: converse_rtranclp_into_rtranclp go_on)
qed simp

section \<open>One task alone\<close>

definition next_line :: "nat \<Rightarrow> nat" where
  "next_line i = (i + 1) mod LOG_BUFFER_SIZE"

definition sized :: "log_mem \<Rightarrow> bool" where
  "sized m \<longleftrightarrow> length (lm_bytes m) = LOG_BUFFER_SIZE \<and> (\<forall>l \<in> set (lm_bytes m). length l = LOG_LINE_MAX_LEN) \<and>
     lm_index m < LOG_BUFFER_SIZE"

lemma race_inv_sized: "race_inv (T, m) \<Longrightarrow> sized m"
  by (auto simp: race_inv_def sized_def line_ok_def list_all_iff)

text \<open>The memory once the line \<open>i\<close> is copied, and the steps that takes.\<close>

definition written :: "nat \<Rightarrow> string \<Rightarrow> log_mem \<Rightarrow> log_mem" where
  "written i r m = (let x = take (LOG_LINE_MAX_LEN - 1) r
     in m\<lparr>lm_bytes := (lm_bytes m)[i := x @ [NUL] @ drop (length x + 1) (lm_bytes m ! i)]\<rparr>)"

definition copy_steps :: "string \<Rightarrow> nat" where
  "copy_steps r = length (take (LOG_LINE_MAX_LEN - 1) r) + 2"

lemma written_index [simp]: "lm_index (written i r m) = lm_index m"
  by (simp add: written_def Let_def)

lemma sized_written:
  assumes "sized m" and "i < LOG_BUFFER_SIZE"
  shows "sized (written i r m)"
proof -
  have "length (lm_bytes m ! i) = LOG_LINE_MAX_LEN" using assms by (simp add: sized_def)
  then show ?thesis using assms
    by (auto simp: sized_def written_def Let_def LOG_LINE_MAX_LEN_def dest!: set_update_subset_insert [THEN subsetD])
qed

lemma ring_of_written:
  "is_cstr r \<Longrightarrow> ring_of (written i r m) = (ring_of m)\<lparr>log_buffer := (log_buffer (ring_of m))[i := take (LOG_LINE_MAX_LEN - 1) r]\<rparr>"
  by (simp add: ring_of_def written_def Let_def map_update cstr_append_NUL is_cstr_take)

lemma copy_alone:
  assumes "i < length (lm_bytes m)" and "k + length cs \<le> length (lm_bytes m ! i)"
  shows "run_schedule (replicate (Suc (length cs)) t) (T(t := Copying i k cs), m) =
    Some (T(t := Copied), m\<lparr>lm_bytes := (lm_bytes m)[i := take k (lm_bytes m ! i) @ cs @ drop (k + length cs) (lm_bytes m ! i)]\<rparr>)"
  using assms
proof (induction cs arbitrary: k m)
  case (Cons c cs)
  let ?l = "lm_bytes m ! i" and ?m = "m\<lparr>lm_bytes := (lm_bytes m)[i := (lm_bytes m ! i)[k := c]]\<rparr>"
  have "take (Suc k) (?l[k := c]) @ cs @ drop (Suc k + length cs) (?l[k := c]) =
      take k ?l @ (c # cs) @ drop (k + length (c # cs)) ?l"
    using Cons.prems(2) by (simp add: take_Suc_conv_app_nth drop_update_cancel)
  then show ?case
    using Cons.IH [of ?m "Suc k"] Cons.prems by (simp del: fun_upd_apply add: fun_upd_same)
qed simp

lemma copied_alone:
  assumes "sized m" and "i < LOG_BUFFER_SIZE"
  shows "run_schedule (replicate (copy_steps r) t) (T(t := Copying i 0 (take (LOG_LINE_MAX_LEN - 1) r @ [NUL])), m) =
    Some (T(t := Copied), written i r m)"
proof -
  let ?x = "take (LOG_LINE_MAX_LEN - 1) r"
  have i: "i < length (lm_bytes m)" and "0 + length (?x @ [NUL]) \<le> length (lm_bytes m ! i)"
    using assms by (simp_all add: sized_def LOG_LINE_MAX_LEN_def)
  from copy_alone [OF this, of t T] show ?thesis
    by (simp add: copy_steps_def written_def Let_def del: replicate_Suc fun_upd_apply)
qed

text \<open>A call that nobody disturbs is the step of the ring.\<close>

lemma call_alone:
  assumes "sized m" and "T t = Idle" and "is_cstr r"
  shows "\<exists>m'. run_schedule (replicate (copy_steps r) t @ [t, t]) (T(t := call_log r m), m) = Some (T, m') \<and>
    ring_of m' = put_line r (ring_of m)"
proof (intro exI conjI)
  let ?m' = "(written (lm_index m) r m)\<lparr>lm_index := next_line (lm_index m)\<rparr>"
  have "T(t := Idle) = T" using assms(2) by auto
  then show "run_schedule (replicate (copy_steps r) t @ [t, t]) (T(t := call_log r m), m) = Some (T, ?m')"
    using copied_alone [OF assms(1), of "lm_index m" r t T] assms(1)
    by (simp add: run_schedule_append call_log_def sized_def next_line_def del: replicate_Suc)
  show "ring_of ?m' = put_line r (ring_of m)"
    using ring_of_written [OF assms(3), of "lm_index m" m] by (simp add: ring_of_def put_line_def next_line_def)
qed

section \<open>Two calls that overlap\<close>

text \<open>A task that called with the index at \<open>i\<close> and has read, or will read, one of \<open>V\<close>.\<close>

fun called_at :: "nat \<Rightarrow> nat set \<Rightarrow> log_task \<Rightarrow> bool" where
  "called_at i V Idle = False"
| "called_at i V (Copying l k cs) = (l = i)"
| "called_at i V Copied = True"
| "called_at i V (Bumping v) = (v \<in> V)"

lemma called_at_mono: "called_at i V x \<Longrightarrow> V \<subseteq> W \<Longrightarrow> called_at i W x"
  by (cases x) auto

text \<open>Two such tasks and the index: before either has stored it, after one has, and after both have.\<close>

definition both_called :: "nat \<Rightarrow> log_task \<Rightarrow> log_task \<Rightarrow> nat \<Rightarrow> bool" where
  "both_called i x y n \<longleftrightarrow>
     called_at i {i} x \<and> called_at i {i} y \<and> n = i \<or>
     x = Idle \<and> called_at i {i, next_line i} y \<and> n = next_line i \<or>
     y = Idle \<and> called_at i {i, next_line i} x \<and> n = next_line i \<or>
     x = Idle \<and> y = Idle \<and> n \<in> {next_line i, next_line (next_line i)}"

lemma both_called_sym: "both_called i x y n \<longleftrightarrow> both_called i y x n"
  by (auto simp: both_called_def)

lemma both_called_step:
  assumes "both_called i x y (lm_index m)" and "task_step x m = Some (x', m')"
  shows "both_called i x' y (lm_index m')"
proof (cases x)
  case (Copying l k cs)
  then show ?thesis using assms by (cases cs) (auto simp: both_called_def)
next
  case (Bumping v)
  then show ?thesis using assms called_at_mono [of i "{i}" y "{i, next_line i}"]
    by (auto simp: both_called_def next_line_def)
qed (use assms in \<open>auto simp: both_called_def\<close>)

lemma both_called_writes:
  assumes "both_called i x y (lm_index m)" and "task_step x m = Some (x', m')" and "j \<noteq> i"
  shows "lm_bytes m' ! j = lm_bytes m ! j"
proof (cases x)
  case (Copying l k cs)
  then have "l = i" using assms(1) by (auto simp: both_called_def)
  then show ?thesis using assms Copying by (cases cs) auto
qed (use assms in auto)

definition overlap :: "nat \<Rightarrow> nat \<Rightarrow> nat \<Rightarrow> race \<Rightarrow> bool" where
  "overlap a b i s \<longleftrightarrow> both_called i (fst s a) (fst s b) (lm_index (snd s)) \<and> (\<forall>t. t \<noteq> a \<and> t \<noteq> b \<longrightarrow> fst s t = Idle)"

lemma overlap_step:
  assumes "overlap a b i (T, m)" and "task_step (T t) m = Some (x, m')" and "a \<noteq> b"
  shows "overlap a b i (T(t := x), m')" and "j \<noteq> i \<Longrightarrow> lm_bytes m' ! j = lm_bytes m ! j"
proof -
  have "t = a \<or> t = b" using assms(1,2) by (cases "T t = Idle") (auto simp: overlap_def)
  then show "overlap a b i (T(t := x), m')" and "j \<noteq> i \<Longrightarrow> lm_bytes m' ! j = lm_bytes m ! j"
    using assms both_called_step both_called_writes both_called_sym unfolding overlap_def
    by (auto, blast+)
qed

lemma overlap_run:
  "run_schedule ts s = Some s' \<Longrightarrow> a \<noteq> b \<Longrightarrow> overlap a b i s \<Longrightarrow>
     overlap a b i s' \<and> (\<forall>j. j \<noteq> i \<longrightarrow> lm_bytes (snd s') ! j = lm_bytes (snd s) ! j)"
proof (induction ts s rule: run_schedule.induct)
  case (2 t ts T m)
  then show ?case using overlap_step [of a b i T m t]
    by (auto split: option.splits prod.splits)
qed simp

lemma overlap_calls: "a \<noteq> b \<Longrightarrow> overlap a b (lm_index m) ((\<lambda>_. Idle)(a := call_log x m, b := call_log y m), m)"
  by (simp add: overlap_def both_called_def call_log_def)

text \<open>Both lines are copied before either task goes on.\<close>

lemma both_copied:
  assumes "a \<noteq> b" and "sized m"
  shows "run_schedule (replicate (copy_steps x) a @ replicate (copy_steps y) b)
      ((\<lambda>_. Idle)(a := call_log x m, b := call_log y m), m) =
    Some ((\<lambda>_. Idle)(a := Copied, b := Copied), written (lm_index m) y (written (lm_index m) x m))"
proof -
  let ?i = "lm_index m" and ?I = "\<lambda>_. Idle"
  let ?b = "Copying ?i 0 (take (LOG_LINE_MAX_LEN - 1) y @ [NUL])"
  have i: "?i < LOG_BUFFER_SIZE" using assms(2) by (simp add: sized_def)
  have "run_schedule (replicate (copy_steps x) a) (?I(b := ?b, a := call_log x m), m) =
      Some (?I(b := ?b, a := Copied), written ?i x m)"
    using copied_alone [OF assms(2) i] by (simp add: call_log_def)
  moreover have "run_schedule (replicate (copy_steps y) b) (?I(a := Copied, b := ?b), written ?i x m) =
      Some (?I(a := Copied, b := Copied), written ?i y (written ?i x m))"
    using copied_alone [OF sized_written [OF assms(2) i] i] by simp
  ultimately show ?thesis
    using assms(1) by (simp add: run_schedule_append call_log_def fun_upd_twist [of a b] del: fun_upd_apply)
qed

lemma finish_together:
  "a \<noteq> b \<Longrightarrow> run_schedule [a, b, a, b] ((\<lambda>_. Idle)(a := Copied, b := Copied), m) =
     Some (\<lambda>_. Idle, m\<lparr>lm_index := next_line (lm_index m)\<rparr>)"
  by (simp add: next_line_def fun_eq_iff)

lemma finish_in_turn:
  "a \<noteq> b \<Longrightarrow> run_schedule [a, a, b, b] ((\<lambda>_. Idle)(a := Copied, b := Copied), m) =
     Some (\<lambda>_. Idle, m\<lparr>lm_index := next_line (next_line (lm_index m))\<rparr>)"
  by (simp add: next_line_def fun_eq_iff)

lemma ring_of_written_twice:
  assumes "is_cstr x" and "is_cstr y"
  shows "ring_of ((written i y (written i x m))\<lparr>lm_index := n\<rparr>) =
     \<lparr>log_buffer = (log_buffer (ring_of m))[i := take (LOG_LINE_MAX_LEN - 1) y], log_index = n\<rparr>"
  using ring_of_written [OF assms(1), of i m] ring_of_written [OF assms(2), of i "written i x m"]
  by (simp add: ring_of_def)

text \<open>An index moved once more turns the log shown.\<close>

lemma chronological_skip:
  assumes "log_wf l"
  shows "chronological (l\<lparr>log_index := next_line (log_index l)\<rparr>) = rotate1 (chronological l)"
proof -
  have i: "log_index l < length (log_buffer l)" and n: "length (log_buffer l) = LOG_BUFFER_SIZE"
    using assms by (simp_all add: log_wf_def)
  have "drop (log_index l) (log_buffer l) = log_buffer l ! log_index l # drop (Suc (log_index l)) (log_buffer l)"
    using Cons_nth_drop_Suc [OF i] by simp
  then show ?thesis
    using i n take_Suc_conv_app_nth [OF i] by (cases "Suc (log_index l) = LOG_BUFFER_SIZE")
      (auto simp: chronological_def next_line_def)
qed

section \<open>What the missing lock costs\<close>

text \<open>C29: However the tasks interleave, no access leaves the arrays: the index stays below
  \<open>LOG_BUFFER_SIZE\<close>, a task that copies writes inside its line, and a reader of any line finds its NUL
  inside the line.\<close>

theorem log_race_in_bounds:
  assumes "race_step\<^sup>*\<^sup>* (\<lambda>_. Idle, log_mem_init) (T, m)"
  shows "log_wf (ring_of m) \<and> (\<forall>l \<in> set (lm_bytes m). length l = LOG_LINE_MAX_LEN \<and> NUL \<in> set l) \<and>
    (\<forall>t i k c cs. T t = Copying i k (c # cs) \<longrightarrow> i < LOG_BUFFER_SIZE \<and> k < LOG_LINE_MAX_LEN)"
proof -
  have inv: "race_inv (T, m)" using race_reachable_inv [OF assms race_inv_init] .
  then have "\<And>t. task_ok (T t)" by (simp add: race_inv_def)
  then have "\<forall>t i k c cs. T t = Copying i k (c # cs) \<longrightarrow> i < LOG_BUFFER_SIZE \<and> k < LOG_LINE_MAX_LEN"
    by (metis add_Suc_right le_add1 le_less_trans less_Suc_eq_le list.size(4) not_less_eq_eq task_ok.simps(1) less_le_trans)
  moreover have "\<forall>l \<in> set (lm_bytes m). NUL \<in> set l"
    using inv line_ok_NUL by (simp add: race_inv_def list_all_iff)
  ultimately show ?thesis using inv ring_of_wf [OF inv] race_inv_sized [OF inv] by (auto simp: sized_def)
qed

theorem log_race_in_bounds_witness:
  "log_wf (ring_of (snd ((\<lambda>_::nat. Idle)(0 := call_log ''up'' log_mem_init), log_mem_init)))"
proof -
  have "race_step\<^sup>*\<^sup>* (\<lambda>_. Idle, log_mem_init) ((\<lambda>_. Idle)(0 := call_log ''up'' log_mem_init), log_mem_init)"
    using call_it [of "\<lambda>_. Idle" 0 "''up''" log_mem_init] by (simp add: r_into_rtranclp)
  from log_race_in_bounds [OF this] show ?thesis by simp
qed

text \<open>Two calls whose lines start at the same index keep only one line: on every schedule that lets
  both return, all other lines are as before, and the index is one or two further.\<close>

theorem overlapping_calls_share_a_line:
  assumes "a \<noteq> b" and "race_inv (\<lambda>_. Idle, m)"
    and "run_schedule ts ((\<lambda>_. Idle)(a := call_log x m, b := call_log y m), m) = Some (T, m')"
    and "T a = Idle" and "T b = Idle"
  shows "\<exists>z. log_buffer (ring_of m') = (log_buffer (ring_of m))[lm_index m := z] \<and>
    log_index (ring_of m') \<in> {next_line (lm_index m), next_line (next_line (lm_index m))}"
proof -
  let ?s = "((\<lambda>_. Idle)(a := call_log x m, b := call_log y m), m)"
  have "race_inv ?s" using assms(2) call_log_ok [OF assms(2)] by (simp add: race_inv_def)
  from race_reachable_inv [OF run_schedule_steps [OF assms(3)] this]
  have "length (lm_bytes m') = length (lm_bytes m)" using assms(2) by (simp add: race_inv_def)
  moreover have over: "overlap a b (lm_index m) (T, m')" and "\<forall>j. j \<noteq> lm_index m \<longrightarrow> lm_bytes m' ! j = lm_bytes m ! j"
    using overlap_run [OF assms(3,1) overlap_calls [OF assms(1)]] by simp_all
  moreover have "lm_index m < length (lm_bytes m)" using assms(2) by (simp add: race_inv_def)
  ultimately have "lm_bytes m' = (lm_bytes m)[lm_index m := lm_bytes m' ! lm_index m]"
    by - (rule nth_equalityI, simp_all add: nth_list_update)
  then have "log_buffer (ring_of m') = (log_buffer (ring_of m))[lm_index m := cstr (lm_bytes m' ! lm_index m)]"
    unfolding ring_of_def by (simp add: map_update [symmetric])
  moreover have "lm_index m' \<in> {next_line (lm_index m), next_line (next_line (lm_index m))}"
    using over assms(4,5) by (auto simp: overlap_def both_called_def)
  ultimately show ?thesis by (auto simp: ring_of_def)
qed

theorem overlapping_calls_share_a_line_witness:
  "\<exists>ts T m' z. run_schedule ts ((\<lambda>_. Idle)(0 := call_log ''up'' log_mem_init, 1 := call_log ''down'' log_mem_init), log_mem_init) = Some (T, m') \<and>
    log_buffer (ring_of m') = (log_buffer log_init)[0 := z]"
proof -
  let ?s = "((\<lambda>_. Idle)(0 := call_log ''up'' log_mem_init, 1 := call_log ''down'' log_mem_init), log_mem_init)"
  let ?A = "replicate (copy_steps ''up'') 0 @ replicate (copy_steps ''down'') 1"
  let ?m = "(written 0 ''down'' (written 0 ''up'' log_mem_init))\<lparr>lm_index := next_line 0\<rparr>"
  have zero: "lm_index log_mem_init = 0" by (simp add: log_mem_init_def)
  have run: "run_schedule (?A @ [0, 1, 0, 1]) ?s = Some (\<lambda>_. Idle, ?m)"
    unfolding run_schedule_append [of ?A] both_copied [OF zero_neq_one race_inv_sized [OF race_inv_init]]
    using finish_together [of 0 1] by (simp add: zero)
  show ?thesis
    using overlapping_calls_share_a_line [OF zero_neq_one race_inv_init run refl refl] run
    unfolding ring_of_init zero by blast
qed

text \<open>C30: And a line can be lost: from every state two tasks that log \<open>x\<close> and \<open>y\<close> have a schedule that ends
  as if only \<open>y\<close> had been logged, and one that does so and moves the index by two, so that the log is shown
  with its oldest line after \<open>y\<close>, as the newest.\<close>

theorem log_line_can_be_lost:
  assumes "a \<noteq> b" and "race_inv (\<lambda>_. Idle, m)" and "is_cstr x" and "is_cstr y"
  shows "(\<exists>ts m'. run_schedule ts ((\<lambda>_. Idle)(a := call_log x m, b := call_log y m), m) = Some (\<lambda>_. Idle, m') \<and>
      ring_of m' = put_line y (ring_of m)) \<and>
    (\<exists>ts m'. run_schedule ts ((\<lambda>_. Idle)(a := call_log x m, b := call_log y m), m) = Some (\<lambda>_. Idle, m') \<and>
      chronological (ring_of m') = rotate1 (chronological (put_line y (ring_of m))))"
proof -
  let ?i = "lm_index m" and ?m = "written (lm_index m) y (written (lm_index m) x m)"
  note copied = both_copied [OF assms(1) race_inv_sized [OF assms(2)], of x y]
  note ring = ring_of_written_twice [OF assms(3,4), where i = ?i and m = m]
  have "run_schedule ((replicate (copy_steps x) a @ replicate (copy_steps y) b) @ [a, b, a, b])
      ((\<lambda>_. Idle)(a := call_log x m, b := call_log y m), m) = Some (\<lambda>_. Idle, ?m\<lparr>lm_index := next_line ?i\<rparr>)"
    unfolding run_schedule_append [of _ "[a, b, a, b]"] copied using finish_together [OF assms(1)] by simp
  moreover have "ring_of (?m\<lparr>lm_index := next_line ?i\<rparr>) = put_line y (ring_of m)"
    using ring by (simp add: ring_of_def put_line_def next_line_def)
  moreover have "run_schedule ((replicate (copy_steps x) a @ replicate (copy_steps y) b) @ [a, a, b, b])
      ((\<lambda>_. Idle)(a := call_log x m, b := call_log y m), m) = Some (\<lambda>_. Idle, ?m\<lparr>lm_index := next_line (next_line ?i)\<rparr>)"
    unfolding run_schedule_append [of _ "[a, a, b, b]"] copied using finish_in_turn [OF assms(1)] by simp
  moreover have "ring_of (?m\<lparr>lm_index := next_line (next_line ?i)\<rparr>) =
      (put_line y (ring_of m))\<lparr>log_index := next_line (log_index (put_line y (ring_of m)))\<rparr>"
    using ring by (simp add: ring_of_def put_line_def next_line_def)
  then have "chronological (ring_of (?m\<lparr>lm_index := next_line (next_line ?i)\<rparr>)) = rotate1 (chronological (put_line y (ring_of m)))"
    using chronological_skip [OF log_wf_put_line [OF ring_of_wf [OF assms(2)]]] by simp
  ultimately show ?thesis by blast
qed

theorem log_line_can_be_lost_witness:
  "\<exists>ts m'. run_schedule ts ((\<lambda>_. Idle)(0 := call_log ''up'' log_mem_init, 1 := call_log ''down'' log_mem_init), log_mem_init) =
    Some (\<lambda>_. Idle, m') \<and> ring_of m' = put_line ''down'' log_init"
  using log_line_can_be_lost [OF _ race_inv_init, of 0 1 "''up''" "''down''"] by (simp add: ring_of_init)

end
