(* ===== verification/Interleave.thy ===== *)
theory Interleave
  imports Prelude
begin

text \<open>
  One task that reads shared tables while another changes them. The reader is a tree of reads, each of the
  memory as it is at that moment; the writer is the list of its stores in program order. Single reads and
  stores are indivisible, nothing else is.

  The locale \<open>published\<close> is the contract under which a lookup that runs through a table sees a change of
  one slot as if it had happened at once.
\<close>

section \<open>Readers and stores\<close>

datatype ('s, 'r) reader = Done 'r | Read "'s \<Rightarrow> ('s, 'r) reader"

text \<open>The reader undisturbed, and one reader after another.\<close>

primrec alone :: "('s, 'r) reader \<Rightarrow> 's \<Rightarrow> 'r" where
  "alone (Done r) s = r"
| "alone (Read f) s = alone (f s) s"

primrec and_then :: "('s, 'r) reader \<Rightarrow> ('r \<Rightarrow> ('s, 'q) reader) \<Rightarrow> ('s, 'q) reader" where
  "and_then (Done r) k = k r"
| "and_then (Read f) k = Read (\<lambda>s. and_then (f s) k)"

type_synonym 's stores = "('s \<Rightarrow> 's) list"

definition stored :: "'s stores \<Rightarrow> 's \<Rightarrow> 's" where
  "stored ws s = fold (\<lambda>w. w) ws s"

text \<open>
  The reader ends with \<open>r\<close> having met some of the stores; \<open>ws'\<close> are still to come in memory \<open>s'\<close>.
\<close>

inductive meets :: "'s stores \<Rightarrow> 's \<Rightarrow> ('s, 'r) reader \<Rightarrow> 's stores \<Rightarrow> 's \<Rightarrow> 'r \<Rightarrow> bool" where
  answer: "meets ws s (Done r) ws s r"
| read: "meets ws s (f s) ws' s' r \<Longrightarrow> meets ws s (Read f) ws' s' r"
| store: "meets ws (w s) rd ws' s' r \<Longrightarrow> meets (w # ws) s rd ws' s' r"

inductive_cases meets_DoneE: "meets ws s (Done r) ws' s' x"
inductive_cases meets_ReadE: "meets ws s (Read f) ws' s' x"

definition passes :: "'s stores \<Rightarrow> 's \<Rightarrow> 's stores \<Rightarrow> 's \<Rightarrow> bool" where
  "passes ws s ws' s' \<longleftrightarrow> (\<exists>us. ws = us @ ws' \<and> s' = stored us s)"

lemma stored_simps [simp]: "stored [] s = s" "stored (w # ws) s = stored ws (w s)"
  "stored (ws @ us) s = stored us (stored ws s)"
  by (simp_all add: stored_def)

lemma passes_refl [simp]: "passes ws s ws s"
  by (auto simp: passes_def)

lemma passes_trans: "passes ws s ws' s' \<Longrightarrow> passes ws' s' ws'' s'' \<Longrightarrow> passes ws s ws'' s''"
proof -
  assume "passes ws s ws' s'" and "passes ws' s' ws'' s''"
  then obtain us vs where "ws = us @ ws'" "s' = stored us s" "ws' = vs @ ws''" "s'' = stored vs s'"
    by (auto simp: passes_def)
  then have "ws = (us @ vs) @ ws'' \<and> s'' = stored (us @ vs) s" by simp
  then show ?thesis unfolding passes_def by blast
qed

lemma passes_store: "passes (w # ws) s ws' s' \<longleftrightarrow> ws' = w # ws \<and> s' = s \<or> passes ws (w s) ws' s'"
  by (auto simp: passes_def Cons_eq_append_conv)

lemma passes_Nil: "passes [] s ws' s' \<longleftrightarrow> ws' = [] \<and> s' = s"
  by (auto simp: passes_def)

lemma passes_stored: "passes ws s ws' s' \<Longrightarrow> stored ws' s' = stored ws s"
  by (auto simp: passes_def)

lemma passes_all: "passes ws s [] (stored ws s)"
  by (auto simp: passes_def)

lemma meets_passes: "meets ws s rd ws' s' r \<Longrightarrow> passes ws s ws' s'"
  by (induction rule: meets.induct) (auto simp: passes_store)

lemma meets_later: "passes ws s ws' s' \<Longrightarrow> meets ws' s' rd ws'' s'' r \<Longrightarrow> meets ws s rd ws'' s'' r"
proof (induction ws arbitrary: s)
  case (Cons w ws)
  then show ?case by (auto simp: passes_store intro: meets.store)
qed (simp add: passes_Nil)

lemma meets_alone: "meets ws s rd ws s (alone rd s)"
  by (induction rd) (auto intro: meets.intros)

text \<open>Any moment between two stores will do for a lookup.\<close>

lemma meets_at: "passes ws s ws' s' \<Longrightarrow> meets ws s rd ws' s' (alone rd s')"
  using meets_later meets_alone by fast

lemma meets_cases:
  "meets ws s rd ws' s' x \<Longrightarrow>
     (case rd of Done r \<Rightarrow> x = r | Read f \<Rightarrow> \<exists>us t. passes ws s us t \<and> meets us t (f t) ws' s' x)"
proof (induction rule: meets.induct)
  case (read ws s f ws' s' r)
  then have "passes ws s ws s \<and> meets ws s (f s) ws' s' r" by simp
  then show ?case unfolding reader.case by blast
next
  case (store ws w s rd ws' s' r)
  then show ?case by (cases rd) (auto simp: passes_store)
qed simp

lemma meets_Done: "meets ws s (Done r) ws' s' x \<Longrightarrow> x = r"
  by (drule meets_cases) simp

lemma meets_Read: "meets ws s (Read f) ws' s' x \<Longrightarrow> \<exists>us t. passes ws s us t \<and> meets us t (f t) ws' s' x"
  by (drule meets_cases) simp

lemma meets_Read_const:
  "meets ws s (Read f) ws' s' x \<Longrightarrow> (\<And>us t. passes ws s us t \<Longrightarrow> f t = rd) \<Longrightarrow> meets ws s rd ws' s' x"
  by (metis meets_Read meets_later)

lemma meets_and_then:
  "meets ws s (and_then rd k) ws' s' r \<Longrightarrow> \<exists>us t x. meets ws s rd us t x \<and> meets us t (k x) ws' s' r"
proof (induction rd arbitrary: ws s)
  case (Done r)
  then show ?case using meets.answer by fastforce
next
  case (Read f)
  then obtain us t where "passes ws s us t" and "meets us t (and_then (f t) k) ws' s' r"
    by (auto dest: meets_Read)
  with Read.IH [of "f t" us t] show ?case by (meson meets.read meets_later rangeI)
qed

lemma alone_and_then: "alone (and_then rd k) s = alone (k (alone rd s)) s"
  by (induction rd) auto

section \<open>Reading what does not change\<close>

primrec reads_only :: "('s \<Rightarrow> 'v) \<Rightarrow> ('s, 'r) reader \<Rightarrow> bool" where
  "reads_only g (Done r) = True"
| "reads_only g (Read f) = ((\<forall>s t. g s = g t \<longrightarrow> f s = f t) \<and> (\<forall>s. reads_only g (f s)))"

definition keeps_view :: "('s \<Rightarrow> 'v) \<Rightarrow> 's stores \<Rightarrow> 's \<Rightarrow> bool" where
  "keeps_view g ws s \<longleftrightarrow> (\<forall>us t. passes ws s us t \<longrightarrow> g t = g s)"

lemma keeps_view_Nil [simp]: "keeps_view g [] s"
  by (simp add: keeps_view_def passes_Nil)

lemma keeps_view_later: "keeps_view g ws s \<Longrightarrow> passes ws s us t \<Longrightarrow> keeps_view g us t \<and> g t = g s"
proof -
  assume all: "keeps_view g ws s" and here: "passes ws s us t"
  have "g t' = g s" if "passes us t us' t'" for us' t'
    using all passes_trans [OF here that] by (simp add: keeps_view_def)
  moreover have "g t = g s" using all here by (simp add: keeps_view_def)
  ultimately show ?thesis by (simp add: keeps_view_def)
qed

lemma keeps_view_Cons [simp]: "keeps_view g (w # ws) s \<longleftrightarrow> g (w s) = g s \<and> keeps_view g ws (w s)"
proof
  have "passes (w # ws) s ws (w s)" by (simp add: passes_store)
  then show "keeps_view g (w # ws) s \<Longrightarrow> g (w s) = g s \<and> keeps_view g ws (w s)"
    using keeps_view_later [of g "w # ws" s ws "w s"] by simp
qed (auto simp: keeps_view_def passes_store)

lemma reads_only_cont: "reads_only g (Read f) \<Longrightarrow> reads_only g (f s)"
  unfolding reads_only.simps by blast

lemma reads_only_same: "reads_only g (Read f) \<Longrightarrow> g s = g t \<Longrightarrow> f s = f t"
  unfolding reads_only.simps by blast

declare reads_only.simps(2) [simp del]

lemma reads_everything: "reads_only (\<lambda>s. s) rd"
  by (induction rd) (auto simp: reads_only.simps)

lemma alone_view: "reads_only g rd \<Longrightarrow> g s = g t \<Longrightarrow> alone rd s = alone rd t"
proof (induction rd)
  case (Read f)
  have "alone (f s) s = alone (f s) t"
    by (rule Read.IH [OF rangeI reads_only_cont [OF Read.prems(1)] Read.prems(2)])
  then show ?case using reads_only_same [OF Read.prems] by simp
qed simp

lemma undisturbed:
  "meets ws s rd ws' s' r \<Longrightarrow> reads_only g rd \<Longrightarrow> keeps_view g ws s \<Longrightarrow> r = alone rd s"
proof (induction rule: meets.induct)
  case (read ws s f ws' s' r)
  have "r = alone (f s) s" by (rule read.IH [OF reads_only_cont [OF read.prems(1)] read.prems(2)])
  then show ?case by simp
next
  case (store ws w s rd ws' s' r)
  then show ?case using alone_view [of g rd "w s" s] by simp
qed simp

section \<open>Lookups in a table\<close>

text \<open>
  A loop over the slots below a count that is read in every round, \<open>n\<close> at most; the first slot whose probe
  has a result ends it.
\<close>

primrec scan :: "('s \<Rightarrow> nat) \<Rightarrow> (nat \<Rightarrow> ('s, 'r option) reader) \<Rightarrow> ('s, 'r) reader \<Rightarrow> nat \<Rightarrow> nat \<Rightarrow> ('s, 'r) reader" where
  "scan cnt probe rest 0 k = rest"
| "scan cnt probe rest (Suc n) k = Read (\<lambda>s. if k < cnt s
     then and_then (probe k) (\<lambda>x. case x of Some r \<Rightarrow> Done r | None \<Rightarrow> scan cnt probe rest n (Suc k))
     else rest)"

lemma alone_scan_Suc:
  "alone (scan cnt probe rest (Suc n) k) s = (if k < cnt s
     then (case alone (probe k) s of Some r \<Rightarrow> r | None \<Rightarrow> alone (scan cnt probe rest n (Suc k)) s) else alone rest s)"
  by (simp add: alone_and_then split: option.splits)

lemma alone_scan_end: "cnt s \<le> k \<Longrightarrow> alone (scan cnt probe rest n k) s = alone rest s"
  by (cases n) simp_all

text \<open>Undisturbed, the loop is a search for the first hit.\<close>

lemma alone_scan:
  assumes "\<And>j. j < cnt s \<Longrightarrow> alone (probe j) s = (if P (xs ! j) then Some (v (xs ! j)) else None)"
    and "cnt s \<le> length xs" and "cnt s \<le> k + n"
  shows "alone (scan cnt probe rest n k) s =
    (case first_idx P (drop k (take (cnt s) xs)) of None \<Rightarrow> alone rest s | Some i \<Rightarrow> v (xs ! (k + i)))"
  using assms(3)
proof (induction n arbitrary: k)
  case 0
  then show ?case by simp
next
  case (Suc n)
  show ?case
  proof (cases "k < cnt s")
    case True
    then have "drop k (take (cnt s) xs) = xs ! k # drop (Suc k) (take (cnt s) xs)"
      using assms(2) Cons_nth_drop_Suc [of k "take (cnt s) xs"] by simp
    then show ?thesis using True Suc.prems Suc.IH [of "Suc k"] assms(1) [OF True]
      unfolding alone_scan_Suc by (auto split: option.splits)
  qed (simp add: alone_scan_Suc del: scan.simps)
qed

lemma reads_only_and_then: "reads_only g rd \<Longrightarrow> (\<And>x. reads_only g (k x)) \<Longrightarrow> reads_only g (and_then rd k)"
proof (induction rd)
  case (Read f)
  have "reads_only g (and_then (f s) k)" for s
    by (rule Read.IH [OF rangeI reads_only_cont [OF Read.prems(1)] Read.prems(2)])
  moreover have "and_then (f s) k = and_then (f t) k" if "g s = g t" for s t
    using reads_only_same [OF Read.prems(1) that] by simp
  ultimately show ?case unfolding and_then.simps reads_only.simps by blast
qed simp

lemma reads_only_scan:
  assumes "\<And>k. reads_only g (probe k)" and "reads_only g rest" and "\<And>s t. g s = g t \<Longrightarrow> cnt s = cnt t"
  shows "reads_only g (scan cnt probe rest n k)"
proof (induction n arbitrary: k)
  case (Suc n)
  let ?next = "\<lambda>x. case x of Some r \<Rightarrow> Done r | None \<Rightarrow> scan cnt probe rest n (Suc k)"
  have "reads_only g (?next x)" for x using Suc.IH by (simp split: option.split)
  then have "reads_only g (and_then (probe k) ?next)" by (rule reads_only_and_then [OF assms(1)])
  then have "reads_only g (if k < cnt s then and_then (probe k) ?next else rest)" for s using assms(2) by simp
  moreover have "(if k < cnt s then and_then (probe k) ?next else rest) =
      (if k < cnt t then and_then (probe k) ?next else rest)" if "g s = g t" for s t
    using assms(3) [OF that] by simp
  ultimately show ?case unfolding scan.simps reads_only.simps by blast
qed (simp add: assms(2))

text \<open>A loop whose table stays: it is the loop undisturbed, but for what comes after it.\<close>

lemma scan_kept:
  assumes "\<And>k. reads_only g (probe k)" and "\<And>s t. g s = g t \<Longrightarrow> cnt s = cnt t"
  shows "meets ws s (scan cnt probe rest n k) ws' s' r \<Longrightarrow> keeps_view g ws s \<Longrightarrow>
    (\<exists>us t x. passes ws s us t \<and> meets us t rest ws' s' x \<and>
      (\<forall>u. g u = g s \<longrightarrow> alone rest u = x \<longrightarrow> alone (scan cnt probe rest n k) u = r)) \<or>
    (\<forall>u. g u = g s \<longrightarrow> alone (scan cnt probe rest n k) u = r)"
proof (induction n arbitrary: ws s k)
  case 0
  then show ?case by (intro disjI1 exI [of _ ws] exI [of _ s] exI [of _ r]) simp
next
  case (Suc n)
  obtain us t where pass: "passes ws s us t" and here: "meets us t (if k < cnt t
      then and_then (probe k) (\<lambda>x. case x of Some r \<Rightarrow> Done r | None \<Rightarrow> scan cnt probe rest n (Suc k)) else rest) ws' s' r"
    using meets_Read Suc.prems(1) unfolding scan.simps by fast
  note view = keeps_view_later [OF Suc.prems(2) pass]
  show ?case
  proof (cases "k < cnt t")
    case False
    then have "\<not> k < cnt u" if "g u = g s" for u using assms(2) [of u t] that view by simp
    then have "\<forall>u. g u = g s \<longrightarrow> alone rest u = r \<longrightarrow> alone (scan cnt probe rest (Suc n) k) u = r"
      unfolding alone_scan_Suc by simp
    moreover have "passes ws s us t \<and> meets us t rest ws' s' r" using here False pass by simp
    ultimately show ?thesis by blast
  next
    case True
    then obtain vs v x where x: "meets us t (probe k) vs v x"
      and later: "meets vs v (case x of Some r \<Rightarrow> Done r | None \<Rightarrow> scan cnt probe rest n (Suc k)) ws' s' r"
      using meets_and_then here by fastforce
    note pass2 = passes_trans [OF pass meets_passes [OF x]] and view2 = keeps_view_later [OF Suc.prems(2) passes_trans [OF pass meets_passes [OF x]]]
    have "x = alone (probe k) t" using undisturbed [OF x assms(1)] view by blast
    then have same: "k < cnt u \<and> alone (probe k) u = x" if "g u = g s" for u
      using alone_view [OF assms(1), of u t k] assms(2) [of u t] that view True by simp
    show ?thesis
    proof (cases x)
      case (Some a)
      then have "r = a" using later meets_Done by fastforce
      then show ?thesis using same Some unfolding alone_scan_Suc by simp
    next
      case None
      then have "meets vs v (scan cnt probe rest n (Suc k)) ws' s' r" using later by simp
      note IH = Suc.IH [OF this conjunct1 [OF view2]]
      have step: "alone (scan cnt probe rest (Suc n) k) u = alone (scan cnt probe rest n (Suc k)) u" if "g u = g s" for u
        using same [OF that] None unfolding alone_scan_Suc by simp
      from IH show ?thesis
      proof
        assume "\<exists>us t x. passes vs v us t \<and> meets us t rest ws' s' x \<and>
          (\<forall>u. g u = g v \<longrightarrow> alone rest u = x \<longrightarrow> alone (scan cnt probe rest n (Suc k)) u = r)"
        then show ?thesis using step view2 passes_trans [OF pass2] by (metis (no_types, lifting))
      next
        assume "\<forall>u. g u = g v \<longrightarrow> alone (scan cnt probe rest n (Suc k)) u = r"
        then show ?thesis using step view2 by simp
      qed
    qed
  qed
qed

section \<open>Changes that happen at once\<close>

text \<open>
  A writer that changes one slot, below the count or the first above it. Every lookup finds the other slots
  and what comes after the loop as they were, and the slot as it was or as it will be, or empty while
  the count does not cover it.
\<close>

locale published =
  fixes good :: "'s \<Rightarrow> bool"
    and stores :: "'s \<Rightarrow> 's stores"
    and slot :: "'s \<Rightarrow> nat"
    and cnt :: "'s \<Rightarrow> nat"
    and probe :: "nat \<Rightarrow> ('s, 'r option) reader"
    and rest :: "('s, 'r) reader"
  assumes slot_le: "good s0 \<Longrightarrow> slot s0 \<le> cnt s0"
    and cnt_end: "good s0 \<Longrightarrow> cnt (stored (stores s0) s0) = max (cnt s0) (Suc (slot s0))"
    and cnt_between: "good s0 \<Longrightarrow> passes (stores s0) s0 ws s \<Longrightarrow> cnt s \<in> {cnt s0, cnt (stored (stores s0) s0)}"
    and other_slots: "good s0 \<Longrightarrow> passes (stores s0) s0 ws s \<Longrightarrow> k \<noteq> slot s0 \<Longrightarrow> meets ws s (probe k) ws' s' x \<Longrightarrow>
      x = alone (probe k) s0"
    and after_loop: "good s0 \<Longrightarrow> passes (stores s0) s0 ws s \<Longrightarrow> meets ws s rest ws' s' r \<Longrightarrow> r = alone rest s0"
    and the_slot: "good s0 \<Longrightarrow> passes (stores s0) s0 ws s \<Longrightarrow> slot s0 < cnt s \<Longrightarrow> meets ws s (probe (slot s0)) ws' s' x \<Longrightarrow>
      x = alone (probe (slot s0)) (stored (stores s0) s0) \<or>
      slot s0 < cnt s0 \<and> x = alone (probe (slot s0)) s0 \<or> cnt s0 \<le> slot s0 \<and> x = None"
begin

lemma other_slots_end: "good s0 \<Longrightarrow> k \<noteq> slot s0 \<Longrightarrow> alone (probe k) (stored (stores s0) s0) = alone (probe k) s0"
  using other_slots [OF _ passes_all _ meets_alone] by blast

lemma after_loop_end: "good s0 \<Longrightarrow> alone rest (stored (stores s0) s0) = alone rest s0"
  using after_loop [OF _ passes_all meets_alone] by blast

lemma above_slot:
  assumes "good s0"
  shows "slot s0 < k \<Longrightarrow> alone (scan cnt probe rest n k) (stored (stores s0) s0) = alone (scan cnt probe rest n k) s0"
proof (induction n arbitrary: k)
  case 0
  then show ?case using after_loop_end [OF assms] by simp
next
  case (Suc n)
  then have "k < cnt (stored (stores s0) s0) \<longleftrightarrow> k < cnt s0" using cnt_end [OF assms] by auto
  then show ?case
    using Suc.IH [of "Suc k"] Suc.prems other_slots_end [OF assms, of k] after_loop_end [OF assms]
    unfolding alone_scan_Suc by (auto split: option.splits)
qed

theorem at_once:
  assumes good: "good s0"
  shows "passes (stores s0) s0 ws s \<Longrightarrow> meets ws s (scan cnt probe rest n k) ws' s' r \<Longrightarrow>
    r = alone (scan cnt probe rest n k) s0 \<or> r = alone (scan cnt probe rest n k) (stored (stores s0) s0)"
proof (induction n arbitrary: ws s k)
  case 0
  then show ?case using after_loop [OF good] by simp
next
  case (Suc n)
  let ?fin = "stored (stores s0) s0" and ?i = "slot s0"
  obtain us t where pass: "passes ws s us t" and here: "meets us t (if k < cnt t
      then and_then (probe k) (\<lambda>x. case x of Some r \<Rightarrow> Done r | None \<Rightarrow> scan cnt probe rest n (Suc k)) else rest) ws' s' r"
    using meets_Read Suc.prems(2) unfolding scan.simps by fast
  note pass = passes_trans [OF Suc.prems(1) pass]
  show ?case
  proof (cases "k < cnt t")
    case False
    then have "cnt s0 \<le> k" using cnt_between [OF good pass] cnt_end [OF good] by auto
    then show ?thesis using after_loop [OF good pass] here False alone_scan_end by simp
  next
    case True
    then obtain us' t' x where x: "meets us t (probe k) us' t' x"
      and next_slot: "meets us' t' (case x of Some r \<Rightarrow> Done r | None \<Rightarrow> scan cnt probe rest n (Suc k)) ws' s' r"
      using meets_and_then here by fastforce
    have IH: "x = None \<Longrightarrow> r = alone (scan cnt probe rest n (Suc k)) s0 \<or> r = alone (scan cnt probe rest n (Suc k)) ?fin"
      using Suc.IH [OF passes_trans [OF pass meets_passes [OF x]]] next_slot by simp
    have hit: "x = Some v \<Longrightarrow> r = v" for v using next_slot meets_Done by fastforce
    have k: "k < cnt s0 \<or> k = ?i \<and> cnt s0 \<le> ?i" and at_end: "k < cnt ?fin"
      using True cnt_between [OF good pass] cnt_end [OF good] slot_le [OF good] by auto
    show ?thesis
    proof (cases "k = ?i")
      case False
      then have "x = alone (probe k) s0" using other_slots [OF good pass _ x] by simp
      then show ?thesis using IH hit k at_end False other_slots_end [OF good False]
        unfolding alone_scan_Suc by (auto split: option.splits)
    next
      case True
      then have same: "alone (scan cnt probe rest n (Suc k)) ?fin = alone (scan cnt probe rest n (Suc k)) s0"
        using above_slot [OF good] by simp
      have "cnt s0 \<le> k \<Longrightarrow> alone (scan cnt probe rest n (Suc k)) s0 = alone rest s0" by (simp add: alone_scan_end)
      then show ?thesis using the_slot [OF good pass _ x [unfolded True]] True \<open>k < cnt t\<close> IH hit k at_end same
        unfolding alone_scan_Suc by (auto split: option.splits)
    qed
  qed
qed

end

end
