(* ===== verification/Rule_Races.thy ===== *)
theory Rule_Races
  imports Interleave Service_Store
begin

text \<open>
  Frames that are judged while a custom rule is added, updated or removed: the stack's task runs
  \<open>service_is_port_allowed\<close> while the web server's task or the console runs the operation
  (\<open>main/service_filter.c\<close>), and nothing orders their accesses. The operations are the lists of their stores
  to the globals, in the order of the source; the names, which no decision reads, are one store each.
\<close>

section \<open>The decision, read by read\<close>

definition rule_fields :: "byte \<Rightarrow> u16 \<Rightarrow> nat \<Rightarrow> (service_filter, bool option) reader" where
  "rule_fields proto dst_port i =
     Read (\<lambda>s. if cr_port (g_custom_rules s ! i) \<noteq> dst_port then Done None else
     Read (\<lambda>s. if \<not> proto_matches (cr_proto (g_custom_rules s ! i)) proto then Done None else
     Read (\<lambda>s. Done (Some (\<not> cr_blocked (g_custom_rules s ! i))))))"

definition rule_probe :: "byte \<Rightarrow> u16 \<Rightarrow> nat \<Rightarrow> (service_filter, bool option) reader" where
  "rule_probe proto dst_port i =
     Read (\<lambda>s. if \<not> cr_active (g_custom_rules s ! i) then Done None else rule_fields proto dst_port i)"

definition service_probe :: "byte \<Rightarrow> u16 \<Rightarrow> nat \<Rightarrow> (service_filter, bool option) reader" where
  "service_probe proto dst_port i =
     Read (\<lambda>s. if \<not> sr_active (g_services s ! i) then Done None else
     Read (\<lambda>s. if sr_port (g_services s ! i) \<noteq> dst_port then Done None else
     Read (\<lambda>s. if \<not> proto_matches (sr_proto (g_services s ! i)) proto then Done None else
     Read (\<lambda>s. Done (Some (\<not> sr_blocked (g_services s ! i)))))))"

definition builtin_reader :: "byte \<Rightarrow> u16 \<Rightarrow> (service_filter, bool) reader" where
  "builtin_reader proto dst_port = scan (\<lambda>_. BUILTIN_COUNT) (service_probe proto dst_port) (Done True) BUILTIN_COUNT 0"

text \<open>The count never exceeds the array, so that the loop has at most its length rounds.\<close>

definition port_reader :: "byte \<Rightarrow> u16 \<Rightarrow> (service_filter, bool) reader" where
  "port_reader proto dst_port =
     scan g_custom_rule_count (rule_probe proto dst_port) (builtin_reader proto dst_port) MAX_CUSTOM_PORT_RULES 0"

lemma alone_rule_probe: "alone (rule_probe q d i) s =
    (if cr_active (g_custom_rules s ! i) \<and> cr_port (g_custom_rules s ! i) = d \<and> proto_matches (cr_proto (g_custom_rules s ! i)) q
     then Some (\<not> cr_blocked (g_custom_rules s ! i)) else None)"
  by (simp add: rule_probe_def rule_fields_def)

lemma alone_builtin_reader:
  assumes "length (g_services s) = BUILTIN_COUNT"
  shows "alone (builtin_reader q d) s =
    (case first_idx (\<lambda>r. sr_active r \<and> sr_port r = d \<and> proto_matches (sr_proto r) q) (take BUILTIN_COUNT (g_services s)) of
       Some i \<Rightarrow> \<not> sr_blocked (g_services s ! i) | None \<Rightarrow> True)"
  using alone_scan [where cnt = "\<lambda>_. BUILTIN_COUNT" and s = s and k = 0 and n = BUILTIN_COUNT
      and probe = "service_probe q d" and rest = "Done True" and xs = "g_services s" and v = "\<lambda>r. \<not> sr_blocked r"
      and P = "\<lambda>r. sr_active r \<and> sr_port r = d \<and> proto_matches (sr_proto r) q"] assms
  by (simp add: builtin_reader_def service_probe_def split: option.splits)

lemma sf_wf_count: "sf_wf s \<Longrightarrow> g_custom_rule_count s \<le> MAX_CUSTOM_PORT_RULES"
  by (simp add: sf_wf_def scan_down_le)

text \<open>Undisturbed it is the decision of the port filter, whatever the count is below the length of the array.\<close>

lemma alone_port_reader:
  assumes "length (g_services s) = BUILTIN_COUNT" and "length (g_custom_rules s) = MAX_CUSTOM_PORT_RULES"
    and "g_custom_rule_count s \<le> MAX_CUSTOM_PORT_RULES"
  shows "alone (port_reader q d) s = service_is_port_allowed q d s"
proof -
  have "alone (port_reader q d) s = (case first_idx (\<lambda>r. cr_active r \<and> cr_port r = d \<and> proto_matches (cr_proto r) q)
      (take (g_custom_rule_count s) (g_custom_rules s)) of
      None \<Rightarrow> alone (builtin_reader q d) s | Some i \<Rightarrow> \<not> cr_blocked (g_custom_rules s ! i))"
    unfolding port_reader_def
    using alone_scan [where cnt = g_custom_rule_count and s = s and k = 0 and n = MAX_CUSTOM_PORT_RULES
        and probe = "rule_probe q d" and rest = "builtin_reader q d" and xs = "g_custom_rules s" and v = "\<lambda>r. \<not> cr_blocked r"
        and P = "\<lambda>r. cr_active r \<and> cr_port r = d \<and> proto_matches (cr_proto r) q"] assms
    by (simp add: alone_rule_probe split: option.splits)
  then show ?thesis
    by (simp add: service_is_port_allowed_def alone_builtin_reader [OF assms(1)] split: option.splits)
qed

lemma alone_port_reader_wf: "sf_wf s \<Longrightarrow> alone (port_reader q d) s = service_is_port_allowed q d s"
  by (simp add: alone_port_reader sf_wf_services sf_wf_rules sf_wf_count)

lemma rule_probe_view: "reads_only (\<lambda>s. g_custom_rules s ! k) (rule_probe q d k)" "reads_only (\<lambda>s. g_custom_rules s ! k) (rule_fields q d k)"
  by (auto simp: rule_probe_def rule_fields_def reads_only.simps)

lemma service_probe_view: "reads_only g_services (service_probe q d k)"
  by (auto simp: service_probe_def reads_only.simps)

section \<open>The stores of the operations\<close>

definition set_rule :: "nat \<Rightarrow> (custom_port_rule \<Rightarrow> custom_port_rule) \<Rightarrow> service_filter \<Rightarrow> service_filter" where
  "set_rule i f s = s\<lparr>g_custom_rules := (g_custom_rules s)[i := f (g_custom_rules s ! i)]\<rparr>"

definition set_count :: "(service_filter \<Rightarrow> nat) \<Rightarrow> service_filter \<Rightarrow> service_filter" where
  "set_count f s = s\<lparr>g_custom_rule_count := f s\<rparr>"

definition update_stores :: "nat \<Rightarrow> string \<Rightarrow> byte \<Rightarrow> bool \<Rightarrow> service_filter stores" where
  "update_stores i name proto blocked =
     [set_rule i (\<lambda>r. r\<lparr>cr_blocked := blocked\<rparr>),
      set_rule i (\<lambda>r. r\<lparr>cr_proto := proto\<rparr>),
      set_rule i (\<lambda>r. r\<lparr>cr_name := strncpy_z MAX_SERVICE_NAME_LEN name\<rparr>)]"

definition insert_stores :: "nat \<Rightarrow> string \<Rightarrow> u16 \<Rightarrow> byte \<Rightarrow> bool \<Rightarrow> service_filter stores" where
  "insert_stores i name port proto blocked =
     [set_rule i (\<lambda>r. r\<lparr>cr_name := strncpy_z MAX_SERVICE_NAME_LEN name\<rparr>),
      set_rule i (\<lambda>r. r\<lparr>cr_port := port\<rparr>),
      set_rule i (\<lambda>r. r\<lparr>cr_proto := proto\<rparr>),
      set_rule i (\<lambda>r. r\<lparr>cr_blocked := blocked\<rparr>),
      set_rule i (\<lambda>r. r\<lparr>cr_active := True\<rparr>),
      set_count (\<lambda>s. if i + 1 > g_custom_rule_count s then i + 1 else g_custom_rule_count s)]"

definition add_stores :: "string \<Rightarrow> u16 \<Rightarrow> byte \<Rightarrow> bool \<Rightarrow> service_filter \<Rightarrow> service_filter stores" where
  "add_stores name port proto blocked s =
     (if port = 0 then []
      else (case first_idx (same_rule port proto) (take MAX_CUSTOM_PORT_RULES (g_custom_rules s)) of
        Some i \<Rightarrow> update_stores i name proto blocked
      | None \<Rightarrow> (case first_idx (\<lambda>r. \<not> cr_active r) (take MAX_CUSTOM_PORT_RULES (g_custom_rules s)) of
          Some i \<Rightarrow> insert_stores i name port proto blocked
        | None \<Rightarrow> [])))"

text \<open>\<open>memset\<close> clears the structure from its first byte to its last; then the count is computed anew.\<close>

definition remove_stores :: "u16 \<Rightarrow> byte \<Rightarrow> service_filter \<Rightarrow> service_filter stores" where
  "remove_stores port proto s =
     (case first_idx (same_rule port proto) (take MAX_CUSTOM_PORT_RULES (g_custom_rules s)) of
        Some i \<Rightarrow>
          [set_rule i (\<lambda>r. r\<lparr>cr_name := replicate MAX_SERVICE_NAME_LEN NUL\<rparr>),
           set_rule i (\<lambda>r. r\<lparr>cr_port := 0\<rparr>),
           set_rule i (\<lambda>r. r\<lparr>cr_proto := 0\<rparr>),
           set_rule i (\<lambda>r. r\<lparr>cr_blocked := False\<rparr>),
           set_rule i (\<lambda>r. r\<lparr>cr_active := False\<rparr>),
           set_count (\<lambda>_. 0),
           set_count (\<lambda>s. scan_down cr_active (g_custom_rules s) MAX_CUSTOM_PORT_RULES)]
      | None \<Rightarrow> [])"

lemma set_rule_simps [simp]:
  "g_custom_rules (set_rule i f s) = (g_custom_rules s)[i := f (g_custom_rules s ! i)]"
  "g_services (set_rule i f s) = g_services s" "g_custom_rule_count (set_rule i f s) = g_custom_rule_count s"
  "g_custom_rules (set_count h s) = g_custom_rules s" "g_services (set_count h s) = g_services s"
  "g_custom_rule_count (set_count h s) = h s"
  by (simp_all add: set_rule_def set_count_def)

text \<open>All stores together are the operation.\<close>

lemma wf_take: "sf_wf s \<Longrightarrow> take MAX_CUSTOM_PORT_RULES (g_custom_rules s) = g_custom_rules s"
  using sf_wf_rules by simp

lemma rule_rewritten: "(r::custom_port_rule)\<lparr>cr_name := n, cr_port := d, cr_proto := q, cr_blocked := b, cr_active := a\<rparr> =
    \<lparr>cr_name = n, cr_port = d, cr_proto = q, cr_blocked = b, cr_active = a\<rparr>"
  by (cases r) simp

lemma stored_update:
  "i < length (g_custom_rules s) \<Longrightarrow> stored (update_stores i name proto blocked) s =
     s\<lparr>g_custom_rules := (g_custom_rules s)[i := (g_custom_rules s ! i)\<lparr>cr_blocked := blocked,
       cr_proto := proto, cr_name := strncpy_z MAX_SERVICE_NAME_LEN name\<rparr>]\<rparr>"
  by (simp add: update_stores_def set_rule_def)

lemma stored_insert:
  "i < length (g_custom_rules s) \<Longrightarrow> stored (insert_stores i name port proto blocked) s =
     s\<lparr>g_custom_rules := (g_custom_rules s)[i := \<lparr>cr_name = strncpy_z MAX_SERVICE_NAME_LEN name,
       cr_port = port, cr_proto = proto, cr_blocked = blocked, cr_active = True\<rparr>],
       g_custom_rule_count := max (i + 1) (g_custom_rule_count s)\<rparr>"
  by (simp add: insert_stores_def set_rule_def set_count_def max_def rule_rewritten)

lemma stored_add:
  assumes "service_add_custom api (Some name) port proto blocked s p = Inr (ok, s', p')" and wf: "sf_wf s"
  shows "stored (add_stores name port proto blocked s) s = s'"
proof (cases ok)
  case True
  with assms(1) have "service_add_custom api (Some name) port proto blocked s p = Inr (True, s', p')" by simp
  from this wf show ?thesis
  proof (cases rule: service_add_custom_cases)
    case (update nm i)
    then show ?thesis using stored_update [OF first_idx_SomeD(1)] by (simp add: add_stores_def wf_take [OF wf])
  next
    case (insert nm i)
    then show ?thesis using stored_insert [OF first_idx_SomeD(1)] by (simp add: add_stores_def wf_take [OF wf])
  qed
next
  case False
  then have "s' = s"
    using service_add_custom_refused [of api "Some name" port proto blocked s p] assms(1) by simp
  moreover have "add_stores name port proto blocked s = []"
    using False assms(1) unfolding add_stores_def service_add_custom_def
    by (auto simp: Let_def cres_simps split: option.splits if_splits)
  ultimately show ?thesis by simp
qed

lemma stored_remove:
  assumes "service_remove_custom api port proto s p = Inr (ok, s', p')" and wf: "sf_wf s"
  shows "stored (remove_stores port proto s) s = s'"
  using assms
proof (cases rule: service_remove_custom_cases)
  case (removed i)
  then show ?thesis using first_idx_SomeD(1) [OF removed(2)]
    by (simp add: remove_stores_def wf_take [OF wf] set_rule_def set_count_def zero_rule_def rule_rewritten)
qed (simp add: remove_stores_def wf_take [OF wf])

section \<open>What a lookup meets\<close>

lemma rule_probe_meets:
  assumes "meets ws s (rule_probe q d i) ws' s' x"
  shows "\<exists>us t. passes ws s us t \<and> (if cr_active (g_custom_rules t ! i) then meets us t (rule_fields q d i) ws' s' x else x = None)"
proof -
  from assms obtain us t where "passes ws s us t"
    and "meets us t (if \<not> cr_active (g_custom_rules t ! i) then Done None else rule_fields q d i) ws' s' x"
    unfolding rule_probe_def by (meson meets_Read)
  then show ?thesis by (intro exI [of _ us] exI [of _ t]) (auto dest: meets_Done)
qed

lemma builtin_reader_view: "reads_only g_services (builtin_reader q d)"
  unfolding builtin_reader_def by (rule reads_only_scan) (simp_all add: service_probe_view)

lemma probe_kept:
  "meets ws s (rule_probe q d k) ws' s' x \<Longrightarrow> keeps_view (\<lambda>s. g_custom_rules s ! k) ws s \<Longrightarrow> x = alone (rule_probe q d k) s"
  by (rule undisturbed [OF _ rule_probe_view(1)])

lemma builtin_kept:
  "meets ws s (builtin_reader q d) ws' s' r \<Longrightarrow> keeps_view g_services ws s \<Longrightarrow> r = alone (builtin_reader q d) s"
  by (rule undisturbed [OF _ builtin_reader_view])

lemma probe_same: "g_custom_rules s ! k = g_custom_rules t ! k \<Longrightarrow> alone (rule_probe q d k) s = alone (rule_probe q d k) t"
  by (simp add: alone_rule_probe)

lemma builtin_same: "g_services s = g_services t \<Longrightarrow> alone (builtin_reader q d) s = alone (builtin_reader q d) t"
  by (rule alone_view [OF builtin_reader_view])

section \<open>A rule that is added\<close>

definition can_insert :: "nat \<Rightarrow> service_filter \<Rightarrow> bool" where
  "can_insert i s \<longleftrightarrow> sf_wf s \<and> first_idx (\<lambda>r. \<not> cr_active r) (g_custom_rules s) = Some i"

lemma can_insert_slot:
  assumes "can_insert i s"
  shows "i < length (g_custom_rules s)" and "\<not> cr_active (g_custom_rules s ! i)" and "i \<le> g_custom_rule_count s"
proof -
  have first: "first_idx (\<lambda>r. \<not> cr_active r) (g_custom_rules s) = Some i" using assms by (simp add: can_insert_def)
  show "i < length (g_custom_rules s)" and "\<not> cr_active (g_custom_rules s ! i)"
    using first_idx_SomeD(1,2) [OF first] .
  have "cr_active (g_custom_rules s ! j)" if "j < i" for j
    using first_idx_SomeD(3) [OF first that] by simp
  moreover have "\<not> cr_active (g_custom_rules s ! g_custom_rule_count s)" if "g_custom_rule_count s < i"
    using assms scan_down_above [of cr_active "g_custom_rules s" MAX_CUSTOM_PORT_RULES "g_custom_rule_count s"]
      \<open>i < length (g_custom_rules s)\<close> that by (simp add: can_insert_def sf_wf_def)
  ultimately show "i \<le> g_custom_rule_count s" by (meson not_le)
qed

lemma insert_slot:
  assumes "can_insert i s0" and "passes (insert_stores i name port proto b) s0 ws s"
    and "meets ws s (rule_probe q d i) ws' s' x"
  shows "x = None \<or> x = alone (rule_probe q d i) (stored (insert_stores i name port proto b) s0)"
proof -
  obtain us t where "passes ws s us t"
    and x: "if cr_active (g_custom_rules t ! i) then meets us t (rule_fields q d i) ws' s' x else x = None"
    using rule_probe_meets [OF assms(3)] by blast
  then have pass: "passes (insert_stores i name port proto b) s0 us t" using passes_trans [OF assms(2)] by blast
  show ?thesis
  proof (cases "cr_active (g_custom_rules t ! i)")
    case True
    then have view: "keeps_view (\<lambda>s. g_custom_rules s ! i) us t"
      using pass can_insert_slot [OF assms(1)] by (auto simp: insert_stores_def passes_store passes_Nil)
    then have "x = alone (rule_fields q d i) t"
      using x True by (auto intro: undisturbed [OF _ rule_probe_view(2)])
    then have "x = alone (rule_probe q d i) t" using True by (simp add: rule_probe_def)
    moreover have "alone (rule_probe q d i) (stored us t) = alone (rule_probe q d i) t"
      using keeps_view_later [OF view passes_all] by (intro probe_same) simp
    ultimately show ?thesis using passes_stored [OF pass] by simp
  qed (use x in simp)
qed

interpretation adding: published "can_insert i" "\<lambda>_. insert_stores i name port proto b" "\<lambda>_. i"
    g_custom_rule_count "rule_probe q d" "builtin_reader q d" for i name port proto b q d
proof
  fix s0 assume good: "can_insert i s0"
  note slot = can_insert_slot [OF good]
  let ?ws = "insert_stores i name port proto b"
  show "i \<le> g_custom_rule_count s0" by (rule slot(3))
  show "g_custom_rule_count (stored ?ws s0) = max (g_custom_rule_count s0) (Suc i)"
    by (simp add: stored_insert [OF slot(1)])
  fix ws s assume pass: "passes ?ws s0 ws s"
  then show "g_custom_rule_count s \<in> {g_custom_rule_count s0, g_custom_rule_count (stored ?ws s0)}"
    by (auto simp: insert_stores_def passes_store passes_Nil)
  fix ws' s'
  show "x = alone (rule_probe q d k) s0" if "k \<noteq> i" and "meets ws s (rule_probe q d k) ws' s' x" for k x
  proof -
    have "keeps_view (\<lambda>s. g_custom_rules s ! k) ?ws s0" using that(1) by (simp add: insert_stores_def)
    from keeps_view_later [OF this pass] show ?thesis using probe_kept [OF that(2)] probe_same by metis
  qed
  show "r = alone (builtin_reader q d) s0" if "meets ws s (builtin_reader q d) ws' s' r" for r
  proof -
    have "keeps_view g_services ?ws s0" by (simp add: insert_stores_def)
    from keeps_view_later [OF this pass] show ?thesis using builtin_kept [OF that] builtin_same by metis
  qed
  show "x = alone (rule_probe q d i) (stored ?ws s0) \<or> i < g_custom_rule_count s0 \<and> x = alone (rule_probe q d i) s0 \<or>
      g_custom_rule_count s0 \<le> i \<and> x = None" if "meets ws s (rule_probe q d i) ws' s' x" for x
    using insert_slot [OF good pass that] slot(2) by (auto simp: alone_rule_probe not_less)
qed

section \<open>A rule that is updated\<close>

text \<open>As long as the protocol stays, one store decides.\<close>

definition can_update :: "nat \<Rightarrow> byte \<Rightarrow> service_filter \<Rightarrow> bool" where
  "can_update i proto s \<longleftrightarrow> sf_wf s \<and> i < length (g_custom_rules s) \<and> cr_active (g_custom_rules s ! i) \<and>
     cr_proto (g_custom_rules s ! i) = proto"

lemma can_update_slot:
  assumes "can_update i proto s"
  shows "i < g_custom_rule_count s"
  using assms scan_down_above [of cr_active "g_custom_rules s" MAX_CUSTOM_PORT_RULES i]
  by (auto simp: can_update_def sf_wf_def not_le [symmetric])

lemma rule_fields_meets:
  assumes "meets ws s (rule_fields q d i) ws' s' x"
    and "\<And>us t. passes ws s us t \<Longrightarrow> cr_port (g_custom_rules t ! i) = a \<and> cr_proto (g_custom_rules t ! i) = c"
  shows "if a = d \<and> proto_matches c q then \<exists>us t. passes ws s us t \<and> x = Some (\<not> cr_blocked (g_custom_rules t ! i)) else x = None"
proof -
  obtain us1 t1 where p1: "passes ws s us1 t1" and x1: "meets us1 t1 (if cr_port (g_custom_rules t1 ! i) \<noteq> d then Done None else
     Read (\<lambda>s. if \<not> proto_matches (cr_proto (g_custom_rules s ! i)) q then Done None else
     Read (\<lambda>s. Done (Some (\<not> cr_blocked (g_custom_rules s ! i)))))) ws' s' x"
    using assms(1) unfolding rule_fields_def by (meson meets_Read)
  show ?thesis
  proof (cases "a = d")
    case True
    then obtain us2 t2 where "passes us1 t1 us2 t2" and x2: "meets us2 t2 (if \<not> proto_matches (cr_proto (g_custom_rules t2 ! i)) q
        then Done None else Read (\<lambda>s. Done (Some (\<not> cr_blocked (g_custom_rules s ! i))))) ws' s' x"
      using x1 assms(2) [OF p1] by (auto dest: meets_Read)
    then have p2: "passes ws s us2 t2" using passes_trans [OF p1] by blast
    show ?thesis
    proof (cases "proto_matches c q")
      case True
      then obtain us3 t3 where "passes us2 t2 us3 t3" and "x = Some (\<not> cr_blocked (g_custom_rules t3 ! i))"
        using x2 assms(2) [OF p2] by (auto dest!: meets_Read meets_Done)
      then show ?thesis using True \<open>a = d\<close> passes_trans [OF p2] by auto
    qed (use x2 assms(2) [OF p2] in \<open>auto dest: meets_Done\<close>)
  qed (use x1 assms(2) [OF p1] in \<open>auto dest: meets_Done\<close>)
qed

lemma update_slot:
  assumes "can_update i proto s0" and "passes (update_stores i name proto b) s0 ws s"
    and "meets ws s (rule_probe q d i) ws' s' x"
  shows "x = alone (rule_probe q d i) (stored (update_stores i name proto b) s0) \<or> x = alone (rule_probe q d i) s0"
proof -
  let ?r = "g_custom_rules s0 ! i"
  have i: "i < length (g_custom_rules s0)" "cr_active ?r" "cr_proto ?r = proto" using assms(1) by (simp_all add: can_update_def)
  have between: "cr_active (g_custom_rules t ! i) \<and> cr_port (g_custom_rules t ! i) = cr_port ?r \<and>
      cr_proto (g_custom_rules t ! i) = proto \<and> cr_blocked (g_custom_rules t ! i) \<in> {cr_blocked ?r, b}"
    if "passes (update_stores i name proto b) s0 us t" for us t
    using that i by (auto simp: update_stores_def passes_store passes_Nil)
  obtain us t where "passes ws s us t" and x: "if cr_active (g_custom_rules t ! i) then meets us t (rule_fields q d i) ws' s' x else x = None"
    using rule_probe_meets [OF assms(3)] by blast
  then have pass: "passes (update_stores i name proto b) s0 us t" using passes_trans [OF assms(2)] by blast
  have fields: "meets us t (rule_fields q d i) ws' s' x" using x between [OF pass] by simp
  have later: "cr_port (g_custom_rules u ! i) = cr_port ?r \<and> cr_proto (g_custom_rules u ! i) = proto"
    and blocked: "cr_blocked (g_custom_rules u ! i) \<in> {cr_blocked ?r, b}" if "passes us t vs u" for vs u
    using between [OF passes_trans [OF pass that]] by simp_all
  have "if cr_port ?r = d \<and> proto_matches proto q
      then \<exists>vs u. passes us t vs u \<and> x = Some (\<not> cr_blocked (g_custom_rules u ! i)) else x = None"
    by (rule rule_fields_meets [OF fields]) (rule later)
  then show ?thesis using blocked i
    by (auto simp: alone_rule_probe stored_update split: if_splits)
qed

interpretation updating: published "can_update i proto" "\<lambda>_. update_stores i name proto b" "\<lambda>_. i"
    g_custom_rule_count "rule_probe q d" "builtin_reader q d" for i name proto b q d
proof
  fix s0 assume good: "can_update i proto s0"
  note slot = can_update_slot [OF good]
  let ?ws = "update_stores i name proto b"
  show "i \<le> g_custom_rule_count s0" using slot by simp
  show "g_custom_rule_count (stored ?ws s0) = max (g_custom_rule_count s0) (Suc i)"
    using slot by (simp add: update_stores_def)
  fix ws s assume pass: "passes ?ws s0 ws s"
  then show "g_custom_rule_count s \<in> {g_custom_rule_count s0, g_custom_rule_count (stored ?ws s0)}"
    by (auto simp: update_stores_def passes_store passes_Nil)
  fix ws' s'
  show "x = alone (rule_probe q d k) s0" if "k \<noteq> i" and "meets ws s (rule_probe q d k) ws' s' x" for k x
  proof -
    have "keeps_view (\<lambda>s. g_custom_rules s ! k) ?ws s0" using that(1) by (simp add: update_stores_def)
    from keeps_view_later [OF this pass] show ?thesis using probe_kept [OF that(2)] probe_same by metis
  qed
  show "r = alone (builtin_reader q d) s0" if "meets ws s (builtin_reader q d) ws' s' r" for r
  proof -
    have "keeps_view g_services ?ws s0" by (simp add: update_stores_def)
    from keeps_view_later [OF this pass] show ?thesis using builtin_kept [OF that] builtin_same by metis
  qed
  show "x = alone (rule_probe q d i) (stored ?ws s0) \<or> i < g_custom_rule_count s0 \<and> x = alone (rule_probe q d i) s0 \<or>
      g_custom_rule_count s0 \<le> i \<and> x = None" if "meets ws s (rule_probe q d i) ws' s' x" for x
    using update_slot [OF good pass that] slot by auto
qed

section \<open>A service that is blocked or allowed\<close>

definition switch_store :: "service_id \<Rightarrow> bool \<Rightarrow> service_filter stores" where
  "switch_store sid blocked =
     (if BUILTIN_COUNT \<le> service_index sid then []
      else [\<lambda>s. s\<lparr>g_services := (g_services s)[service_index sid := (g_services s ! service_index sid)\<lparr>sr_blocked := blocked\<rparr>]\<rparr>])"

lemma stored_switch:
  "service_set_blocked api sid blocked s p = Inr (s', p') \<Longrightarrow> stored (switch_store sid blocked) s = s'"
  by (auto simp: service_set_blocked_def switch_store_def Let_def cres_simps split: if_splits)

lemma service_probe_meets:
  assumes "meets ws s (service_probe q d i) ws' s' x"
    and "\<And>us t. passes ws s us t \<Longrightarrow> (g_services t ! i)\<lparr>sr_blocked := False\<rparr> = a"
  shows "\<exists>us t. passes ws s us t \<and> x = alone (service_probe q d i) t"
proof -
  have same: "sr_active (g_services t ! i) = sr_active a \<and> sr_port (g_services t ! i) = sr_port a \<and> sr_proto (g_services t ! i) = sr_proto a"
    if "passes ws s us t" for us t using assms(2) [OF that] by auto
  let ?last = "Read (\<lambda>s. Done (Some (\<not> sr_blocked (g_services s ! i))))"
  let ?proto = "if \<not> proto_matches (sr_proto a) q then Done None else ?last"
  let ?port = "if sr_port a \<noteq> d then Done None else ?proto"
  let ?active = "if \<not> sr_active a then Done None else ?port"
  have "meets ws s (if \<not> sr_active a then Done None else Read (\<lambda>s. if sr_port (g_services s ! i) \<noteq> d then Done None else
     Read (\<lambda>s. if \<not> proto_matches (sr_proto (g_services s ! i)) q then Done None else ?last))) ws' s' x"
    by (rule meets_Read_const [OF assms(1) [unfolded service_probe_def]]) (simp add: same)
  then have "meets ws s (if \<not> sr_active a then Done None else if sr_port a \<noteq> d then Done None else
     Read (\<lambda>s. if \<not> proto_matches (sr_proto (g_services s ! i)) q then Done None else ?last)) ws' s' x"
    by (auto simp: same elim: meets_Read_const split: if_splits)
  then have x: "meets ws s ?active ws' s' x"
    by (auto simp: same elim: meets_Read_const split: if_splits)
  show ?thesis
  proof (cases "sr_active a \<and> sr_port a = d \<and> proto_matches (sr_proto a) q")
    case True
    then obtain us t where pass: "passes ws s us t" and "x = Some (\<not> sr_blocked (g_services t ! i))"
      using x by (auto dest!: meets_Read meets_Done)
    then have "x = alone (service_probe q d i) t" using same [OF pass] True by (simp add: service_probe_def)
    then show ?thesis using pass by blast
  next
    case False
    then have "x = None" using x by (auto dest!: meets_Done split: if_splits)
    then have "x = alone (service_probe q d i) s" using same [OF passes_refl] False by (auto simp: service_probe_def)
    then show ?thesis using passes_refl [of ws s] by blast
  qed
qed

lemma one_service_view: "reads_only (\<lambda>s. g_services s ! k) (service_probe q d k)"
  by (auto simp: service_probe_def reads_only.simps)

lemma service_kept:
  "meets ws s (service_probe q d k) ws' s' x \<Longrightarrow> keeps_view (\<lambda>s. g_services s ! k) ws s \<Longrightarrow> x = alone (service_probe q d k) s"
  by (rule undisturbed [OF _ one_service_view])

lemma service_same: "g_services s ! k = g_services t ! k \<Longrightarrow> alone (service_probe q d k) s = alone (service_probe q d k) t"
  by (rule alone_view [OF one_service_view])

definition can_switch :: "service_id \<Rightarrow> service_filter \<Rightarrow> bool" where
  "can_switch sid s \<longleftrightarrow> service_index sid < BUILTIN_COUNT \<and> length (g_services s) = BUILTIN_COUNT"

lemma switch_between:
  assumes "can_switch sid s0" and "passes (switch_store sid b) s0 us t"
  shows "t = s0 \<or> t = stored (switch_store sid b) s0"
    and "(g_services t ! service_index sid)\<lparr>sr_blocked := False\<rparr> = (g_services s0 ! service_index sid)\<lparr>sr_blocked := False\<rparr>"
  using assms by (auto simp: can_switch_def switch_store_def passes_store passes_Nil)

interpretation switching: published "can_switch sid" "\<lambda>_. switch_store sid b" "\<lambda>_. service_index sid"
    "\<lambda>_. BUILTIN_COUNT" "service_probe q d" "Done True" for sid b q d
proof
  fix s0 assume good: "can_switch sid s0"
  let ?ws = "switch_store sid b" and ?i = "service_index sid"
  show "?i \<le> BUILTIN_COUNT" and "BUILTIN_COUNT = max BUILTIN_COUNT (Suc ?i)" using good by (auto simp: can_switch_def)
  fix ws s assume pass: "passes ?ws s0 ws s"
  show "BUILTIN_COUNT \<in> {BUILTIN_COUNT, BUILTIN_COUNT}" by simp
  fix ws' s'
  show "x = alone (service_probe q d k) s0" if "k \<noteq> ?i" and "meets ws s (service_probe q d k) ws' s' x" for k x
  proof -
    have "keeps_view (\<lambda>s. g_services s ! k) ?ws s0" using that(1) by (simp add: switch_store_def)
    from keeps_view_later [OF this pass] show ?thesis using service_kept [OF that(2)] service_same by metis
  qed
  show "r = alone (Done True) s0" if "meets ws s (Done True) ws' s' r" for r using meets_Done [OF that] by simp
  show "x = alone (service_probe q d ?i) (stored ?ws s0) \<or> ?i < BUILTIN_COUNT \<and> x = alone (service_probe q d ?i) s0 \<or>
      BUILTIN_COUNT \<le> ?i \<and> x = None" if "meets ws s (service_probe q d ?i) ws' s' x" for x
  proof -
    have "\<exists>us t. passes ws s us t \<and> x = alone (service_probe q d ?i) t"
      by (rule service_probe_meets [OF that]) (rule switch_between(2) [OF good passes_trans [OF pass]])
    then show ?thesis using switch_between(1) [OF good passes_trans [OF pass]] good by (auto simp: can_switch_def)
  qed
qed

end
