(* ===== verification/Rule_Race_Props.thy ===== *)
theory Rule_Race_Props
  imports Rule_Races
begin

text \<open>
  What a frame can meet while the rules change (theory \<open>Rule_Races\<close>): additions, changes of a flag and
  switches of a service are seen at once; an update that changes the protocol of a rule, and any removal, are
  not.
\<close>

section \<open>What a frame can meet\<close>

text \<open>A table with a rule that blocks port 53 for both protocols, one that allows port 9090, and DNS blocked.\<close>

definition sample_rule :: "string \<Rightarrow> u16 \<Rightarrow> byte \<Rightarrow> bool \<Rightarrow> custom_port_rule" where
  "sample_rule name port proto blocked = \<lparr>cr_name = strncpy_z MAX_SERVICE_NAME_LEN name, cr_port = port, cr_proto = proto,
     cr_blocked = blocked, cr_active = True\<rparr>"

definition race_sample :: service_filter where
  "race_sample = \<lparr>g_services = builtin_services[2 := (builtin_services ! 2)\<lparr>sr_blocked := True\<rparr>],
     g_custom_rules = [sample_rule ''a'' 53 SVC_PROTO_BOTH True, sample_rule ''b'' 9090 SVC_PROTO_TCP False] @ replicate 18 zero_rule,
     g_custom_rule_count = 2\<rparr>"

lemma race_sample_rules: "g_custom_rules race_sample =
    sample_rule ''a'' 53 SVC_PROTO_BOTH True # sample_rule ''b'' 9090 SVC_PROTO_TCP False # replicate 18 zero_rule"
  by (simp add: race_sample_def)

lemma race_sample_count: "g_custom_rule_count race_sample = 2"
  by (simp add: race_sample_def)

lemma race_sample_length: "length (g_custom_rules race_sample) = MAX_CUSTOM_PORT_RULES"
  by (simp add: race_sample_def MAX_CUSTOM_PORT_RULES_def)

lemma race_sample_services: "g_services race_sample = builtin_services[2 := (builtin_services ! 2)\<lparr>sr_blocked := True\<rparr>]"
  by (simp add: race_sample_def)

lemma race_sample_wf: "sf_wf race_sample"
proof -
  have "scan_down cr_active (g_custom_rules race_sample) MAX_CUSTOM_PORT_RULES = 2"
    by (rule scan_down_unique)
      (auto simp: race_sample_rules sample_rule_def zero_rule_def MAX_CUSTOM_PORT_RULES_def nth_Cons split: nat.splits)
  moreover have "rule_wf (sample_rule name port proto blocked)" for name port proto blocked
    by (simp add: sample_rule_def)
  then have "list_all rule_wf (g_custom_rules race_sample)" by (simp add: race_sample_rules list_all_iff)
  moreover have "map (sr_blocked_update (\<lambda>_. False)) (g_services race_sample) = builtin_services"
    by (simp add: race_sample_services builtin_services_def builtin_def)
  ultimately show ?thesis using race_sample_length by (simp add: sf_wf_def race_sample_count)
qed

text \<open>A frame that is judged while a service is switched, on the dashboard or elsewhere, is judged with the
  switch in its old or its new position, and nothing else changes for it.\<close>

theorem service_switch_at_once:
  assumes "sf_wf s" and "service_set_blocked api sid blocked s p = Inr (s', p')"
    and "meets (switch_store sid blocked) s (port_reader q d) ws t r"
  shows "r = service_is_port_allowed q d s \<or> r = service_is_port_allowed q d s'"
proof (cases "service_index sid < BUILTIN_COUNT")
  case True
  then have good: "can_switch sid s" using sf_wf_services [OF assms(1)] by (simp add: can_switch_def)
  let ?g = "\<lambda>s. (g_custom_rules s, g_custom_rule_count s)" and ?fin = "stored (switch_store sid blocked) s"
  have probes: "reads_only ?g (rule_probe q d k)" for k
    by (auto simp: rule_probe_def rule_fields_def reads_only.simps)
  have view: "keeps_view ?g (switch_store sid blocked) s" by (simp add: switch_store_def)
  have ends: "?g ?fin = ?g s" by (simp add: switch_store_def)
  have "r = alone (port_reader q d) s \<or> r = alone (port_reader q d) ?fin"
    using scan_kept [OF probes _ assms(3) [unfolded port_reader_def] view] ends
      switching.at_once [OF good, where b = blocked and q = q and d = d and n = BUILTIN_COUNT and k = 0]
    unfolding port_reader_def builtin_reader_def by (auto; metis)
  then show ?thesis
    using service_set_blocked_wf [OF assms(2,1)] stored_switch [OF assms(2)] by (simp add: alone_port_reader_wf assms(1))
next
  case False
  then have "meets [] s (port_reader q d) ws t r" using assms(3) by (simp add: switch_store_def)
  from undisturbed [OF this, of "\<lambda>s. s"] show ?thesis by (simp add: reads_everything alone_port_reader_wf assms(1))
qed

theorem service_switch_at_once_witness:
  "\<exists>s' p' ws t. service_set_blocked ram_api SVC_SSH True service_boot \<lparr>plog = log_init, pflash = ram_empty\<rparr> = Inr (s', p') \<and>
     meets (switch_store SVC_SSH True) service_boot (port_reader SVC_PROTO_TCP 22) ws t True \<and>
     (True = service_is_port_allowed SVC_PROTO_TCP 22 service_boot \<or> True = service_is_port_allowed SVC_PROTO_TCP 22 s')"
proof -
  obtain s' p' where switch: "service_set_blocked ram_api SVC_SSH True service_boot \<lparr>plog = log_init, pflash = ram_empty\<rparr> = Inr (s', p')"
    using service_set_blocked_defined by blast
  have "alone (port_reader SVC_PROTO_TCP 22) service_boot"
    by (simp add: alone_port_reader_wf sf_wf_boot service_is_port_allowed_def)
      (simp add: service_boot_def builtin_services_def builtin_def svc_protos proto_matches_def)
  then have meet: "meets (switch_store SVC_SSH True) service_boot (port_reader SVC_PROTO_TCP 22) (switch_store SVC_SSH True) service_boot True"
    using meets_at [OF passes_refl] by metis
  show ?thesis using service_switch_at_once [OF sf_wf_boot switch meet] switch meet by blast
qed

text \<open>A frame that is judged while a custom rule is added, or its name or its blocked flag is changed,
  is judged by the rules before or by the rules after: the new rule shows only when it is complete.\<close>

theorem rule_change_at_once:
  assumes "sf_wf s" and "service_add_custom api (Some name) port proto blocked s p = Inr (ok, s', p')"
    and "\<And>i. first_idx (same_rule port proto) (g_custom_rules s) = Some i \<Longrightarrow> cr_proto (g_custom_rules s ! i) = proto"
    and "meets (add_stores name port proto blocked s) s (port_reader q d) ws t r"
  shows "r = service_is_port_allowed q d s \<or> r = service_is_port_allowed q d s'"
proof -
  note final = stored_add [OF assms(2,1)]
  have wf: "sf_wf s'" by (rule service_add_custom_wf [OF assms(2,1)])
  consider (nothing) "add_stores name port proto blocked s = []"
    | (update) i where "add_stores name port proto blocked s = update_stores i name proto blocked" "can_update i proto s"
    | (insert) i where "add_stores name port proto blocked s = insert_stores i name port proto blocked" "can_insert i s"
    using assms(1,3) wf_take [OF assms(1)] first_idx_SomeD(1,2)
    by (fastforce simp: add_stores_def can_update_def can_insert_def same_rule_def split: option.splits if_splits)
  then have "r = alone (port_reader q d) s \<or> r = alone (port_reader q d) s'"
  proof cases
    case nothing
    then show ?thesis using assms(4) undisturbed [of "[]" s "port_reader q d" ws t r "\<lambda>s. s"] final
      by (simp add: reads_everything)
  next
    case update
    then show ?thesis
      using assms(4) final unfolding port_reader_def update(1) by (auto dest!: updating.at_once [OF update(2) passes_refl])
  next
    case insert
    then show ?thesis
      using assms(4) final unfolding port_reader_def insert(1) by (auto dest!: adding.at_once [OF insert(2) passes_refl])
  qed
  then show ?thesis by (simp add: alone_port_reader_wf assms(1) wf)
qed

theorem rule_change_at_once_witness:
  "\<exists>s' p' ws t. service_add_custom ram_api (Some ''web'') 8080 SVC_PROTO_BOTH True service_boot plat0 = Inr (True, s', p') \<and>
     meets (add_stores ''web'' 8080 SVC_PROTO_BOTH True service_boot) service_boot (port_reader SVC_PROTO_TCP 8080) ws t True \<and>
     (True = service_is_port_allowed SVC_PROTO_TCP 8080 service_boot \<or> True = service_is_port_allowed SVC_PROTO_TCP 8080 s')"
proof -
  let ?ws = "add_stores ''web'' 8080 SVC_PROTO_BOTH True service_boot"
  obtain s' p' where add: "service_add_custom ram_api (Some ''web'') 8080 SVC_PROTO_BOTH True service_boot plat0 = Inr (True, s', p')"
    by (rule boot_add [of 8080]) simp
  have "alone (port_reader SVC_PROTO_TCP 8080) service_boot"
    by (simp add: alone_port_reader_wf sf_wf_boot service_is_port_allowed_def)
      (simp add: service_boot_def builtin_services_def builtin_def split: option.split)
  then have meet: "meets ?ws service_boot (port_reader SVC_PROTO_TCP 8080) ?ws service_boot True"
    using meets_at [OF passes_refl] by metis
  have "first_idx (same_rule 8080 SVC_PROTO_BOTH) (g_custom_rules service_boot) = None" by (simp add: service_boot_def)
  then show ?thesis using rule_change_at_once [OF sf_wf_boot add _ meet] add meet by auto
qed

text \<open>C14: An update that narrows a rule for both protocols is not seen at once: the flag is stored before
  the protocol, and in between the rule lets a protocol pass that is refused before and after.\<close>

theorem rule_update_opens:
  assumes "sf_wf s" and "port \<noteq> 0" and "first_idx (same_rule port proto) (g_custom_rules s) = Some i"
    and "first_idx (\<lambda>r. cr_active r \<and> cr_port r = port \<and> proto_matches (cr_proto r) q) (g_custom_rules s) = Some i"
  shows "\<exists>ws t. meets (add_stores name port proto False s) s (port_reader q port) ws t True"
proof -
  let ?t = "set_rule i (\<lambda>r. r\<lparr>cr_blocked := False\<rparr>) s"
  have stores: "add_stores name port proto False s = update_stores i name proto False"
    using assms(2,3) wf_take [OF assms(1)] by (simp add: add_stores_def)
  note i = first_idx_SomeD [OF assms(4)]
  have count: "i < g_custom_rule_count s"
    using can_update_slot [of i "cr_proto (g_custom_rules s ! i)" s] assms(1) i(1,2) by (simp add: can_update_def)
  have "alone (port_reader q port) ?t = service_is_port_allowed q port ?t"
    using assms(1) by (intro alone_port_reader) (simp_all add: sf_wf_services sf_wf_rules sf_wf_count)
  also have "first_idx (\<lambda>r. cr_active r \<and> cr_port r = port \<and> proto_matches (cr_proto r) q)
      (take (g_custom_rule_count ?t) (g_custom_rules ?t)) = Some i"
    using i count by (auto simp: first_idx_take_Some nth_list_update)
  then have "service_is_port_allowed q port ?t" using i(1) by (simp add: service_is_port_allowed_def)
  finally have "alone (port_reader q port) ?t" by simp
  moreover have "passes (update_stores i name proto False) s (tl (update_stores i name proto False)) ?t"
    by (simp add: update_stores_def passes_store)
  ultimately show ?thesis using meets_at stores by metis
qed

theorem rule_update_opens_witness:
  "\<exists>s' p' ws t. \<not> service_is_port_allowed SVC_PROTO_UDP 53 race_sample \<and>
     service_add_custom ram_api (Some ''dns'') 53 SVC_PROTO_TCP False race_sample plat0 = Inr (True, s', p') \<and>
     \<not> service_is_port_allowed SVC_PROTO_UDP 53 s' \<and>
     meets (add_stores ''dns'' 53 SVC_PROTO_TCP False race_sample) race_sample (port_reader SVC_PROTO_UDP 53) ws t True"
proof -
  have i: "first_idx (same_rule 53 SVC_PROTO_TCP) (g_custom_rules race_sample) = Some 0"
    by (simp add: race_sample_rules same_rule_def sample_rule_def svc_protos)
  have j: "first_idx (\<lambda>r. cr_active r \<and> cr_port r = 53 \<and> proto_matches (cr_proto r) SVC_PROTO_UDP) (g_custom_rules race_sample) = Some 0"
    by (simp add: race_sample_rules sample_rule_def svc_protos proto_matches_def)
  obtain s' p' where add: "service_add_custom ram_api (Some ''dns'') 53 SVC_PROTO_TCP False race_sample plat0 = Inr (True, s', p')"
    using add_custom_updates [OF race_sample_wf _ i, of ram_api "''dns''" False plat0] by auto
  have "\<not> service_is_port_allowed SVC_PROTO_UDP 53 race_sample"
    by (simp add: service_is_port_allowed_def race_sample_rules race_sample_count sample_rule_def svc_protos proto_matches_def)
  moreover have "\<not> service_is_port_allowed SVC_PROTO_UDP 53 s'"
  proof -
    have "s' = stored (update_stores 0 ''dns'' SVC_PROTO_TCP False) race_sample"
      using stored_add [OF add race_sample_wf, symmetric] i by (simp add: add_stores_def wf_take [OF race_sample_wf])
    also have "\<dots> = race_sample\<lparr>g_custom_rules := (g_custom_rules race_sample)[0 := sample_rule ''dns'' 53 SVC_PROTO_TCP False]\<rparr>"
      by (simp add: stored_update race_sample_rules sample_rule_def)
    finally show ?thesis
      by (simp add: service_is_port_allowed_def race_sample_rules race_sample_count race_sample_services
        sample_rule_def svc_protos proto_matches_def zero_rule_def builtin_services_def builtin_def first_idx_None)
  qed
  ultimately show ?thesis using add rule_update_opens [OF race_sample_wf _ i j] by auto
qed

text \<open>C6: While any custom rule is removed, the count is 0 until it has been computed anew: a frame judged
  then is judged without any custom rule, whatever port the removed rule was for.\<close>

theorem rule_removal_lifts_all_rules:
  assumes "sf_wf s" and "service_remove_custom api port proto s p = Inr (True, s', p')"
  shows "\<exists>ws t. meets (remove_stores port proto s) s (port_reader q d) ws t
    (service_is_port_allowed q d (s\<lparr>g_custom_rules := [], g_custom_rule_count := 0\<rparr>))"
proof -
  from assms(2,1) obtain i where i: "first_idx (same_rule port proto) (g_custom_rules s) = Some i"
    by (cases rule: service_remove_custom_cases) auto
  define us where "us = take 6 (remove_stores port proto s)"
  define t where "t = stored us s"
  have "remove_stores port proto s = us @ drop 6 (remove_stores port proto s)" by (simp add: us_def)
  then have pass: "passes (remove_stores port proto s) s (drop 6 (remove_stores port proto s)) t"
    unfolding passes_def t_def by blast
  have facts: "g_services t = g_services s" "length (g_custom_rules t) = MAX_CUSTOM_PORT_RULES" "g_custom_rule_count t = 0"
    using i wf_take [OF assms(1)] sf_wf_rules [OF assms(1)] by (simp_all add: t_def us_def remove_stores_def)
  have "alone (port_reader q d) t = service_is_port_allowed q d t"
    using facts sf_wf_services [OF assms(1)] by (intro alone_port_reader) simp_all
  also have "\<dots> = service_is_port_allowed q d (s\<lparr>g_custom_rules := [], g_custom_rule_count := 0\<rparr>)"
    using facts by (simp add: service_is_port_allowed_def split: option.splits)
  finally show ?thesis using meets_at [OF pass, of "port_reader q d"] by auto
qed

theorem rule_removal_lifts_all_rules_witness:
  "\<exists>s' p' ws t. \<not> service_is_port_allowed SVC_PROTO_TCP 53 race_sample \<and>
     service_remove_custom ram_api 9090 SVC_PROTO_TCP race_sample plat0 = Inr (True, s', p') \<and>
     \<not> service_is_port_allowed SVC_PROTO_TCP 53 s' \<and>
     meets (remove_stores 9090 SVC_PROTO_TCP race_sample) race_sample (port_reader SVC_PROTO_TCP 53) ws t True"
proof -
  have i: "first_idx (same_rule 9090 SVC_PROTO_TCP) (g_custom_rules race_sample) = Some 1"
    by (simp add: race_sample_rules same_rule_def sample_rule_def svc_protos)
  obtain s' p' where rm: "service_remove_custom ram_api 9090 SVC_PROTO_TCP race_sample plat0 = Inr (True, s', p')"
    and rules: "g_custom_rules s' = (g_custom_rules race_sample)[1 := zero_rule]" and wf: "sf_wf s'"
    using remove_custom_removes [OF race_sample_wf i] by blast
  have "0 < g_custom_rule_count s'"
    using scan_down_above [of cr_active "g_custom_rules s'" MAX_CUSTOM_PORT_RULES 0] wf
    by (auto simp: sf_wf_def rules race_sample_rules sample_rule_def MAX_CUSTOM_PORT_RULES_def)
  then have "\<not> service_is_port_allowed SVC_PROTO_TCP 53 s'"
    by (cases "g_custom_rule_count s'")
      (simp_all add: service_is_port_allowed_def rules race_sample_rules sample_rule_def svc_protos proto_matches_def)
  moreover have "\<not> service_is_port_allowed SVC_PROTO_TCP 53 race_sample"
    by (simp add: service_is_port_allowed_def race_sample_rules race_sample_count sample_rule_def svc_protos proto_matches_def)
  moreover have "service_is_port_allowed SVC_PROTO_TCP 53 (race_sample\<lparr>g_custom_rules := [], g_custom_rule_count := 0\<rparr>)"
    by (simp add: service_is_port_allowed_def race_sample_services builtin_services_def builtin_def svc_protos proto_matches_def)
  ultimately show ?thesis
    using rm rule_removal_lifts_all_rules [OF race_sample_wf rm, of SVC_PROTO_TCP 53] by auto
qed

end
