(* ===== verification/Table_Races.thy ===== *)
theory Table_Races
  imports Interleave Domain_Props Devices
begin

text \<open>
  Queries that the DNS server's task looks up while the web server's task changes the list of domains
  (\<open>main/domain_filter.c\<close>), and frames whose sender the stack's task looks up while a station joins or its
  status is changed (\<open>main/esp32_nat_router.c\<close>, \<open>main/packet_filter.c\<close>, \<open>main/http_server.c\<close>). A name and a MAC
  address are one store and one read each: they are written only while no lookup can reach them.
\<close>

section \<open>The list of domains\<close>

definition domain_probe :: "string \<Rightarrow> nat \<Rightarrow> (domain_filter, bool option) reader" where
  "domain_probe d i =
     Read (\<lambda>s. if \<not> bd_active (blocked_domains s ! i) then Done None else
     Read (\<lambda>s. Done (if domain_matches d (cstr (bd_domain (blocked_domains s ! i))) then Some True else None)))"

definition domain_reader :: "string \<Rightarrow> (domain_filter, bool) reader" where
  "domain_reader d = (if length d = 0 then Done False
     else scan blocked_domain_count (domain_probe d) (Done False) MAX_BLOCKED_DOMAINS 0)"

lemma alone_domain_probe: "alone (domain_probe d i) s =
    (if bd_active (blocked_domains s ! i) \<and> domain_matches d (cstr (bd_domain (blocked_domains s ! i))) then Some True else None)"
  by (simp add: domain_probe_def)

lemma alone_domain_reader: "domains_wf s \<Longrightarrow> alone (domain_reader d) s = is_domain_blocked (Some d) s"
  using alone_scan [where cnt = blocked_domain_count and s = s and k = 0 and n = MAX_BLOCKED_DOMAINS
      and probe = "domain_probe d" and rest = "Done False" and xs = "blocked_domains s" and v = "\<lambda>_. True"
      and P = "\<lambda>e. bd_active e \<and> domain_matches d (cstr (bd_domain e))"]
  by (simp add: domain_reader_def is_domain_blocked_def alone_domain_probe domains_wf_def split: option.splits)

lemma domain_probe_view: "reads_only (\<lambda>s. blocked_domains s ! k) (domain_probe d k)"
  by (auto simp: domain_probe_def reads_only.simps)

lemma domain_kept: "meets ws s (domain_probe d k) ws' s' x \<Longrightarrow> keeps_view (\<lambda>s. blocked_domains s ! k) ws s \<Longrightarrow> x = alone (domain_probe d k) s"
  by (rule undisturbed [OF _ domain_probe_view])

lemma domain_same: "blocked_domains s ! k = blocked_domains t ! k \<Longrightarrow> alone (domain_probe d k) s = alone (domain_probe d k) t"
  by (simp add: alone_domain_probe)

definition set_domain :: "nat \<Rightarrow> (blocked_domain \<Rightarrow> blocked_domain) \<Rightarrow> domain_filter \<Rightarrow> domain_filter" where
  "set_domain i f s = s\<lparr>blocked_domains := (blocked_domains s)[i := f (blocked_domains s ! i)]\<rparr>"

definition append_stores :: "nat \<Rightarrow> string \<Rightarrow> domain_filter stores" where
  "append_stores i d = [set_domain i (\<lambda>e. e\<lparr>bd_domain := strncpy_z MAX_DOMAIN_LENGTH d\<rparr>),
     set_domain i (\<lambda>e. e\<lparr>bd_active := True\<rparr>),
     \<lambda>s. s\<lparr>blocked_domain_count := blocked_domain_count s + 1\<rparr>]"

definition flag_store :: "nat \<Rightarrow> bool \<Rightarrow> domain_filter stores" where
  "flag_store i b = [set_domain i (\<lambda>e. e\<lparr>bd_active := b\<rparr>)]"

fun domain_stores :: "domain_op \<Rightarrow> domain_filter \<Rightarrow> domain_filter stores" where
  "domain_stores (Block d) s =
     (if length d = 0 \<or> MAX_DOMAIN_LENGTH \<le> length d then []
      else (case find_domain d s of
        Some i \<Rightarrow> flag_store i True
      | None \<Rightarrow> if blocked_domain_count s < MAX_BLOCKED_DOMAINS then append_stores (blocked_domain_count s) d else []))"
| "domain_stores (Unblock d) s =
     (if length d = 0 then [] else (case find_domain d s of Some i \<Rightarrow> flag_store i False | None \<Rightarrow> []))"

lemma set_domain_simps [simp]:
  "blocked_domains (set_domain i f s) = (blocked_domains s)[i := f (blocked_domains s ! i)]"
  "blocked_domain_count (set_domain i f s) = blocked_domain_count s"
  by (simp_all add: set_domain_def)

lemma stored_append: "i < length (blocked_domains s) \<Longrightarrow> stored (append_stores i d) s =
    s\<lparr>blocked_domains := (blocked_domains s)[i := \<lparr>bd_domain = strncpy_z MAX_DOMAIN_LENGTH d, bd_active = True\<rparr>],
      blocked_domain_count := blocked_domain_count s + 1\<rparr>"
  by (cases "blocked_domains s ! i") (simp add: append_stores_def set_domain_def)

lemma stored_domain:
  assumes "domain_step api op (s, p) = Inr (s', p')" and wf: "domains_wf s"
  shows "stored (domain_stores op s) s = s'"
proof (cases op)
  case (Block d)
  then obtain ok where "add_blocked_domain api (Some d) s p = Inr (ok, s', p')" using assms(1) by (auto simp: cres_simps)
  then show ?thesis
  proof (cases rule: add_blocked_domain_cases)
    case (fresh d' p1 p2)
    then show ?thesis using Block domains_wfD(1) [OF wf] by (simp add: stored_append MAX_BLOCKED_DOMAINS_def)
  qed (use Block in \<open>auto simp: flag_store_def set_domain_def split: option.split\<close>)
next
  case (Unblock d)
  then obtain ok where "remove_blocked_domain api (Some d) s p = Inr (ok, s', p')" using assms(1) by (auto simp: cres_simps)
  then show ?thesis
    by (cases rule: remove_blocked_domain_cases) (use Unblock in \<open>auto simp: flag_store_def set_domain_def\<close>)
qed

section \<open>A domain that is appended, and one whose flag changes\<close>

definition can_append :: "nat \<Rightarrow> domain_filter \<Rightarrow> bool" where
  "can_append i s \<longleftrightarrow> i = blocked_domain_count s \<and> i < length (blocked_domains s)"

interpretation appending: published "can_append i" "\<lambda>_. append_stores i name" "\<lambda>_. i"
    blocked_domain_count "domain_probe d" "Done False" for i name d
proof
  fix s0 assume good: "can_append i s0"
  let ?ws = "append_stores i name"
  show "i \<le> blocked_domain_count s0" using good by (simp add: can_append_def)
  show "blocked_domain_count (stored ?ws s0) = max (blocked_domain_count s0) (Suc i)"
    using good by (simp add: can_append_def append_stores_def)
  fix ws s assume pass: "passes ?ws s0 ws s"
  then show "blocked_domain_count s \<in> {blocked_domain_count s0, blocked_domain_count (stored ?ws s0)}"
    by (auto simp: append_stores_def passes_store passes_Nil)
  fix ws' s'
  show "x = alone (domain_probe d k) s0" if "k \<noteq> i" and "meets ws s (domain_probe d k) ws' s' x" for k x
  proof -
    have "keeps_view (\<lambda>s. blocked_domains s ! k) ?ws s0" using that(1) by (simp add: append_stores_def)
    from keeps_view_later [OF this pass] show ?thesis using domain_kept [OF that(2)] domain_same by metis
  qed
  show "r = alone (Done False) s0" if "meets ws s (Done False) ws' s' r" for r using meets_Done [OF that] by simp
  show "x = alone (domain_probe d i) (stored ?ws s0) \<or> i < blocked_domain_count s0 \<and> x = alone (domain_probe d i) s0 \<or>
      blocked_domain_count s0 \<le> i \<and> x = None" if "i < blocked_domain_count s" and "meets ws s (domain_probe d i) ws' s' x" for x
  proof -
    have "ws = [] \<and> s = stored ?ws s0"
      using pass that(1) good by (auto simp: can_append_def append_stores_def passes_store passes_Nil)
    then show ?thesis using domain_kept that(2) by fastforce
  qed
qed

lemma domain_probe_meets:
  assumes "meets ws s (domain_probe d i) ws' s' x"
    and "\<And>us t. passes ws s us t \<Longrightarrow> bd_domain (blocked_domains t ! i) = a"
  shows "\<exists>us t. passes ws s us t \<and> x = alone (domain_probe d i) t"
proof -
  obtain us t where pass: "passes ws s us t" and x: "meets us t (if \<not> bd_active (blocked_domains t ! i) then Done None else
     Read (\<lambda>s. Done (if domain_matches d (cstr (bd_domain (blocked_domains s ! i))) then Some True else None))) ws' s' x"
    using assms(1) unfolding domain_probe_def by (meson meets_Read)
  have "x = alone (domain_probe d i) t"
  proof (cases "bd_active (blocked_domains t ! i)")
    case True
    then obtain vs u where "passes us t vs u" and "x = (if domain_matches d (cstr (bd_domain (blocked_domains u ! i))) then Some True else None)"
      using x by (auto dest!: meets_Read meets_Done)
    then show ?thesis using True assms(2) [OF pass] assms(2) [OF passes_trans [OF pass]] by (simp add: alone_domain_probe)
  qed (use x in \<open>auto simp: alone_domain_probe dest: meets_Done\<close>)
  then show ?thesis using pass by blast
qed

definition can_flag :: "nat \<Rightarrow> domain_filter \<Rightarrow> bool" where
  "can_flag i s \<longleftrightarrow> i < blocked_domain_count s \<and> i < length (blocked_domains s)"

interpretation flagging: published "can_flag i" "\<lambda>_. flag_store i b" "\<lambda>_. i"
    blocked_domain_count "domain_probe d" "Done False" for i b d
proof
  fix s0 assume good: "can_flag i s0"
  let ?ws = "flag_store i b"
  show "i \<le> blocked_domain_count s0" using good by (simp add: can_flag_def)
  show "blocked_domain_count (stored ?ws s0) = max (blocked_domain_count s0) (Suc i)"
    using good by (simp add: can_flag_def flag_store_def)
  fix ws s assume pass: "passes ?ws s0 ws s"
  then have at: "s = s0 \<or> s = stored ?ws s0" by (auto simp: flag_store_def passes_store passes_Nil)
  then show "blocked_domain_count s \<in> {blocked_domain_count s0, blocked_domain_count (stored ?ws s0)}" by auto
  fix ws' s'
  show "x = alone (domain_probe d k) s0" if "k \<noteq> i" and "meets ws s (domain_probe d k) ws' s' x" for k x
  proof -
    have "keeps_view (\<lambda>s. blocked_domains s ! k) ?ws s0" using that(1) by (simp add: flag_store_def)
    from keeps_view_later [OF this pass] show ?thesis using domain_kept [OF that(2)] domain_same by metis
  qed
  show "r = alone (Done False) s0" if "meets ws s (Done False) ws' s' r" for r using meets_Done [OF that] by simp
  show "x = alone (domain_probe d i) (stored ?ws s0) \<or> i < blocked_domain_count s0 \<and> x = alone (domain_probe d i) s0 \<or>
      blocked_domain_count s0 \<le> i \<and> x = None" if "meets ws s (domain_probe d i) ws' s' x" for x
  proof -
    have two: "t = s0 \<or> t = stored ?ws s0" if "passes ws s us t" for us t
      using passes_trans [OF pass that] by (auto simp: flag_store_def passes_store passes_Nil)
    then have same: "bd_domain (blocked_domains t ! i) = bd_domain (blocked_domains s0 ! i)" if "passes ws s us t" for us t
      using two [OF that] good by (auto simp: flag_store_def can_flag_def)
    have "\<exists>us t. passes ws s us t \<and> x = alone (domain_probe d i) t" by (rule domain_probe_meets [OF that]) (rule same)
    then show ?thesis using two good by (auto simp: can_flag_def)
  qed
qed

text \<open>C13: A query that is looked up while a domain is blocked or unblocked is answered by the list before or
  by the list after. In particular a name that is blocked before and after is never answered.\<close>

theorem domain_change_at_once:
  assumes "domain_step api op (s, p) = Inr (s', p')" and "domains_wf s" and "op_ok op"
    and "meets (domain_stores op s) s (domain_reader d) ws t r"
  shows "r = is_domain_blocked (Some d) s \<or> r = is_domain_blocked (Some d) s'"
proof -
  note final = stored_domain [OF assms(1,2)] and wf = domain_step_names(1) [OF assms(1-3)]
  have len: "length (blocked_domains s) = MAX_BLOCKED_DOMAINS" and le: "blocked_domain_count s \<le> MAX_BLOCKED_DOMAINS"
    using assms(2) by (simp_all add: domains_wf_def)
  have found: "find_domain e s = Some i \<Longrightarrow> can_flag i s" for e i
    using find_domain_Some(1) [OF assms(2), of e i] len le by (simp add: can_flag_def)
  have "domain_stores op s = [] \<or> (\<exists>i b. domain_stores op s = flag_store i b \<and> can_flag i s) \<or>
      (\<exists>i e. domain_stores op s = append_stores i e \<and> can_append i s)"
  proof (cases op)
    case (Block e)
    then show ?thesis using found len by (cases "find_domain e s") (auto simp: can_append_def)
  next
    case (Unblock e)
    then show ?thesis using found by (cases "find_domain e s") auto
  qed
  then consider (nothing) "domain_stores op s = []"
    | (flag) i b where "domain_stores op s = flag_store i b" "can_flag i s"
    | (append) i e where "domain_stores op s = append_stores i e" "can_append i s"
    by blast
  then have "r = alone (domain_reader d) s \<or> r = alone (domain_reader d) s'"
  proof cases
    case nothing
    then show ?thesis using assms(4) undisturbed [of "[]" s "domain_reader d" ws t r "\<lambda>s. s"] by (simp add: reads_everything)
  next
    case flag
    then show ?thesis using assms(4) final unfolding domain_reader_def flag(1)
      by (auto dest!: flagging.at_once [OF flag(2) passes_refl] meets_Done)
  next
    case append
    then show ?thesis using assms(4) final unfolding domain_reader_def append(1)
      by (auto dest!: appending.at_once [OF append(2) passes_refl] meets_Done)
  qed
  then show ?thesis by (simp add: alone_domain_reader assms(2) wf)
qed

theorem domain_change_at_once_witness:
  "\<exists>s' p' ws t. domain_step ram_api (Block evil) (domain_boot, \<lparr>plog = log_init, pflash = ram_empty\<rparr>) = Inr (s', p') \<and>
     meets (domain_stores (Block evil) domain_boot) domain_boot (domain_reader evil) ws t False \<and>
     (False = is_domain_blocked (Some evil) domain_boot \<or> False = is_domain_blocked (Some evil) s')"
proof -
  have ok: "op_ok (Block evil)" using evil_facts by (simp add: op_ok_def)
  obtain s' p' where "add_blocked_domain ram_api (Some evil) domain_boot \<lparr>plog = log_init, pflash = ram_empty\<rparr> = Inr (True, s', p')"
    by (rule evil_added)
  then have step: "domain_step ram_api (Block evil) (domain_boot, \<lparr>plog = log_init, pflash = ram_empty\<rparr>) = Inr (s', p')" by simp
  have "alone (domain_reader evil) domain_boot = False"
    unfolding alone_domain_reader [OF domains_wf_boot] by (simp add: is_domain_blocked_def domain_boot_def)
  then have "meets (domain_stores (Block evil) domain_boot) domain_boot (domain_reader evil)
      (domain_stores (Block evil) domain_boot) domain_boot False"
    using meets_at [OF passes_refl] by metis
  then show ?thesis using domain_change_at_once [OF step domains_wf_boot ok] step by blast
qed

section \<open>The list of devices\<close>

definition status_probe :: "mac \<Rightarrow> nat \<Rightarrow> (devices, mac_status option) reader" where
  "status_probe m i =
     Read (\<lambda>d. if dv_mac (device_list d ! i) \<noteq> m then Done None else
     Read (\<lambda>d. Done (Some (dv_status (device_list d ! i)))))"

definition status_reader :: "mac \<Rightarrow> (devices, mac_status) reader" where
  "status_reader m = scan device_count (status_probe m) (Done PENDING) MAX_DEVICES 0"

lemma alone_status_probe: "alone (status_probe m i) d =
    (if dv_mac (device_list d ! i) = m then Some (dv_status (device_list d ! i)) else None)"
  by (simp add: status_probe_def)

lemma alone_status_reader: "devices_wf d \<Longrightarrow> alone (status_reader m) d = device_status m d"
  using alone_scan [where cnt = device_count and s = d and k = 0 and n = MAX_DEVICES
      and probe = "status_probe m" and rest = "Done PENDING" and xs = "device_list d" and v = dv_status
      and P = "\<lambda>e. dv_mac e = m"]
  by (simp add: status_reader_def device_status_def alone_status_probe devices_wf_def split: option.splits)

lemma status_probe_view: "reads_only (\<lambda>d. device_list d ! k) (status_probe m k)"
  by (auto simp: status_probe_def reads_only.simps)

lemma status_kept: "meets ws s (status_probe m k) ws' s' x \<Longrightarrow> keeps_view (\<lambda>d. device_list d ! k) ws s \<Longrightarrow> x = alone (status_probe m k) s"
  by (rule undisturbed [OF _ status_probe_view])

lemma status_same: "device_list s ! k = device_list t ! k \<Longrightarrow> alone (status_probe m k) s = alone (status_probe m k) t"
  by (simp add: alone_status_probe)

definition set_entry :: "nat \<Rightarrow> (device \<Rightarrow> device) \<Rightarrow> devices \<Rightarrow> devices" where
  "set_entry i f d = d\<lparr>device_list := (device_list d)[i := f (device_list d ! i)]\<rparr>"

definition join_stores :: "nat \<Rightarrow> mac \<Rightarrow> devices stores" where
  "join_stores i m = [set_entry i (\<lambda>e. e\<lparr>dv_mac := m\<rparr>), set_entry i (\<lambda>e. e\<lparr>dv_status := PENDING\<rparr>),
     \<lambda>d. d\<lparr>device_count := device_count d + 1\<rparr>]"

definition add_device_stores :: "mac \<Rightarrow> devices \<Rightarrow> devices stores" where
  "add_device_stores m d =
     (if device_count d < MAX_DEVICES \<and> \<not> mac_exists m d then join_stores (device_count d) m else [])"

definition status_store :: "nat \<Rightarrow> mac_status \<Rightarrow> devices stores" where
  "status_store i st = [set_entry i (\<lambda>e. e\<lparr>dv_status := st\<rparr>)]"

definition set_status_stores :: "mac \<Rightarrow> string \<Rightarrow> devices \<Rightarrow> devices stores" where
  "set_status_stores m status_str d =
     (case first_idx (\<lambda>e. dv_mac e = m) (take (device_count d) (device_list d)) of
        Some i \<Rightarrow> (if status_str = ''ALLOWED'' then status_store i ALLOWED
                   else if status_str = ''BLOCKED'' then status_store i BLOCKED else [])
      | None \<Rightarrow> [])"

lemma set_entry_simps [simp]:
  "device_list (set_entry i f d) = (device_list d)[i := f (device_list d ! i)]"
  "device_count (set_entry i f d) = device_count d"
  by (simp_all add: set_entry_def)

lemma stored_device: "devices_wf d \<Longrightarrow> stored (add_device_stores m d) d = add_device m d"
  by (cases "device_list d ! device_count d")
    (simp add: add_device_stores_def add_device_def join_stores_def set_entry_def devices_wf_def)

lemma stored_status: "stored (set_status_stores m new_status d) d = snd (set_device_status m new_status d)"
  by (auto simp: set_status_stores_def set_device_status_def status_store_def set_entry_def split: option.split)

text \<open>Both changes meet the contract.\<close>

definition can_join :: "nat \<Rightarrow> devices \<Rightarrow> bool" where
  "can_join i d \<longleftrightarrow> i = device_count d \<and> i < length (device_list d)"

definition is_known :: "nat \<Rightarrow> devices \<Rightarrow> bool" where
  "is_known i d \<longleftrightarrow> i < device_count d \<and> i < length (device_list d)"

interpretation joining: published "can_join i" "\<lambda>_. join_stores i mac" "\<lambda>_. i"
    device_count "status_probe m" "Done PENDING" for i mac m
proof
  fix s0 assume good: "can_join i s0"
  let ?ws = "join_stores i mac"
  show "i \<le> device_count s0" using good by (simp add: can_join_def)
  show "device_count (stored ?ws s0) = max (device_count s0) (Suc i)"
    using good by (simp add: can_join_def join_stores_def)
  fix ws s assume pass: "passes ?ws s0 ws s"
  then show "device_count s \<in> {device_count s0, device_count (stored ?ws s0)}"
    by (auto simp: join_stores_def passes_store passes_Nil)
  fix ws' s'
  show "x = alone (status_probe m k) s0" if "k \<noteq> i" and "meets ws s (status_probe m k) ws' s' x" for k x
  proof -
    have "keeps_view (\<lambda>s. device_list s ! k) ?ws s0" using that(1) by (simp add: join_stores_def)
    from keeps_view_later [OF this pass] show ?thesis using status_kept [OF that(2)] status_same by metis
  qed
  show "r = alone (Done PENDING) s0" if "meets ws s (Done PENDING) ws' s' r" for r using meets_Done [OF that] by simp
  show "x = alone (status_probe m i) (stored ?ws s0) \<or> i < device_count s0 \<and> x = alone (status_probe m i) s0 \<or>
      device_count s0 \<le> i \<and> x = None" if "i < device_count s" and "meets ws s (status_probe m i) ws' s' x" for x
  proof -
    have "ws = [] \<and> s = stored ?ws s0"
      using pass that(1) good by (auto simp: can_join_def join_stores_def passes_store passes_Nil)
    then show ?thesis using status_kept that(2) by fastforce
  qed
qed

lemma status_probe_meets:
  assumes "meets ws s (status_probe m i) ws' s' x"
    and "\<And>us t. passes ws s us t \<Longrightarrow> dv_mac (device_list t ! i) = a"
  shows "\<exists>us t. passes ws s us t \<and> x = alone (status_probe m i) t"
proof -
  obtain us t where pass: "passes ws s us t" and x: "meets us t (if dv_mac (device_list t ! i) \<noteq> m then Done None else
     Read (\<lambda>d. Done (Some (dv_status (device_list d ! i))))) ws' s' x"
    using assms(1) unfolding status_probe_def by (meson meets_Read)
  show ?thesis
  proof (cases "a = m")
    case True
    then obtain vs u where u: "passes us t vs u" and "x = Some (dv_status (device_list u ! i))"
      using x assms(2) [OF pass] by (auto dest!: meets_Read meets_Done)
    then have "x = alone (status_probe m i) u" using True assms(2) [OF passes_trans [OF pass u]] by (simp add: alone_status_probe)
    then show ?thesis using passes_trans [OF pass u] by blast
  next
    case False
    then have "x = alone (status_probe m i) t" using x assms(2) [OF pass] by (auto simp: alone_status_probe dest: meets_Done)
    then show ?thesis using pass by blast
  qed
qed

interpretation judging: published "is_known i" "\<lambda>_. status_store i st" "\<lambda>_. i"
    device_count "status_probe m" "Done PENDING" for i st m
proof
  fix s0 assume good: "is_known i s0"
  let ?ws = "status_store i st"
  show "i \<le> device_count s0" using good by (simp add: is_known_def)
  show "device_count (stored ?ws s0) = max (device_count s0) (Suc i)"
    using good by (simp add: is_known_def status_store_def)
  fix ws s assume pass: "passes ?ws s0 ws s"
  then have at: "s = s0 \<or> s = stored ?ws s0" by (auto simp: status_store_def passes_store passes_Nil)
  then show "device_count s \<in> {device_count s0, device_count (stored ?ws s0)}" by auto
  fix ws' s'
  show "x = alone (status_probe m k) s0" if "k \<noteq> i" and "meets ws s (status_probe m k) ws' s' x" for k x
  proof -
    have "keeps_view (\<lambda>s. device_list s ! k) ?ws s0" using that(1) by (simp add: status_store_def)
    from keeps_view_later [OF this pass] show ?thesis using status_kept [OF that(2)] status_same by metis
  qed
  show "r = alone (Done PENDING) s0" if "meets ws s (Done PENDING) ws' s' r" for r using meets_Done [OF that] by simp
  show "x = alone (status_probe m i) (stored ?ws s0) \<or> i < device_count s0 \<and> x = alone (status_probe m i) s0 \<or>
      device_count s0 \<le> i \<and> x = None" if "meets ws s (status_probe m i) ws' s' x" for x
  proof -
    have two: "t = s0 \<or> t = stored ?ws s0" if "passes ws s us t" for us t
      using passes_trans [OF pass that] by (auto simp: status_store_def passes_store passes_Nil)
    then have same: "dv_mac (device_list t ! i) = dv_mac (device_list s0 ! i)" if "passes ws s us t" for us t
      using two [OF that] good by (auto simp: status_store_def is_known_def)
    have "\<exists>us t. passes ws s us t \<and> x = alone (status_probe m i) t" by (rule status_probe_meets [OF that]) (rule same)
    then show ?thesis using two good by (auto simp: is_known_def)
  qed
qed

text \<open>A frame whose sender is looked up while a station joins finds the status it had, whoever sent it; one that is
  looked up while a status is set on the dashboard finds the old or the new status.\<close>

lemma idle_lookup: "meets [] d (status_reader m) ws t r \<Longrightarrow> r = alone (status_reader m) d"
  using undisturbed [of "[]" d "status_reader m" ws t r "\<lambda>d. d"] by (simp add: reads_everything)

theorem join_at_once:
  assumes "devices_wf d" and "meets (add_device_stores mac d) d (status_reader m) ws t r"
  shows "r = device_status m d"
proof -
  have "r = alone (status_reader m) d \<or> r = alone (status_reader m) (add_device mac d)"
  proof (cases "device_count d < MAX_DEVICES \<and> \<not> mac_exists mac d")
    case True
    then have stores: "add_device_stores mac d = join_stores (device_count d) mac" and "can_join (device_count d) d"
      using assms(1) by (simp_all add: add_device_stores_def can_join_def devices_wf_def)
    then show ?thesis using assms(2) stored_device [OF assms(1), of mac] unfolding status_reader_def stores
      by (auto dest!: joining.at_once [OF _ passes_refl])
  next
    case False
    then have "meets [] d (status_reader m) ws t r" using assms(2) by (auto simp: add_device_stores_def)
    then have "r = alone (status_reader m) d" by (rule idle_lookup)
    then show ?thesis by (rule disjI1)
  qed
  then show ?thesis by (simp add: alone_status_reader assms(1) add_device_wf add_device_status)
qed

theorem join_at_once_witness:
  "\<exists>ws t. meets (add_device_stores [1, 2, 3, 4, 5, 6] devices_boot) devices_boot (status_reader [1, 2, 3, 4, 5, 6]) ws t PENDING \<and>
     PENDING = device_status [1, 2, 3, 4, 5, 6] devices_boot"
proof -
  have "alone (status_reader [1, 2, 3, 4, 5, 6]) devices_boot = PENDING"
    unfolding alone_status_reader [OF devices_wf_boot] by (simp add: device_status_def devices_boot_def)
  then have meet: "meets us devices_boot (status_reader [1, 2, 3, 4, 5, 6]) us devices_boot PENDING" for us
    using meets_at [OF passes_refl] by metis
  show ?thesis using join_at_once [OF devices_wf_boot meet] meet by blast
qed

theorem judge_at_once:
  assumes "devices_wf d" and "meets (set_status_stores mac new_status d) d (status_reader m) ws t r"
  shows "r = device_status m d \<or> r = device_status m (snd (set_device_status mac new_status d))"
proof -
  have "r = alone (status_reader m) d \<or> r = alone (status_reader m) (snd (set_device_status mac new_status d))"
  proof (cases "set_status_stores mac new_status d = []")
    case False
    then obtain i st where stores: "set_status_stores mac new_status d = status_store i st" and "is_known i d"
      using assms(1) first_idx_SomeD(1)
      by (fastforce simp: set_status_stores_def is_known_def devices_wf_def split: option.splits if_splits)
    then show ?thesis using assms(2) stored_status [of mac new_status d] unfolding status_reader_def stores
      by (auto dest!: judging.at_once [OF _ passes_refl])
  qed (use assms(2) in \<open>auto dest: idle_lookup\<close>)
  then show ?thesis
    using set_device_status_wf [OF prod.collapse [symmetric] assms(1), of mac new_status]
    by (simp add: alone_status_reader assms(1))
qed

end
