(* ===== verification/Packet_Races.thy ===== *)
theory Packet_Races
  imports Rule_Race_Props Table_Races Packet_Laws
begin

text \<open>
  Packets that are judged (\<open>main/packet_filter.c\<close>) while another task runs an operation on the rules or on the
  devices. The memory is the pair of both tables; a store to one of them is a store to the pair.
\<close>

section \<open>Readers of one table among two\<close>

primrec lift :: "('t \<Rightarrow> 's) \<Rightarrow> ('s, 'r) reader \<Rightarrow> ('t, 'r) reader" where
  "lift g (Done r) = Done r"
| "lift g (Read f) = Read (\<lambda>t. lift g (f (g t)))"

lemma alone_lift [simp]: "alone (lift g a) t = alone a (g t)"
  by (induction a) auto

lemma reads_only_lift: "reads_only g (lift g a)"
proof (induction a)
  case (Read f)
  then have "reads_only g (lift g (f (g t)))" for t using rangeI by blast
  then show ?case unfolding lift.simps reads_only.simps by simp
qed simp

lemma lift_cases: "lift g a = Done r \<longleftrightarrow> a = Done r" "lift g a = Read F \<longleftrightarrow> (\<exists>f. a = Read f \<and> F = (\<lambda>t. lift g (f (g t))))"
  by (cases a; auto)+

text \<open>Stores to that table alone meet the reader as they would without the other.\<close>

lemma meets_lift:
  assumes "\<And>w t. g (h w t) = w (g t)"
  shows "meets ws t a' ws' t' r \<Longrightarrow> ws = map h vs \<Longrightarrow> a' = lift g a \<Longrightarrow>
    \<exists>vs'. ws' = map h vs' \<and> meets vs (g t) a vs' (g t') r"
proof (induction arbitrary: vs a rule: meets.induct)
  case (answer ws t r)
  then show ?case using meets.answer lift_cases(1) by metis
next
  case (read ws t F ws' t' r)
  then obtain f where "a = Read f" and F: "F = (\<lambda>t. lift g (f (g t)))" by (metis lift_cases(2))
  moreover obtain vs' where "ws' = map h vs'" "meets vs (g t) (f (g t)) vs' (g t') r"
    using read.IH [OF read.prems(1), of "f (g t)"] F by auto
  ultimately show ?case using meets.read [of vs "g t" f vs' "g t'" r] by auto
next
  case (store ws w t a' ws' t' r)
  then obtain v us where vs: "vs = v # us" "w = h v" "ws = map h us" by auto
  then obtain vs' where "ws' = map h vs'" "meets us (g (w t)) a vs' (g t') r"
    using store.IH [OF vs(3) store.prems(2)] by blast
  then show ?case using vs assms meets.store by metis
qed

lemma stored_apfst: "stored (map apfst vs) t = (stored vs (fst t), snd t)"
  by (induction vs arbitrary: t) auto

lemma stored_apsnd: "stored (map apsnd vs) t = (fst t, stored vs (snd t))"
  by (induction vs arbitrary: t) auto

lemma passes_apfst: "passes (map apfst vs) t us u \<Longrightarrow> \<exists>vs'. us = map apfst vs' \<and> passes vs (fst t) vs' (fst u) \<and> snd u = snd t"
  unfolding passes_def by (auto simp: map_eq_append_conv append_eq_map_conv stored_apfst)

lemma passes_apsnd: "passes (map apsnd vs) t us u \<Longrightarrow> \<exists>vs'. us = map apsnd vs' \<and> passes vs (snd t) vs' (snd u) \<and> fst u = fst t"
  unfolding passes_def by (auto simp: map_eq_append_conv append_eq_map_conv stored_apsnd)

lemma kept_apfst: "keeps_view snd (map apfst vs) t"
  by (auto simp: keeps_view_def dest: passes_apfst)

lemma kept_apsnd: "keeps_view fst (map apsnd vs) t"
  by (auto simp: keeps_view_def dest: passes_apsnd)

lemma other_apfst: "meets (map apfst vs) t (lift snd a) ws' t' r \<Longrightarrow> r = alone a (snd t)"
  by (drule undisturbed [OF _ reads_only_lift kept_apfst]) simp

lemma other_apsnd: "meets (map apsnd vs) t (lift fst a) ws' t' r \<Longrightarrow> r = alone a (fst t)"
  by (drule undisturbed [OF _ reads_only_lift kept_apsnd]) simp

lemma this_apfst: "meets (map apfst vs) t (lift fst a) ws' t' r \<Longrightarrow> \<exists>vs'. ws' = map apfst vs' \<and> meets vs (fst t) a vs' (fst t') r"
  by (rule meets_lift [OF _ _ refl refl]) simp_all

lemma this_apsnd: "meets (map apsnd vs) t (lift snd a) ws' t' r \<Longrightarrow> \<exists>vs'. ws' = map apsnd vs' \<and> meets vs (snd t) a vs' (snd t') r"
  by (rule meets_lift [OF _ _ refl refl]) simp_all

section \<open>The decision, read by read\<close>

definition port_judged :: "packet \<Rightarrow> bool" where
  "port_judged k \<longleftrightarrow> pk_proto k = IP_PROTO_TCP \<or> pk_proto k = IP_PROTO_UDP"

definition packet_reader :: "packet \<Rightarrow> (devices \<times> service_filter, bool) reader" where
  "packet_reader k =
     (if pk_src k = admin_mac then Done True
      else and_then (lift fst (status_reader (pk_src k))) (\<lambda>status.
        if status = BLOCKED then Done False
        else if port_judged k
        then lift snd (port_reader (pk_proto k) (pk_dport k))
        else Done True))"

lemma alone_packet_reader:
  "devices_wf d \<Longrightarrow> sf_wf s \<Longrightarrow> alone (packet_reader k) (d, s) = permits d s k"
  by (auto simp: packet_reader_def alone_and_then alone_status_reader alone_port_reader_wf permits_def permitted_iff port_ok_def port_judged_def)

section \<open>Operations on the tables\<close>

datatype table_op = Add_rule string u16 byte bool | Switch service_id bool | Join mac | Judge mac string

fun table_step :: "'f nvs_api \<Rightarrow> table_op \<Rightarrow> devices \<times> service_filter \<Rightarrow> 'f plat \<Rightarrow>
    ((devices \<times> service_filter) \<times> 'f plat) cres" where
  "table_step api (Add_rule name port proto blocked) (d, s) p =
     bindE (service_add_custom api (Some name) port proto blocked s p) (\<lambda>(_, s1, p1). Inr ((d, s1), p1))"
| "table_step api (Switch sid blocked) (d, s) p =
     bindE (service_set_blocked api sid blocked s p) (\<lambda>(s1, p1). Inr ((d, s1), p1))"
| "table_step api (Join mac) (d, s) p = Inr ((add_device mac d, s), p)"
| "table_step api (Judge mac status) (d, s) p = Inr ((snd (set_device_status mac status d), s), p)"

fun table_stores :: "table_op \<Rightarrow> devices \<times> service_filter \<Rightarrow> (devices \<times> service_filter) stores" where
  "table_stores (Add_rule name port proto blocked) (d, s) = map apsnd (add_stores name port proto blocked s)"
| "table_stores (Switch sid blocked) (d, s) = map apsnd (switch_store sid blocked)"
| "table_stores (Join mac) (d, s) = map apfst (add_device_stores mac d)"
| "table_stores (Judge mac status) (d, s) = map apfst (set_status_stores mac status d)"

text \<open>The one restriction: a rule that is updated keeps its protocol.\<close>

fun keeps_protocol :: "table_op \<Rightarrow> service_filter \<Rightarrow> bool" where
  "keeps_protocol (Add_rule name port proto blocked) s = (case first_idx (same_rule port proto) (g_custom_rules s) of
     Some i \<Rightarrow> cr_proto (g_custom_rules s ! i) = proto | None \<Rightarrow> True)"
| "keeps_protocol _ s = True"

lemma packet_meets:
  assumes "meets ws t (packet_reader k) ws' t' r" and "pk_src k \<noteq> admin_mac"
  obtains us u st where "meets ws t (lift fst (status_reader (pk_src k))) us u st"
    and "st = BLOCKED \<Longrightarrow> \<not> r"
    and "st \<noteq> BLOCKED \<Longrightarrow> port_judged k \<Longrightarrow> meets us u (lift snd (port_reader (pk_proto k) (pk_dport k))) ws' t' r"
    and "st \<noteq> BLOCKED \<Longrightarrow> \<not> port_judged k \<Longrightarrow> r"
proof -
  obtain us u st where st: "meets ws t (lift fst (status_reader (pk_src k))) us u st" and later: "meets us u (if st = BLOCKED then Done False
      else if port_judged k then lift snd (port_reader (pk_proto k) (pk_dport k)) else Done True) ws' t' r"
    using assms(2) meets_and_then [OF assms(1) [unfolded packet_reader_def if_not_P [OF assms(2)]]] by blast
  show thesis
  proof (rule that [OF st])
    show "st = BLOCKED \<Longrightarrow> \<not> r" using later by (auto dest: meets_Done)
    show "st \<noteq> BLOCKED \<Longrightarrow> port_judged k \<Longrightarrow> meets us u (lift snd (port_reader (pk_proto k) (pk_dport k))) ws' t' r"
      using later by simp
    show "st \<noteq> BLOCKED \<Longrightarrow> \<not> port_judged k \<Longrightarrow> r" using later by (auto dest: meets_Done)
  qed
qed

text \<open>The decision in terms of what the two lookups find.\<close>

lemma permits_cases:
  "pk_src k \<noteq> admin_mac \<Longrightarrow> permits d s k \<longleftrightarrow>
     device_status (pk_src k) d \<noteq> BLOCKED \<and> (port_judged k \<longrightarrow> service_is_port_allowed (pk_proto k) (pk_dport k) s)"
  by (auto simp: permits_def permitted_iff port_ok_def port_judged_def)

lemma rules_change:
  assumes "devices_wf d" and "pk_src k \<noteq> admin_mac" and "meets (map apsnd vs) (d, s) (packet_reader k) ws t r"
    and ports: "\<And>ws t r. meets vs s (port_reader (pk_proto k) (pk_dport k)) ws t r \<Longrightarrow>
      r = service_is_port_allowed (pk_proto k) (pk_dport k) s \<or> r = service_is_port_allowed (pk_proto k) (pk_dport k) s'"
  shows "r = permits d s k \<or> r = permits d s' k"
  using assms(3,2)
proof (rule packet_meets)
  fix us u st
  assume status: "meets (map apsnd vs) (d, s) (lift fst (status_reader (pk_src k))) us u st"
    and blocked: "st = BLOCKED \<Longrightarrow> \<not> r" and free: "st \<noteq> BLOCKED \<Longrightarrow> \<not> port_judged k \<Longrightarrow> r"
    and judged: "st \<noteq> BLOCKED \<Longrightarrow> port_judged k \<Longrightarrow> meets us u (lift snd (port_reader (pk_proto k) (pk_dport k))) ws t r"
  have st: "st = device_status (pk_src k) d" using other_apsnd [OF status] by (simp add: alone_status_reader assms(1))
  have "meets (map apsnd vs) (d, s) (lift snd (port_reader (pk_proto k) (pk_dport k))) ws t r" if "st \<noteq> BLOCKED" "port_judged k"
    using meets_later [OF meets_passes [OF status] judged [OF that]] .
  from this_apsnd [OF this] ports have "r = service_is_port_allowed (pk_proto k) (pk_dport k) s \<or>
      r = service_is_port_allowed (pk_proto k) (pk_dport k) s'" if "st \<noteq> BLOCKED" "port_judged k" using that by fastforce
  then show ?thesis using st blocked free permits_cases [OF assms(2)] by (cases "st = BLOCKED"; cases "port_judged k") auto
qed

lemma devices_change:
  assumes "sf_wf s" and "pk_src k \<noteq> admin_mac" and "meets (map apfst vs) (d, s) (packet_reader k) ws t r"
    and status: "\<And>ws t r. meets vs d (status_reader (pk_src k)) ws t r \<Longrightarrow>
      r = device_status (pk_src k) d \<or> r = device_status (pk_src k) d'"
  shows "r = permits d s k \<or> r = permits d' s k"
  using assms(3,2)
proof (rule packet_meets)
  fix us u st
  assume met: "meets (map apfst vs) (d, s) (lift fst (status_reader (pk_src k))) us u st"
    and blocked: "st = BLOCKED \<Longrightarrow> \<not> r" and free: "st \<noteq> BLOCKED \<Longrightarrow> \<not> port_judged k \<Longrightarrow> r"
    and judged: "st \<noteq> BLOCKED \<Longrightarrow> port_judged k \<Longrightarrow> meets us u (lift snd (port_reader (pk_proto k) (pk_dport k))) ws t r"
  have st: "st = device_status (pk_src k) d \<or> st = device_status (pk_src k) d'" using this_apfst [OF met] status by auto
  have "r = service_is_port_allowed (pk_proto k) (pk_dport k) s" if "st \<noteq> BLOCKED" "port_judged k"
    using other_apfst [OF meets_later [OF meets_passes [OF met] judged [OF that]]] by (simp add: alone_port_reader_wf assms(1))
  then show ?thesis using st blocked free permits_cases [OF assms(2)] by (cases "st = BLOCKED"; cases "port_judged k") auto
qed

lemma judged_before_or_after:
  assumes "devices_wf d" and "sf_wf s" and "table_step api op (d, s) p = Inr ((d', s'), p')" and "keeps_protocol op s"
    and "meets (table_stores op (d, s)) (d, s) (packet_reader k) ws t r"
  shows "r = permits d s k \<or> r = permits d' s' k"
proof (cases "pk_src k = admin_mac")
  case True
  then show ?thesis using assms(5) by (auto simp: packet_reader_def permits_def permitted_iff dest: meets_Done)
next
  case False
  show ?thesis
  proof (cases op)
    case (Add_rule name port proto blocked)
    then obtain ok where add: "service_add_custom api (Some name) port proto blocked s p = Inr (ok, s', p')" and d: "d' = d"
      using assms(3) by (auto simp: cres_simps)
    have "cr_proto (g_custom_rules s ! i) = proto" if "first_idx (same_rule port proto) (g_custom_rules s) = Some i" for i
      using assms(4) Add_rule that by simp
    note ports = rule_change_at_once [OF assms(2) add this]
    show ?thesis using rules_change [OF assms(1) False _ ports] assms(5) Add_rule d by simp
  next
    case (Switch sid blocked)
    then have switch: "service_set_blocked api sid blocked s p = Inr (s', p')" and d: "d' = d"
      using assms(3) by (auto simp: cres_simps)
    show ?thesis using rules_change [OF assms(1) False _ service_switch_at_once [OF assms(2) switch]] assms(5) Switch d by simp
  next
    case (Join mac)
    have "r = device_status (pk_src k) d \<or> r = device_status (pk_src k) (add_device mac d)"
      if "meets (add_device_stores mac d) d (status_reader (pk_src k)) ws t r" for ws t r
      using join_at_once [OF assms(1) that] by simp
    from devices_change [OF assms(2) False _ this] show ?thesis using assms(3,5) Join by simp
  next
    case (Judge mac status)
    note judged = judge_at_once [OF assms(1), of mac status "pk_src k"]
    show ?thesis using devices_change [OF assms(2) False _ judged] assms(3,5) Judge by simp
  qed
qed

text \<open>C5: A packet that is judged while a rule is added, its flag or name is changed, a service is switched, a
  station joins or the status of a device is set, is judged as before the operation or as after it. In particular
  none of them ever lets a packet pass that is refused before and after, and a blocked device gets nothing through.\<close>

theorem packet_judged_before_or_after:
  assumes "devices_wf d" and "sf_wf s" and "table_step api op (d, s) p = Inr ((d', s'), p')" and "keeps_protocol op s"
    and "meets (table_stores op (d, s)) (d, s) (packet_reader k) ws t r"
  shows "(\<exists>q. is_packet_allowed (pk_src k) (pk_proto k) sport (pk_dport k) d s p = Inr (r, q)) \<or>
    (\<exists>q. is_packet_allowed (pk_src k) (pk_proto k) sport (pk_dport k) d' s' p' = Inr (r, q))"
  using judged_before_or_after [OF assms] is_packet_allowed_permits [of "pk_src k" "pk_proto k" sport "pk_dport k" d s p]
    is_packet_allowed_permits [of "pk_src k" "pk_proto k" sport "pk_dport k" d' s' p']
  by (cases k) auto

theorem packet_judged_before_or_after_witness:
  "\<exists>s' p' ws t r q. table_step ram_api (Add_rule ''web'' 8080 SVC_PROTO_BOTH True) (devices_boot, service_boot) plat0 =
       Inr ((devices_boot, s'), p') \<and>
     meets (table_stores (Add_rule ''web'' 8080 SVC_PROTO_BOTH True) (devices_boot, service_boot)) (devices_boot, service_boot)
       (packet_reader \<lparr>pk_src = [1, 2, 3, 4, 5, 6], pk_proto = 6, pk_dport = 8080\<rparr>) ws t r \<and>
     (is_packet_allowed [1, 2, 3, 4, 5, 6] 6 40000 8080 devices_boot service_boot plat0 = Inr (r, q) \<or>
      is_packet_allowed [1, 2, 3, 4, 5, 6] 6 40000 8080 devices_boot s' p' = Inr (r, q))"
proof -
  let ?op = "Add_rule ''web'' 8080 SVC_PROTO_BOTH True" and ?k = "\<lparr>pk_src = [1, 2, 3, 4, 5, 6], pk_proto = 6, pk_dport = 8080\<rparr>"
  obtain s' p' where "service_add_custom ram_api (Some ''web'') 8080 SVC_PROTO_BOTH True service_boot plat0 = Inr (True, s', p')"
    by (rule boot_add [of 8080]) simp
  then have step: "table_step ram_api ?op (devices_boot, service_boot) plat0 = Inr ((devices_boot, s'), p')" by simp
  have keeps: "keeps_protocol ?op service_boot" by (simp add: service_boot_def)
  note meet = meets_alone [of "table_stores ?op (devices_boot, service_boot)" "(devices_boot, service_boot)" "packet_reader ?k"]
  from packet_judged_before_or_after [OF devices_wf_boot sf_wf_boot step keeps meet, of 40000]
  show ?thesis using step meet unfolding packet.simps by blast
qed

end
