(* ===== verification/Console.thy ===== *)
theory Console
  imports Boot Cmd_Nvs Cmd_System
begin

text \<open>
  The end of \<open>app_main\<close> (\<open>main/esp32_nat_router.c\<close>): the commands of all three modules in one table, the
  greeting and the prompt, and the loop that reads a line, keeps it in the history and runs it. Line editing
  (\<open>linenoise\<close>) and the command interpreter of the vendor are parameters; the history file is the list of
  lines last saved.
\<close>

section \<open>The table of commands\<close>

datatype console_fn = Help | System_fn system_cmd | Nvs_fn nvs_cmd | Router_fn router_cmd

definition console_table :: "(string \<times> console_fn) list" where
  "console_table = (''help'', Help) # map (\<lambda>(name, _, c, _). (name, System_fn c)) register_system @
     map (\<lambda>(name, _, c, _). (name, Nvs_fn c)) register_nvs @
     map (\<lambda>c. (cc_command c, Router_fn (cc_func c))) register_router"

definition console_dispatch :: "string list \<Rightarrow> esp_err + console_fn" where
  "console_dispatch argv = (case argv of
       [] \<Rightarrow> Inl ESP_ERR_INVALID_ARG
     | name # _ \<Rightarrow> (case map_of console_table name of None \<Rightarrow> Inl ESP_ERR_NOT_FOUND | Some c \<Rightarrow> Inr c))"

section \<open>Greeting and prompt\<close>

text \<open>\<open>on\<close> and \<open>off\<close> are the colour codes of the log; \<open>probe\<close> is not 0 when the terminal knows no escapes.\<close>

definition console_prompt :: "bool \<Rightarrow> string \<Rightarrow> string \<Rightarrow> int \<Rightarrow> string" where
  "console_prompt colors on off probe =
     (if probe \<noteq> 0 \<and> colors then ''esp32> '' else on @ ''esp32> '' @ off)"

definition console_greeting :: "string \<Rightarrow> int \<Rightarrow> string" where
  "console_greeting ssid probe =
     [newline] @ ''ESP32 NAT Firewall'' @ [newline] @
     ''Type 'help' to get the list of commands.'' @ [newline] @
     ''Use UP/DOWN arrows to navigate through command history.'' @ [newline] @
     ''Press TAB when typing command name to auto-complete.'' @ [newline] @
     (if length ssid = 0
      then [newline] @ ''Unconfigured WiFi'' @ [newline] @
        ''Configure using 'set_sta' and 'set_ap' and restart.'' @ [newline] else []) @
     (if probe \<noteq> 0
      then [newline] @ ''Your terminal application does not support escape sequences.'' @ [newline] @
        ''Line editing and history features are disabled.'' @ [newline] @
        ''On Windows, try using Putty instead.'' @ [newline] else [])"

section \<open>The loop\<close>

record 's console =
  con_history :: "string list"
  con_saved :: "string list"
  con_out :: string
  con_router :: 's

text \<open>
  One round for what \<open>linenoise\<close> returns; \<open>add\<close> is its history, \<open>run\<close> is \<open>esp_console_run\<close> on the line.
\<close>

definition console_round ::
    "(string \<Rightarrow> string list \<Rightarrow> string list) \<Rightarrow> (string \<Rightarrow> 's \<Rightarrow> (esp_err \<times> nat \<times> 's) cres) \<Rightarrow> (nat \<Rightarrow> string) \<Rightarrow>
     (esp_err \<Rightarrow> string) \<Rightarrow> string option \<Rightarrow> 's console \<Rightarrow> 's console cres" where
  "console_round add run ret_name err_name input c = (case input of
       None \<Rightarrow> Inr c
     | Some line \<Rightarrow>
         let h = add line (con_history c)
         in bindE (run line (con_router c)) (\<lambda>(err, ret, r).
            Inr \<lparr>con_history = h, con_saved = h,
                 con_out = con_out c @ console_message ret_name err_name err ret, con_router = r\<rparr>))"

fun console_loop ::
    "(string \<Rightarrow> string list \<Rightarrow> string list) \<Rightarrow> (string \<Rightarrow> 's \<Rightarrow> (esp_err \<times> nat \<times> 's) cres) \<Rightarrow> (nat \<Rightarrow> string) \<Rightarrow>
     (esp_err \<Rightarrow> string) \<Rightarrow> string option list \<Rightarrow> 's console \<Rightarrow> 's console cres" where
  "console_loop add run ret_name err_name [] c = Inr c"
| "console_loop add run ret_name err_name (l # ls) c =
     bindE (console_round add run ret_name err_name l c) (console_loop add run ret_name err_name ls)"

section \<open>What the loop does\<close>

lemma console_names_distinct: "distinct (map fst console_table)"
  by (simp add: console_table_def register_system_def register_free_def register_heap_def register_version_def
      register_restart_def register_deep_sleep_def register_light_sleep_def register_tasks_def register_nvs_def
      register_router_def register_set_sta_def register_set_sta_static_def register_set_mac_def
      register_set_ap_def register_set_ap_ip_def register_portmap_def register_show_def)

text \<open>Every command of the three modules is reached by its name, and only by it: no registration hides another.\<close>

theorem console_commands_reachable:
  "console_dispatch (name # args) = Inr c \<longleftrightarrow> (name, c) \<in> set console_table"
  using map_of_eq_Some_iff [OF console_names_distinct, of name c]
  by (cases "map_of console_table name") (auto simp: console_dispatch_def)

text \<open>Whatever the lines are, the history file ends as the history, and the lines in between are those read.\<close>

theorem console_history_saved:
  assumes "console_loop add run ret_name err_name ls c = Inr c'" and "con_saved c = con_history c"
  shows "con_saved c' = con_history c' \<and> con_history c' = fold add (List.map_filter (\<lambda>l. l) ls) (con_history c)"
  using assms
proof (induction ls arbitrary: c)
  case (Cons l ls)
  then obtain c1 where step: "console_round add run ret_name err_name l c = Inr c1"
    and rest: "console_loop add run ret_name err_name ls c1 = Inr c'" by (auto simp: cres_simps)
  have "con_saved c1 = con_history c1 \<and> con_history c1 = (case l of None \<Rightarrow> con_history c | Some line \<Rightarrow> add line (con_history c))"
    using step Cons.prems(2) by (auto simp: console_round_def Let_def cres_simps split: option.splits)
  then show ?case using Cons.IH [OF rest] by (simp add: List.map_filter_simps split: option.split)
qed (simp add: List.map_filter_simps)

theorem console_history_saved_witness:
  "\<exists>c'. console_loop Cons (\<lambda>_ s. Inr (ESP_OK, 0, s)) (\<lambda>_. []) (\<lambda>_. []) [Some ''show'', None, Some ''help'']
      \<lparr>con_history = [], con_saved = [], con_out = [], con_router = ()\<rparr> = Inr c' \<and> con_saved c' = [''help'', ''show'']"
proof -
  obtain c' where loop: "console_loop Cons (\<lambda>_ s. Inr (ESP_OK, 0, s)) (\<lambda>_. []) (\<lambda>_. []) [Some ''show'', None, Some ''help'']
      \<lparr>con_history = [], con_saved = [], con_out = [], con_router = ()\<rparr> = Inr c'"
    by (simp add: console_round_def Let_def)
  from console_history_saved [OF this] loop show ?thesis by (simp add: List.map_filter_simps)
qed

end
