(* ===== verification/Spec2Isabelle.thy ===== *)
theory Spec2Isabelle
  imports Service_Store Domain_Props Dns_Props Rate_Limit Wifi_Laws Settings_Props Cmd_Nvs_Props Boot_Props
    Dashboard_Props Cmd_System Log_Race Packet_Races Console
begin

text \<open>
  A verification library of the ESP32 NAT router with firewall: the C code of \<open>main/\<close> and
  \<open>components/\<close>, as executable HOL functions, with the theorems that make it correct or show where it is
  not.

  \<^bold>\<open>The program.\<close> An ESP32 is at once the access point of a private network and a station of an
  uplink network, and translates addresses between the two. Every frame of a station goes through a
  hook (\<open>main/netif_hook.c\<close>) that asks the packet filter (\<open>main/packet_filter.c\<close>), which looks at the
  sender's status in the list of devices (\<open>main/esp32_nat_router.c\<close>) and at the port filter
  (\<open>main/service_filter.c\<close>). Names are filtered by a DNS server of its own (\<open>main/dns_server.c\<close>) against
  the list of domains (\<open>main/domain_filter.c\<close>). Settings, rules, domains and port mappings are kept in NVS,
  the vendor's key-value store in flash. They are changed from web pages (\<open>main/http_server.c\<close>,
  \<open>main/pages.h\<close>) and from a serial console (\<open>components/cmd_router\<close>, \<open>cmd_nvs\<close>, \<open>cmd_system\<close>). A ring of
  log lines (\<open>main/log_buffer.c\<close>) is shown on the dashboard.

  \<^bold>\<open>Conventions.\<close> A C function is one definition that gets and returns the globals it uses, as a record
  per component, and the platform state \<open>'f plat\<close>, the log and the flash. Undefined behaviour is a value:
  results have the type \<open>'a cres = ub + 'a\<close> (theory \<open>Prelude\<close>), so that an index out of bounds, a read of
  an uninitialised object or a bad format string is a branch of the model. Integers have the width of
  the source. Output to the serial log (\<open>ESP_LOGx\<close>) is left out; the lines of the log ring are state.
  Allocation never fails unless a definition has it as a parameter. \<open>char\<close> is unsigned, as on Xtensa.

  \<^bold>\<open>Libraries as interfaces.\<close> Code that is not in the repository is a parameter, and what its
  documentation promises is a locale with a concrete instance: NVS (\<open>nvs_flash\<close>, \<open>nvs_reliable\<close>; \<open>ram_flash\<close>
  keeps every write back until it is committed), the address translation of lwIP (\<open>napt_driver\<close>), the
  argument parser (\<open>arg_parser\<close>; \<open>simple_parse\<close>), the iterator over NVS entries (\<open>nvs_iterator\<close>), the JSON
  library (\<open>json_library\<close>; \<open>jval_json\<close>). The HTTP daemon is a request record, sockets are results of calls,
  the sleep driver is a record of the calls it accepts. Contracts between components of the router
  are locales too, interpreted on the model: \<open>sliding_window\<close> (log), \<open>op_system\<close> and \<open>total_op_system\<close>
  (operations and their invariant), the policy of the port filter, \<open>name_filter\<close> and
  \<open>editable_name_filter\<close> (domain list), \<open>configured\<close> (settings), \<open>published\<close> (a table that is changed while
  another task looks something up in it).

  \<^bold>\<open>Theories, by component.\<close>
  \<^item> \<open>Prelude\<close>, \<open>C_Lib\<close>, \<open>Format\<close>, \<open>C_Num\<close>: undefined behaviour, search loops, C strings and arrays, case
    mapping, \<open>printf\<close> formats, byte order, arrays of structures in memory, \<open>strtol\<close> and its relatives.
  \<^item> \<open>Log_Buffer\<close> (\<open>log_buffer.c\<close>): the ring; a reader sees the last hundred lines in order. \<open>Log_Race\<close>:
    the ring without its lock, calls of several tasks interleaved byte by byte; they stay in bounds, but a
    line can be lost and the order turned. \<open>Nvs\<close>: flash and platform.
  \<^item> \<open>Service_Filter\<close>, \<open>Service_Laws\<close>, \<open>Service_Store\<close> (\<open>service_filter.c\<close>): built-in services and custom rules;
    the invariant, what decides a port after each operation, the round trip through the flash.
  \<^item> \<open>Domain_Filter\<close>, \<open>Domain_Laws\<close>, \<open>Domain_Store\<close>, \<open>Domain_Props\<close> (\<open>domain_filter.c\<close>): matching as the
    label-suffix relation, the table as a set of names, persistence.
  \<^item> \<open>Devices\<close>, \<open>Wifi\<close>, \<open>Wifi_Laws\<close> (\<open>esp32_nat_router.c\<close>, \<open>router_globals.h\<close>): devices, stations, the event
    handler as a step relation over the radio, the configuration of the radio.
  \<^item> \<open>Packet_Filter\<close>, \<open>Packet_Laws\<close> (\<open>packet_filter.c\<close>, \<open>netif_hook.c\<close>): frames, the decision as a first-match
    rule list, and exactly when the hook reads inside the frame.
  \<^item> \<open>Dns_Server\<close>, \<open>Dns_Laws\<close>, \<open>Dns_Props\<close>, \<open>Rate_Limit\<close> (\<open>dns_server.c\<close>): the name parser, a partial function
    because it follows compression pointers without a bound, the blocked answer, forwarding, one
    round of the server loop, and the rate limiter nobody calls.
  \<^item> \<open>Portmap\<close>, \<open>Portmap_Laws\<close>, \<open>Portmap_Props\<close> (\<open>esp32_nat_router.c\<close>): the table of port mappings and the calls
    that mirror it into lwIP.
  \<^item> \<open>Url_Decode\<close>, \<open>Argtable\<close>, \<open>Cmd_Router\<close>, \<open>Settings\<close>, \<open>Settings_Laws\<close>, \<open>Settings_Props\<close> (\<open>cmd_router.c\<close>, the
    reading part of \<open>app_main\<close>): decoding in place against the relation \<open>encodes\<close>, the configuration commands
    as updates of the record \<open>wifi_params\<close> that is read after a restart.
  \<^item> \<open>Cmd_Nvs\<close>, \<open>Cmd_Nvs_Props\<close> (\<open>cmd_nvs.c\<close>): the commands on arbitrary NVS entries; what is printed for what
    was set.
  \<^item> \<open>Cmd_System\<close> (\<open>cmd_system.c\<close>): information, restart and sleep; which sources wake the chip.
  \<^item> \<open>Http_Lib\<close>, \<open>Http_Server\<close>, \<open>Pages\<close>, \<open>Http_Props\<close>, \<open>Http_State\<close>, \<open>Http_State_Props\<close> (\<open>http_server.c\<close>, \<open>pages.h\<close>):
    every handler, the forms, escaping, the configuration page byte for byte, routing, and the server
    as a machine over the firewall's state.
  \<^item> \<open>Boot\<close>, \<open>Boot_Props\<close> (\<open>app_main\<close>): start-up as a list of steps, each implementing one update of the whole
    router; the state it ends in, and what frames meet in between.
  \<^item> \<open>Flash_Frame\<close>, \<open>System\<close>, \<open>System_Laws\<close>, \<open>Life\<close>: the components together. They share one NVS namespace, so each
    has a frame lemma for the keys it leaves alone; the machine of frames, radio events, queries, requests
    and console commands keeps what is saved in step with what is in force; \<open>life_step\<close> adds the steps of
    start-up, with events in between, and power cuts at any point.

  \<^item> \<open>Dashboard\<close>, \<open>Dashboard_Props\<close> (\<open>pages.h\<close>): the script of the dashboard, one definition per function over the
    parts of the page it changes, as a client of the routed handlers: what the page shows, its switches,
    its column of access levels, and a service switched off on it through a power cut.

  \<^item> \<open>Interleave\<close>, \<open>Rule_Races\<close>, \<open>Rule_Race_Props\<close>, \<open>Table_Races\<close>, \<open>Packet_Races\<close>: what the tasks that judge frames and queries see
    of a table while another task changes it. A lookup is a tree of reads, an operation the list of its stores in
    program order, both proved equal to the definitions of their component when undisturbed. Additions, flags,
    switches of services, changes of the domain list and of devices are seen at once; narrowing a rule and
    removing one are not.
  \<^item> \<open>Console\<close>: the commands of all modules in one table, greeting, prompt and the console loop.

  \<^bold>\<open>Bounds and fuel.\<close> No definition has fuel. Loops over arrays are structural or have a measure; the only
  loop that may not end, \<open>parse_loop\<close>, is a \<open>partial_function (option)\<close>: \<open>dns_parse_returns\<close> proves that it
  ends when pointers point backwards, \<open>dns_self_pointer_hangs\<close> that it does not in general. The capacities
  are the source's: a hundred log lines of 128 bytes, twenty custom rules, fifty domains of 128 bytes, twenty
  devices, eight stations; the number of port mapping slots is a parameter.

  \<^bold>\<open>Not modelled.\<close> \<open>initialize_filesystem\<close> and \<open>initialize_console\<close>, line editing, the serial port, the LED pin,
  sockets and the creation of tasks (input and output only). Tasks run concurrently only where a theory on races
  says so; there, single loads and stores are indivisible and in program order, which the compiler may change
  since no variable is \<open>volatile\<close>, and one task writes at a time. Everywhere else the steps of start-up, one request,
  one frame, one datagram, one event and one command are atomic.
  The markup and style of \<open>DASHBOARD_PAGE\<close> are sent as they are and a parameter, its timers only repeat the
  fetches, and no two of its calls overlap; \<open>LOCK_PAGE\<close> is unused. \<open>index.html\<close>, \<open>script.js\<close> and
  \<open>style.css\<close> are not part of the firmware; \<open>.pio/\<close> and \<open>build/\<close> are generated.
\<close>

end
